(* ===== verification/Go_Base.thy ===== *)
theory Go_Base
  imports Main "HOL-Library.Sublist" "HOL-Library.Word" "HOL-Library.State_Monad"
begin

text \<open>
  The prelude of the development: the Go values that every component shares.

  \<^item> Go strings are byte sequences, hence \<^typ>\<open>string\<close> (a \<^typ>\<open>char\<close> is one byte).
  \<^item> \<open>int64\<close>, \<open>uint64\<close> and \<open>float64\<close> values are \<open>64 word\<close>, or integers with the 64-bit range
    written out where a value is only compared and printed.
  \<^item> A Go \<open>error\<close> is a \<open>goerror\<close>; a result \<open>(T, error)\<close> is \<open>goerror + T\<close>, a bare \<open>error\<close>
    result is \<open>goerror option\<close> with \<open>None\<close> for \<open>nil\<close>.
  \<^item> A function that can panic returns an \<open>outcome\<close>.

  The collections \<open>go_defs\<close> (definitions unfolded when a handler is run) and \<open>trace_rules\<close>
  and \<open>produce_rules\<close> (the rules of the trace logic of theory \<open>Host_IO\<close>) are declared here.
\<close>

named_theorems go_defs "definitions that are unfolded when a handler is evaluated"
named_theorems trace_rules "introduction rules of the trace logic"
named_theorems produce_rules "rules that run a program call by call in the trace logic"

section \<open>Status codes and errors\<close>

text \<open>The gRPC codes the handlers return (package \<open>google.golang.org/grpc/codes\<close>).\<close>

datatype code = InvalidArgument | NotFound | Aborted | Unimplemented | Internal | Unavailable

primrec code_String :: "code \<Rightarrow> string" where
  "code_String InvalidArgument = ''InvalidArgument''"
| "code_String NotFound = ''NotFound''"
| "code_String Aborted = ''Aborted''"
| "code_String Unimplemented = ''Unimplemented''"
| "code_String Internal = ''Internal''"
| "code_String Unavailable = ''Unavailable''"

text \<open>
  What the code can find out about an error of the operating system: \<open>os.IsNotExist\<close>,
  \<open>os.IsPermission\<close>, a comparison with \<open>io.EOF\<close> or with \<open>exec.ErrNotFound\<close>, and the text.
  \<open>EExecNotFound\<close> is the value \<open>exec.ErrNotFound\<close> itself. The Go library returns it wrapped in an
  \<open>*exec.Error\<close> from \<open>exec.LookPath\<close>, so a host that behaves like it answers \<open>EOther\<close> there; the branches
  of the mounter that compare with the bare value are modelled as they are written.
\<close>

datatype errno = ENotExist | EPermission | EEOF | EExecNotFound | EOther

datatype num_error = ErrSyntax | ErrRange

datatype goerror =
    ErrorString string
  | StatusError code string
  | SysError errno string
  | NumError string string num_error

primrec num_error_text :: "num_error \<Rightarrow> string" where
  "num_error_text ErrSyntax = ''invalid syntax''"
| "num_error_text ErrRange = ''value out of range''"

text \<open>
  The \<open>Error\<close> method. Its argument \<open>q\<close> is \<open>strconv.Quote\<close>, which depends on the Unicode
  tables; no theorem of the development depends on what it returns.
\<close>

primrec Error :: "(string \<Rightarrow> string) \<Rightarrow> goerror \<Rightarrow> string" where
  "Error q (ErrorString s) = s"
| "Error q (StatusError c s) = ''rpc error: code = '' @ code_String c @ '' desc = '' @ s"
| "Error q (SysError e s) = s"
| "Error q (NumError f s k) = ''strconv.'' @ f @ '': parsing '' @ q s @ '': '' @ num_error_text k"

definition IsNotExist :: "goerror \<Rightarrow> bool" where
  "IsNotExist e = (case e of SysError k _ \<Rightarrow> k = ENotExist | _ \<Rightarrow> False)"

definition IsPermission :: "goerror \<Rightarrow> bool" where
  "IsPermission e = (case e of SysError k _ \<Rightarrow> k = EPermission | _ \<Rightarrow> False)"

definition is_EOF :: "goerror \<Rightarrow> bool" where
  "is_EOF e = (case e of SysError k _ \<Rightarrow> k = EEOF | _ \<Rightarrow> False)"

definition is_ErrNotFound :: "goerror \<Rightarrow> bool" where
  "is_ErrNotFound e = (case e of SysError k _ \<Rightarrow> k = EExecNotFound | _ \<Rightarrow> False)"

text \<open>A computation that may panic.\<close>

datatype 'a outcome = Done 'a | Panic string

fun panics :: "'a outcome \<Rightarrow> bool" where
  "panics (Done _) = False"
| "panics (Panic _) = True"

section \<open>Machine integers\<close>

type_synonym uint64 = "64 word"
type_synonym float64 = "64 word"

definition max_int64 :: int where "max_int64 = 9223372036854775807"
definition min_int64 :: int where "min_int64 = -9223372036854775808"

definition is_int64 :: "int \<Rightarrow> bool" where
  "is_int64 i \<longleftrightarrow> min_int64 \<le> i \<and> i \<le> max_int64"

text \<open>Go's signed division truncates towards zero.\<close>

definition go_div :: "int \<Rightarrow> int \<Rightarrow> int" where
  "go_div a b = sgn a * sgn b * (\<bar>a\<bar> div \<bar>b\<bar>)"

lemma go_div_nonneg: "0 \<le> a \<Longrightarrow> 0 < b \<Longrightarrow> go_div a b = a div b"
  by (cases "a = 0") (simp_all add: go_div_def sgn_if)

lemma go_div_le: "0 \<le> a \<Longrightarrow> 0 < b \<Longrightarrow> go_div a b * b \<le> a"
  by (simp add: go_div_nonneg minus_mod_eq_div_mult [symmetric])

lemma go_div_zero_iff: "0 \<le> a \<Longrightarrow> 0 < b \<Longrightarrow> go_div a b = 0 \<longleftrightarrow> a < b"
  by (auto simp: go_div_nonneg zdiv_eq_0_iff)

section \<open>First element of nested report rows\<close>

text \<open>
  \<open>for _, report := range result.Report { for _, x := range report.X { return f x } }\<close> returns
  the first row of the first non-empty report.
\<close>

fun first_row :: "'a list list \<Rightarrow> 'a option" where
  "first_row [] = None"
| "first_row ([] # rs) = first_row rs"
| "first_row ((x # _) # _) = Some x"

lemma first_row_concat: "first_row rs = (case concat rs of [] \<Rightarrow> None | x # _ \<Rightarrow> Some x)"
  by (induction rs rule: first_row.induct) auto

lemma first_row_None_iff: "first_row rs = None \<longleftrightarrow> (\<forall>r \<in> set rs. r = [])"
  by (induction rs rule: first_row.induct) auto

lemma first_row_mem: "first_row rs = Some x \<Longrightarrow> \<exists>r \<in> set rs. x \<in> set r"
  by (induction rs rule: first_row.induct) auto

end
