(* ===== verification/Go_Strings.thy ===== *)
theory Go_Strings
  imports Go_Base
begin

text \<open>
  The part of Go's package \<open>strings\<close> that the driver uses, on byte strings: searching,
  splitting and joining, trimming, replacing. The lemmas relate the functions to each
  other (\<open>Join\<close> undoes \<open>Split\<close>, \<open>Split\<close> undoes \<open>Join\<close> on fields without the separator) and
  characterise \<open>Contains\<close>, \<open>HasPrefix\<close> and \<open>HasSuffix\<close> by concatenation.
\<close>

section \<open>Definitions\<close>

definition HasPrefix :: "string \<Rightarrow> string \<Rightarrow> bool" where
  "HasPrefix s p = prefix p s"

definition HasSuffix :: "string \<Rightarrow> string \<Rightarrow> bool" where
  "HasSuffix s p = prefix (rev p) (rev s)"

fun Contains :: "string \<Rightarrow> string \<Rightarrow> bool" where
  "Contains [] sub = (sub = [])"
| "Contains (c # s) sub = (prefix sub (c # s) \<or> Contains s sub)"

text \<open>\<open>strings.Cut\<close>: the text before and after the first occurrence of the separator.\<close>

fun Cut :: "string \<Rightarrow> string \<Rightarrow> (string \<times> string) option" where
  "Cut [] sep = (if sep = [] then Some ([], []) else None)"
| "Cut (c # s) sep =
     (if prefix sep (c # s) then Some ([], drop (length sep) (c # s))
      else (case Cut s sep of None \<Rightarrow> None | Some (a, b) \<Rightarrow> Some (c # a, b)))"

lemma Cut_Some: "Cut s sep = Some (a, b) \<Longrightarrow> s = a @ sep @ b"
proof (induction s arbitrary: a)
  case Nil
  then show ?case by (simp split: if_splits)
next
  case (Cons c s)
  show ?case
  proof (cases "prefix sep (c # s)")
    case True
    then obtain t where t: "c # s = sep @ t" by (auto simp: prefix_def)
    from Cons.prems True have "a = []" and "b = drop (length sep) (c # s)" by auto
    then show ?thesis by (simp add: t)
  next
    case False
    with Cons show ?thesis by (auto split: option.splits prod.splits)
  qed
qed

lemma Cut_shorter: "Cut s sep = Some (a, b) \<Longrightarrow> sep \<noteq> [] \<Longrightarrow> length b < length s"
  using Cut_Some by fastforce

text \<open>
  \<open>strings.Split\<close>. The separator is a non-empty constant at every call of the program; for the
  empty separator Go explodes the string into characters, here into bytes.
\<close>

function Split :: "string \<Rightarrow> string \<Rightarrow> string list" where
  "Split s sep =
     (if sep = [] then map (\<lambda>c. [c]) s
      else (case Cut s sep of None \<Rightarrow> [s] | Some (a, b) \<Rightarrow> a # Split b sep))"
  by pat_completeness auto
termination
  by (relation "measure (\<lambda>(s, sep). length s)") (auto dest: Cut_shorter)

declare Split.simps [simp del]

fun Join :: "string list \<Rightarrow> string \<Rightarrow> string" where
  "Join [] sep = []"
| "Join [x] sep = x"
| "Join (x # y # xs) sep = x @ sep @ Join (y # xs) sep"

text \<open>\<open>strings.SplitN(s, sep, 2)\<close>.\<close>

definition SplitN2 :: "string \<Rightarrow> string \<Rightarrow> string list" where
  "SplitN2 s sep = (case Cut s sep of None \<Rightarrow> [s] | Some (a, b) \<Rightarrow> [a, b])"

text \<open>
  White space. \<open>unicode.IsSpace\<close> holds for six ASCII characters and for U+0085, U+00A0, U+1680,
  U+2000 to U+200A, U+2028, U+2029, U+202F, U+205F and U+3000; \<open>space_len\<close> is the length
  of the UTF-8 encoding of such a character at the front of a string, 0 if there is none.
\<close>

definition ascii_space :: "char \<Rightarrow> bool" where
  "ascii_space c \<longleftrightarrow> c = CHR 0x20 \<or> c = CHR 0x0A \<or> c = CHR 0x09 \<or> c = CHR 0x0D \<or>
     c = CHR 0x0B \<or> c = CHR 0x0C"

definition wide_space :: "char \<Rightarrow> char \<Rightarrow> char \<Rightarrow> bool" where
  "wide_space c d e \<longleftrightarrow>
     c = CHR 0xE1 \<and> d = CHR 0x9A \<and> e = CHR 0x80 \<or>
     c = CHR 0xE2 \<and> d = CHR 0x80 \<and>
       (128 \<le> (of_char e :: nat) \<and> of_char e \<le> (138 :: nat) \<or> e = CHR 0xA8 \<or> e = CHR 0xA9 \<or> e = CHR 0xAF) \<or>
     c = CHR 0xE2 \<and> d = CHR 0x81 \<and> e = CHR 0x9F \<or>
     c = CHR 0xE3 \<and> d = CHR 0x80 \<and> e = CHR 0x80"

definition narrow_space :: "char \<Rightarrow> char \<Rightarrow> bool" where
  "narrow_space c d \<longleftrightarrow> c = CHR 0xC2 \<and> (d = CHR 0x85 \<or> d = CHR 0xA0)"

definition space_len :: "string \<Rightarrow> nat" where
  "space_len s = (case s of [] \<Rightarrow> 0 | c # t \<Rightarrow>
     if ascii_space c then 1
     else (case t of [] \<Rightarrow> 0 | d # u \<Rightarrow>
       if narrow_space c d then 2
       else (case u of [] \<Rightarrow> 0 | e # _ \<Rightarrow> if wide_space c d e then 3 else 0)))"

text \<open>The same at the end of a string, read on the reversed string.\<close>

definition rspace_len :: "string \<Rightarrow> nat" where
  "rspace_len s = (case s of [] \<Rightarrow> 0 | e # t \<Rightarrow>
     if ascii_space e then 1
     else (case t of [] \<Rightarrow> 0 | d # u \<Rightarrow>
       if narrow_space d e then 2
       else (case u of [] \<Rightarrow> 0 | c # _ \<Rightarrow> if wide_space c d e then 3 else 0)))"

function TrimLeftSpace :: "string \<Rightarrow> string" where
  "TrimLeftSpace s =
     (if s = [] \<or> space_len s = 0 then s else TrimLeftSpace (drop (space_len s) s))"
  by pat_completeness auto
termination
  by (relation "measure length") auto

function TrimRightSpace :: "string \<Rightarrow> string" where
  "TrimRightSpace s =
     (if s = [] \<or> rspace_len s = 0 then s else TrimRightSpace (drop (rspace_len s) s))"
  by pat_completeness auto
termination
  by (relation "measure length") auto

declare TrimLeftSpace.simps [simp del] TrimRightSpace.simps [simp del]

definition TrimSpace :: "string \<Rightarrow> string" where
  "TrimSpace s = rev (TrimRightSpace (rev (TrimLeftSpace s)))"

definition TrimRight :: "string \<Rightarrow> char \<Rightarrow> string" where
  "TrimRight s c = rev (dropWhile (\<lambda>x. x = c) (rev s))"

definition TrimPrefix :: "string \<Rightarrow> string \<Rightarrow> string" where
  "TrimPrefix s p = (if HasPrefix s p then drop (length p) s else s)"

definition TrimSuffix :: "string \<Rightarrow> string \<Rightarrow> string" where
  "TrimSuffix s p = (if HasSuffix s p then take (length s - length p) s else s)"

text \<open>\<open>strings.Fields\<close>: maximal runs of characters that are not white space.\<close>

function fields_from :: "string \<Rightarrow> string \<Rightarrow> string list" where
  "fields_from s acc =
     (case s of
        [] \<Rightarrow> (if acc = [] then [] else [rev acc])
      | c # t \<Rightarrow>
          (if space_len s = 0 then fields_from t (c # acc)
           else (if acc = [] then [] else [rev acc]) @ fields_from (drop (space_len s) s) []))"
  by pat_completeness auto
termination
  by (relation "measure (\<lambda>(s, acc). length s)") auto

declare fields_from.simps [simp del]

definition Fields :: "string \<Rightarrow> string list" where
  "Fields s = fields_from s []"

text \<open>\<open>strings.ReplaceAll\<close> and \<open>strings.Replace(s, old, new, 1)\<close> for a non-empty \<open>old\<close>.\<close>

definition ReplaceAll :: "string \<Rightarrow> string \<Rightarrow> string \<Rightarrow> string" where
  "ReplaceAll s old new = Join (Split s old) new"

definition Replace1 :: "string \<Rightarrow> string \<Rightarrow> string \<Rightarrow> string" where
  "Replace1 s old new = (case Cut s old of None \<Rightarrow> s | Some (a, b) \<Rightarrow> a @ new @ b)"

text \<open>\<open>strings.ToLower\<close> maps this over a string in ASCII.\<close>

definition to_lower :: "char \<Rightarrow> char" where
  "to_lower c = (let n = (of_char c :: nat) in if 65 \<le> n \<and> n \<le> 90 then char_of (n + 32) else c)"

definition is_alnum :: "char \<Rightarrow> bool" where
  "is_alnum c \<longleftrightarrow>
     (let n = (of_char c :: nat)
      in 65 \<le> n \<and> n \<le> 90 \<or> 97 \<le> n \<and> n \<le> 122 \<or> 48 \<le> n \<and> n \<le> 57)"

section \<open>Searching\<close>

lemma HasPrefix_iff: "HasPrefix s p \<longleftrightarrow> (\<exists>t. s = p @ t)"
  by (auto simp: HasPrefix_def prefix_def)

lemma HasPrefix_append [simp]: "HasPrefix (p @ t) p"
  by (simp add: HasPrefix_def)

lemma HasSuffix_iff: "HasSuffix s p \<longleftrightarrow> (\<exists>t. s = t @ p)"
  by (simp add: HasSuffix_def suffix_to_prefix [symmetric] suffix_def)

lemma HasSuffix_append [simp]: "HasSuffix (t @ p) p"
  by (auto simp: HasSuffix_iff)

lemma Contains_iff: "Contains s sub \<longleftrightarrow> (\<exists>a b. s = a @ sub @ b)"
proof (induction s)
  case Nil
  then show ?case by auto
next
  case (Cons c s)
  show ?case
  proof
    assume "Contains (c # s) sub"
    then consider (here) "prefix sub (c # s)" | (later) "Contains s sub" by auto
    then show "\<exists>a b. c # s = a @ sub @ b"
    proof cases
      case here
      then obtain b where "c # s = [] @ sub @ b" by (auto simp: prefix_def)
      then show ?thesis by blast
    next
      case later
      then obtain a b where "s = a @ sub @ b" using Cons.IH by blast
      then have "c # s = (c # a) @ sub @ b" by simp
      then show ?thesis by blast
    qed
  next
    assume "\<exists>a b. c # s = a @ sub @ b"
    then obtain a b where ab: "c # s = a @ sub @ b" by blast
    show "Contains (c # s) sub"
    proof (cases a)
      case Nil
      with ab have "prefix sub (c # s)" by simp
      then show ?thesis by simp
    next
      case (Cons x a')
      with ab have "s = a' @ sub @ b" by simp
      then show ?thesis using Cons.IH by auto
    qed
  qed
qed

lemma Contains_append [simp]: "Contains (a @ sub @ b) sub"
  by (auto simp: Contains_iff)

lemma HasPrefix_Contains: "HasPrefix s p \<Longrightarrow> Contains s p"
  by (force simp: HasPrefix_iff Contains_iff)

lemma Cut_None: "Cut s sep = None \<longleftrightarrow> \<not> Contains s sep"
  by (induction s) (auto split: option.splits prod.splits)

lemma Contains_single: "Contains s [c] \<longleftrightarrow> c \<in> set s"
  by (metis Contains_iff append_Cons append_Nil in_set_conv_decomp)

section \<open>Splitting and joining\<close>

lemma Split_not_Nil [simp]: "sep \<noteq> [] \<Longrightarrow> Split s sep \<noteq> []"
  by (subst Split.simps) (auto split: option.splits prod.splits)

lemma Join_Cons: "xs \<noteq> [] \<Longrightarrow> Join (x # xs) sep = x @ sep @ Join xs sep"
  by (cases xs) auto

lemma Join_Split: "sep \<noteq> [] \<Longrightarrow> Join (Split s sep) sep = s"
proof (induction s sep rule: Split.induct)
  case (1 s sep)
  show ?case
  proof (cases "Cut s sep")
    case None
    with "1.prems" show ?thesis by (simp add: Split.simps [of s sep])
  next
    case (Some ab)
    obtain a b where ab: "ab = (a, b)" by (cases ab)
    with Some "1" have "Join (Split b sep) sep = b" by auto
    moreover have "Split s sep = a # Split b sep"
      using Some ab "1.prems" by (simp add: Split.simps [of s sep])
    ultimately show ?thesis
      using Some ab "1.prems" Cut_Some [of s sep a b] by (simp add: Join_Cons)
  qed
qed

lemma Split_no_sep: "sep \<noteq> [] \<Longrightarrow> \<not> Contains s sep \<Longrightarrow> Split s sep = [s]"
  by (simp add: Split.simps [of s sep] Cut_None [THEN iffD2])

lemma Cut_char: "c \<notin> set x \<Longrightarrow> Cut (x @ c # y) [c] = Some (x, y)"
  by (induction x) auto

lemma Split_char_append: "c \<notin> set x \<Longrightarrow> Split (x @ c # y) [c] = x # Split y [c]"
  by (subst Split.simps) (simp add: Cut_char)

lemma Split_char_none: "c \<notin> set x \<Longrightarrow> Split x [c] = [x]"
  by (simp add: Split_no_sep Contains_single)

text \<open>\<open>Split\<close> undoes \<open>Join\<close> when no field holds the one-character separator.\<close>

lemma Split_Join_char:
  "xs \<noteq> [] \<Longrightarrow> \<forall>x \<in> set xs. c \<notin> set x \<Longrightarrow> Split (Join xs [c]) [c] = xs"
  by (induction xs "[c]" rule: Join.induct) (auto simp: Split_char_append Split_char_none)

lemma set_Split_char: "x \<in> set (Split s [c]) \<Longrightarrow> c \<notin> set x"
proof (induction s "[c]" rule: Split.induct)
  case (1 s)
  show ?case
  proof (cases "Cut s [c]")
    case None
    with "1.prems" show ?thesis
      by (simp add: Split.simps [of s "[c]"] Cut_None Contains_single)
  next
    case (Some ab)
    obtain a b where ab: "ab = (a, b)" by (cases ab)
    have "c \<notin> set a" if "Cut s [c] = Some (a, b)" for a b s
      using that by (induction s arbitrary: a) (auto split: if_splits option.splits)
    with Some ab "1" show ?thesis by (auto simp: Split.simps [of s "[c]"])
  qed
qed

section \<open>White space\<close>

text \<open>A string in which no white-space character starts at any position.\<close>

fun space_free :: "string \<Rightarrow> bool" where
  "space_free [] = True"
| "space_free (c # s) = (space_len (c # s) = 0 \<and> space_free s)"

lemma space_len_Nil [simp]: "space_len [] = 0"
  by (simp add: space_len_def)

lemma space_len_blank [simp]: "space_len (CHR 0x20 # s) = 1" "space_len (CHR 0x0A # s) = 1"
  by (simp_all add: space_len_def ascii_space_def)

lemma wide_blank [simp]:
  "\<not> narrow_space c (CHR 0x20)" "\<not> wide_space c (CHR 0x20) e" "\<not> wide_space c d (CHR 0x20)"
  by (simp_all add: narrow_space_def wide_space_def)

lemma space_len_append_blank:
  assumes "u \<noteq> []" and "space_len u = 0"
  shows "space_len (u @ CHR 0x20 # v) = 0"
proof -
  obtain c t where u: "u = c # t" using assms(1) by (cases u) auto
  show ?thesis
  proof (cases t)
    case Nil
    with assms u show ?thesis by (simp add: space_len_def split: list.split if_splits)
  next
    case (Cons d t')
    with assms u show ?thesis
      by (cases t') (simp_all add: space_len_def split: if_splits)
  qed
qed

lemma fields_from_free:
  "space_free x \<Longrightarrow> fields_from (x @ CHR 0x20 # y) acc =
     (if acc = [] \<and> x = [] then [] else [rev acc @ x]) @ fields_from y []"
proof (induction x arbitrary: acc)
  case Nil
  then show ?case by (subst fields_from.simps) simp
next
  case (Cons c x)
  then have "space_len (c # x @ CHR 0x20 # y) = 0"
    using space_len_append_blank [of "c # x" y] by simp
  with Cons show ?case by (subst append_Cons, subst fields_from.simps) simp
qed

lemma fields_from_last:
  "space_free x \<Longrightarrow> fields_from x acc = (if acc = [] \<and> x = [] then [] else [rev acc @ x])"
proof (induction x arbitrary: acc)
  case Nil
  then show ?case by (subst fields_from.simps) simp
next
  case (Cons c x)
  then show ?case by (subst fields_from.simps) simp
qed

text \<open>\<open>Fields\<close> undoes joining with single blanks.\<close>

lemma Fields_Join:
  "\<forall>x \<in> set xs. space_free x \<and> x \<noteq> [] \<Longrightarrow> Fields (Join xs [CHR 0x20]) = xs"
proof (induction xs "[CHR 0x20]" rule: Join.induct)
  case 1
  show ?case by (simp add: Fields_def fields_from_last)
next
  case (2 x)
  then show ?case by (simp add: Fields_def fields_from_last)
next
  case (3 x y xs)
  then show ?case by (simp add: Fields_def fields_from_free)
qed

lemma TrimLeftSpace_id: "space_len s = 0 \<Longrightarrow> TrimLeftSpace s = s"
  by (subst TrimLeftSpace.simps) simp

lemma TrimRightSpace_id: "rspace_len s = 0 \<Longrightarrow> TrimRightSpace s = s"
  by (subst TrimRightSpace.simps) simp

lemma TrimLeftSpace_front: "space_len (TrimLeftSpace s) = 0"
proof (induction s rule: TrimLeftSpace.induct)
  case (1 s)
  then show ?case
    by (cases "s = [] \<or> space_len s = 0") (auto simp: TrimLeftSpace.simps [of s])
qed

lemma TrimRightSpace_front: "rspace_len (TrimRightSpace s) = 0"
proof (induction s rule: TrimRightSpace.induct)
  case (1 s)
  then show ?case
    by (cases "s = [] \<or> rspace_len s = 0")
       (auto simp: TrimRightSpace.simps [of s] rspace_len_def)
qed

lemma TrimRightSpace_suffix: "\<exists>w. s = w @ TrimRightSpace s"
proof (induction s rule: TrimRightSpace.induct)
  case (1 s)
  show ?case
  proof (cases "s = [] \<or> rspace_len s = 0")
    case True
    then show ?thesis by (simp add: TrimRightSpace.simps [of s])
  next
    case False
    with "1" obtain w where "drop (rspace_len s) s = w @ TrimRightSpace (drop (rspace_len s) s)"
      by blast
    then have "s = (take (rspace_len s) s @ w) @ TrimRightSpace s"
      using False by (simp add: TrimRightSpace.simps [of s])
    then show ?thesis by blast
  qed
qed

lemma space_len_prefix: "space_len (u @ v) = 0 \<Longrightarrow> space_len u = 0"
  by (cases u) (auto simp: space_len_def split: list.splits if_splits)

text \<open>Trimming is idempotent: the result neither starts nor ends with white space.\<close>

lemma TrimSpace_ends: "space_len (TrimSpace s) = 0 \<and> rspace_len (rev (TrimSpace s)) = 0"
proof -
  obtain w where "rev (TrimLeftSpace s) = w @ TrimRightSpace (rev (TrimLeftSpace s))"
    using TrimRightSpace_suffix by blast
  then have "TrimLeftSpace s = TrimSpace s @ rev w"
    by (metis TrimSpace_def rev_append rev_rev_ident)
  then have "space_len (TrimSpace s) = 0"
    using TrimLeftSpace_front [of s] space_len_prefix by metis
  then show ?thesis by (simp add: TrimSpace_def TrimRightSpace_front)
qed

lemma TrimSpace_idem [simp]: "TrimSpace (TrimSpace s) = TrimSpace s"
  using TrimSpace_ends [of s]
  by (simp add: TrimSpace_def [of "TrimSpace s"] TrimLeftSpace_id TrimRightSpace_id)

lemma TrimSpace_Nil [simp]: "TrimSpace [] = []"
  by (simp add: TrimSpace_def TrimLeftSpace_id TrimRightSpace_id rspace_len_def)

lemma TrimRight_no: "c \<notin> set s \<Longrightarrow> TrimRight s c = s"
  by (cases s rule: rev_cases) (auto simp: TrimRight_def)

section \<open>Replacing\<close>

lemma ReplaceAll_char: "ReplaceAll s [c] [d] = map (\<lambda>x. if x = c then d else x) s"
proof -
  have "Join (Split s [c]) [d] = map (\<lambda>x. if x = c then d else x) s"
  proof (induction s "[c]" rule: Split.induct)
    case (1 s)
    show ?case
    proof (cases "c \<in> set s")
      case False
      then have "map (\<lambda>x. if x = c then d else x) s = s" by (intro map_idI) auto
      with False show ?thesis by (simp add: Split_char_none)
    next
      case True
      then obtain a b where s: "s = a @ c # b" and a: "c \<notin> set a"
        by (meson split_list_first)
      have "map (\<lambda>x. if x = c then d else x) a = a"
        using a by (induction a) auto
      moreover have "Join (Split b [c]) [d] = map (\<lambda>x. if x = c then d else x) b"
        using "1" [of "(a, b)" a b] a by (simp add: s Cut_char)
      ultimately show ?thesis
        by (simp add: s Split_char_append a Join_Cons)
    qed
  qed
  then show ?thesis by (simp add: ReplaceAll_def)
qed

text \<open>Evaluation of the string functions on literals by the simplifier.\<close>

lemmas trim_eval = TrimSpace_def TrimLeftSpace_id TrimRightSpace_id space_len_def rspace_len_def
  ascii_space_def narrow_space_def wide_space_def

end
