(* ===== verification/Go_Strconv.thy ===== *)
theory Go_Strconv
  imports Go_Strings
begin

text \<open>
  The part of Go's package \<open>strconv\<close> that the driver uses (\<open>Atoi\<close>, \<open>ParseInt\<close> in base 10,
  \<open>ParseBool\<close>) and the decimal output of \<open>fmt\<close>'s verb \<open>%d\<close>. The scanner stops at the first
  error, as the library does: a value that overflows 64 bits is a range error even when a
  later character is not a digit. The lemmas give the round trip of printing and parsing.
\<close>

section \<open>Definitions\<close>

definition is_digit :: "char \<Rightarrow> bool" where
  "is_digit c \<longleftrightarrow> 48 \<le> (of_char c :: nat) \<and> (of_char c :: nat) \<le> 57"

definition digit_val :: "char \<Rightarrow> nat" where
  "digit_val c = of_char c - 48"

fun parse_digits :: "nat \<Rightarrow> string \<Rightarrow> num_error + nat" where
  "parse_digits n [] = Inr n"
| "parse_digits n (c # s) =
     (if \<not> is_digit c then Inl ErrSyntax
      else if 18446744073709551616 \<le> n * 10 + digit_val c then Inl ErrRange
      else parse_digits (n * 10 + digit_val c) s)"

definition ParseUint :: "string \<Rightarrow> num_error + nat" where
  "ParseUint s = (if s = [] then Inl ErrSyntax else parse_digits 0 s)"

definition parse_int64 :: "string \<Rightarrow> num_error + int" where
  "parse_int64 s = (case s of [] \<Rightarrow> Inl ErrSyntax | c # t \<Rightarrow>
     (let neg = (c = CHR ''-'');
          body = (if c = CHR ''+'' \<or> c = CHR ''-'' then t else s)
      in (case ParseUint body of
            Inl e \<Rightarrow> Inl e
          | Inr un \<Rightarrow>
              if \<not> neg \<and> 9223372036854775808 \<le> un then Inl ErrRange
              else if neg \<and> 9223372036854775808 < un then Inl ErrRange
              else Inr (if neg then - int un else int un))))"

definition ParseInt :: "string \<Rightarrow> goerror + int" where
  "ParseInt s = (case parse_int64 s of
     Inl e \<Rightarrow> Inl (NumError ''ParseInt'' s e) | Inr i \<Rightarrow> Inr i)"

definition Atoi :: "string \<Rightarrow> goerror + int" where
  "Atoi s = (case parse_int64 s of
     Inl e \<Rightarrow> Inl (NumError ''Atoi'' s e) | Inr i \<Rightarrow> Inr i)"

definition ParseBool :: "string \<Rightarrow> goerror + bool" where
  "ParseBool s =
     (if s \<in> set [''1'', ''t'', ''T'', ''TRUE'', ''true'', ''True''] then Inr True
      else if s \<in> set [''0'', ''f'', ''F'', ''FALSE'', ''false'', ''False''] then Inr False
      else Inl (NumError ''ParseBool'' s ErrSyntax))"

definition digit_char :: "nat \<Rightarrow> char" where
  "digit_char d = char_of (48 + d)"

fun show_nat :: "nat \<Rightarrow> string" where
  "show_nat n = (if n < 10 then [digit_char n] else show_nat (n div 10) @ [digit_char (n mod 10)])"

declare show_nat.simps [simp del]

text \<open>The verb \<open>%d\<close>.\<close>

definition show_int :: "int \<Rightarrow> string" where
  "show_int i = (if i < 0 then CHR ''-'' # show_nat (nat (- i)) else show_nat (nat i))"

section \<open>Printing and parsing\<close>

lemma digit_char_simps [simp]:
  "d < 10 \<Longrightarrow> is_digit (digit_char d)"
  "d < 10 \<Longrightarrow> digit_val (digit_char d) = d"
  by (simp_all add: is_digit_def digit_val_def digit_char_def)

lemma is_digit_not_sign [simp]: "\<not> is_digit (CHR ''-'')" "\<not> is_digit (CHR ''+'')"
  by (simp_all add: is_digit_def)

lemma show_nat_digits: "c \<in> set (show_nat n) \<Longrightarrow> is_digit c"
proof (induction n rule: show_nat.induct)
  case (1 n)
  then show ?case by (cases "n < 10") (auto simp: show_nat.simps [of n])
qed

lemma show_nat_not_Nil [simp]: "show_nat n \<noteq> []"
  by (subst show_nat.simps) simp

lemma show_int_not_Nil [simp]: "show_int i \<noteq> []"
  by (simp add: show_int_def)

lemma show_int_chars: "c \<in> set (show_int i) \<Longrightarrow> is_digit c \<or> c = CHR ''-''"
  by (auto simp: show_int_def dest: show_nat_digits split: if_splits)

lemma parse_digits_append:
  "parse_digits n (s @ t) =
     (case parse_digits n s of Inl e \<Rightarrow> Inl e | Inr m \<Rightarrow> parse_digits m t)"
  by (induction n s rule: parse_digits.induct) auto

lemma parse_digits_show: "n < 18446744073709551616 \<Longrightarrow> parse_digits 0 (show_nat n) = Inr n"
proof (induction n rule: show_nat.induct)
  case (1 n)
  show ?case
  proof (cases "n < 10")
    case True
    then show ?thesis by (simp add: show_nat.simps [of n])
  next
    case False
    with "1" have "parse_digits 0 (show_nat (n div 10)) = Inr (n div 10)" by simp
    with False "1.prems" show ?thesis
      by (simp add: show_nat.simps [of n] parse_digits_append)
  qed
qed

lemma parse_int64_show: "is_int64 i \<Longrightarrow> parse_int64 (show_int i) = Inr i"
proof -
  assume i: "is_int64 i"
  show ?thesis
  proof (cases "i < 0")
    case True
    then have "nat (- i) \<le> 9223372036854775808"
      using i by (simp add: is_int64_def min_int64_def nat_le_iff)
    with True show ?thesis
      by (simp add: show_int_def parse_int64_def ParseUint_def parse_digits_show)
  next
    case False
    then have b: "nat i < 9223372036854775808"
      using i by (simp add: is_int64_def max_int64_def nat_less_iff)
    obtain c t where ct: "show_nat (nat i) = c # t"
      by (cases "show_nat (nat i)") auto
    have "is_digit c" using show_nat_digits [of c "nat i"] ct by simp
    then have "c \<noteq> CHR ''-''" "c \<noteq> CHR ''+''" by auto
    moreover have "parse_digits 0 (c # t) = Inr (nat i)"
      using parse_digits_show [of "nat i"] b by (simp add: ct)
    ultimately show ?thesis
      using False b by (simp add: show_int_def parse_int64_def ParseUint_def ct del: parse_digits.simps)
  qed
qed

lemma Atoi_show: "is_int64 i \<Longrightarrow> Atoi (show_int i) = Inr i"
  by (simp add: Atoi_def parse_int64_show)

lemma ParseInt_show: "is_int64 i \<Longrightarrow> ParseInt (show_int i) = Inr i"
  by (simp add: ParseInt_def parse_int64_show)

lemma parse_int64_range: "parse_int64 s = Inr i \<Longrightarrow> is_int64 i"
  by (auto simp: parse_int64_def is_int64_def max_int64_def min_int64_def Let_def
      split: list.splits sum.splits if_splits)

lemma Atoi_range: "Atoi s = Inr i \<Longrightarrow> is_int64 i"
  by (auto simp: Atoi_def dest: parse_int64_range split: sum.splits)

lemma ParseInt_range: "ParseInt s = Inr i \<Longrightarrow> is_int64 i"
  by (auto simp: ParseInt_def dest: parse_int64_range split: sum.splits)

end
