(* ===== verification/Go_Filepath.thy ===== *)
theory Go_Filepath
  imports Go_Strings
begin

text \<open>
  The part of Go's packages \<open>path/filepath\<close> and \<open>path\<close> (Unix) that the driver uses: \<open>Clean\<close>,
  \<open>Join\<close>, \<open>Base\<close> and \<open>Dir\<close>. A path is processed element by element with a stack, \<open>..\<close>
  popping an element. On plain names (not empty, no slash, neither \<open>.\<close> nor \<open>..\<close>) joining is
  concatenation with slashes, which the lemmas state.
\<close>

section \<open>Definitions\<close>

definition clean_step :: "bool \<Rightarrow> string list \<Rightarrow> string \<Rightarrow> string list" where
  "clean_step rooted st x =
     (if x = [] \<or> x = ''.'' then st
      else if x = ''..'' then
        (case st of
           [] \<Rightarrow> (if rooted then [] else [''..''])
         | y # ys \<Rightarrow> (if y = ''..'' then ''..'' # st else ys))
      else x # st)"

definition Clean :: "string \<Rightarrow> string" where
  "Clean path =
     (if path = [] then ''.''
      else (let rooted = (hd path = CHR ''/'');
                body = Join (rev (foldl (clean_step rooted) [] (Split path ''/''))) ''/''
            in if rooted then CHR ''/'' # body else if body = [] then ''.'' else body))"

fun path_Join :: "string list \<Rightarrow> string" where
  "path_Join [] = []"
| "path_Join (e # es) = (if e = [] then path_Join es else Clean (Join (e # es) ''/''))"

declare path_Join.simps [simp del]

definition Base :: "string \<Rightarrow> string" where
  "Base path =
     (if path = [] then ''.''
      else (let p = TrimRight path (CHR ''/'')
            in if p = [] then ''/'' else last (Split p ''/'')))"

definition Dir :: "string \<Rightarrow> string" where
  "Dir path = Clean (rev (dropWhile (\<lambda>c. c \<noteq> CHR ''/'') (rev path)))"

definition plain_name :: "string \<Rightarrow> bool" where
  "plain_name x \<longleftrightarrow> x \<noteq> [] \<and> x \<noteq> ''.'' \<and> x \<noteq> ''..'' \<and> CHR ''/'' \<notin> set x"

section \<open>Joining plain names\<close>

lemma clean_step_plain [simp]: "plain_name x \<Longrightarrow> clean_step r st x = x # st"
  by (simp add: clean_step_def plain_name_def)

lemma clean_step_Nil [simp]: "clean_step r st [] = st"
  by (simp add: clean_step_def)

lemma foldl_clean_plain:
  "\<forall>x \<in> set xs. plain_name x \<Longrightarrow> foldl (clean_step r) st xs = rev xs @ st"
  by (induction xs arbitrary: st) auto

lemma plain_no_slash [simp]: "plain_name x \<Longrightarrow> CHR ''/'' \<notin> set x"
  by (simp add: plain_name_def)

lemma Split_plain:
  "xs \<noteq> [] \<Longrightarrow> \<forall>x \<in> set xs. plain_name x \<Longrightarrow> Split (Join xs ''/'') ''/'' = xs"
  by (rule Split_Join_char) auto

lemma Clean_rooted_plain:
  assumes "xs \<noteq> []" and "\<forall>x \<in> set xs. plain_name x"
  shows "Clean (CHR ''/'' # Join xs ''/'') = CHR ''/'' # Join xs ''/''"
proof -
  have "Split (CHR ''/'' # Join xs ''/'') ''/'' = [] # xs"
    using Split_char_append [of "CHR ''/''" "[]" "Join xs ''/''"] Split_plain [OF assms] by simp
  then show ?thesis
    using assms by (simp add: Clean_def Let_def foldl_clean_plain)
qed

text \<open>
  The device path \<open>filepath.Join("/dev/", vgName, volumeID)\<close> and its variant without the
  trailing slash, both with plain names.
\<close>

lemma path_Join_rooted:
  assumes "plain_name d" and "xs \<noteq> []" and "\<forall>x \<in> set xs. plain_name x"
  shows "path_Join ((CHR ''/'' # d) # xs) = CHR ''/'' # d @ ''/'' @ Join xs ''/''"
  using Clean_rooted_plain [of "d # xs"] assms by (cases xs) (auto simp: path_Join.simps)

lemma path_Join_rooted_slash:
  assumes "plain_name d" and "xs \<noteq> []" and "\<forall>x \<in> set xs. plain_name x"
  shows "path_Join ((CHR ''/'' # d @ ''/'') # xs) = CHR ''/'' # d @ ''/'' @ Join xs ''/''"
proof -
  have "Split (CHR ''/'' # d @ CHR ''/'' # CHR ''/'' # Join xs ''/'') ''/'' = [] # d # [] # xs"
    using Split_char_append [of "CHR ''/''" "[]"] Split_char_append [of "CHR ''/''" d]
      Split_plain [OF assms(2,3)] assms(1) by simp
  then show ?thesis
    using assms by (cases xs) (simp_all add: path_Join.simps Clean_def Let_def foldl_clean_plain Join_Cons)
qed

lemma Base_plain: "plain_name x \<Longrightarrow> Base (d @ CHR ''/'' # x) = x"
proof -
  assume x: "plain_name x"
  then have t: "TrimRight (d @ CHR ''/'' # x) (CHR ''/'') = d @ CHR ''/'' # x"
    by (cases x rule: rev_cases) (auto simp: TrimRight_def plain_name_def)
  have "last (Split (d @ CHR ''/'' # x) ''/'') = x"
  proof (induction "length d" arbitrary: d rule: less_induct)
    case less
    show ?case
    proof (cases "CHR ''/'' \<in> set d")
      case False
      with x show ?thesis by (simp add: Split_char_append Split_char_none)
    next
      case True
      then obtain a b where ab: "d = a @ CHR ''/'' # b" and a: "CHR ''/'' \<notin> set a"
        by (meson split_list_first)
      then have "last (Split (b @ CHR ''/'' # x) ''/'') = x" using less by simp
      then show ?thesis by (simp add: ab Split_char_append a)
    qed
  qed
  with t show ?thesis by (simp add: Base_def Let_def)
qed

lemmas path_eval = path_Join.simps Clean_def clean_step_def Split.simps

end
