(* ===== verification/Host_IO.thy ===== *)
theory Host_IO
  imports Go_Strconv Go_Filepath
begin

text \<open>
  The node the driver runs on. Everything outside the program (the shell and the LVM tools
  it starts, the file system, the Kubernetes API server, the vendored packages for direct
  volumes and file-system resizing) is a parameter: a record \<open>'w host\<close> of operations on an
  unspecified world \<open>'w\<close>. Each operation may change the world in any way, so a world may also
  change between two calls of the program.

  The state of a run is a \<open>sys\<close> record: the world and the trace of the calls made so far, each
  with its reply. Components with state of their own extend the record. The trace logic
  (\<open>produces\<close>, \<open>only\<close>, \<open>keeps\<close>) states what a program does on every host.
\<close>

section \<open>Data of the interfaces\<close>

record fileinfo =
  fi_IsDir :: bool
  fi_Dev :: nat

text \<open>
  The fields of a Kubernetes \<open>PersistentVolume\<close> that the code reads. \<open>None\<close> stands for a nil map
  or a nil pointer; \<open>pv_Capacity\<close> gives \<open>Quantity.Value()\<close> of a resource, an \<open>int64\<close>.
\<close>

record PersistentVolume =
  pv_Name :: string
  pv_Annotations :: "(string \<rightharpoonup> string) option"
  pv_Capacity :: "string \<rightharpoonup> int"
  pv_CSI :: "(string \<rightharpoonup> string) option"

text \<open>
  The fields of a \<open>Pod\<close> that the code reads, and the addresses of a \<open>Node\<close>, each with its type. A
  lookup in a nil map of annotations is the empty string, like one of a missing key.
\<close>

record Pod =
  pod_RuntimeClassName :: "string option"
  pod_Annotations :: "(string \<rightharpoonup> string) option"

record NodeAddress =
  addr_Type :: string
  addr_Address :: string

text \<open>
  The pinger of the vendored package \<open>go-ping\<close> with the fields that the code sets (the timeout in
  nanoseconds), and its statistics.
\<close>

record Pinger =
  ping_Addr :: string
  ping_Privileged :: bool
  ping_Count :: int
  ping_Timeout :: int

record PingStatistics =
  stat_PacketsSent :: int
  stat_PacketsRecv :: int
  stat_Addr :: string

text \<open>The request to publish a volume, of the CSI specification.\<close>

record NodePublishVolumeRequest =
  pub_VolumeId :: string
  pub_TargetPath :: string
  pub_VolumeContext :: "string \<rightharpoonup> string"
  pub_Readonly :: bool
  pub_MountFlags :: "string list"

section \<open>Calls of the host and the trace\<close>

datatype event =
    ExecEv string "string list" string "goerror option"
  | ExecSplitEv string "string list" string string "goerror option"
  | LookPathEv string "goerror option"
  | StatEv string "goerror + fileinfo"
  | LstatEv string "goerror + fileinfo"
  | MkdirAllEv string "goerror option"
  | RemoveEv string "goerror option"
  | RenameEv string string "goerror option"
  | OpenEv string "goerror option"
  | CloseEv string "goerror option"
  | ReaddirEv string "goerror option"
  | ReadFileEv string "goerror + string"
  | WriteFileEv string string "goerror option"
  | ReadDirEv string "goerror + string list"
  | EvalSymlinksEv string "goerror + string"
  | GetPVEv string "goerror + int"
  | VolumeAddEv string string "goerror option"
  | VolumeRemoveEv string "goerror option"
  | ResizeFSEv string string "goerror + bool"
  | CleanupMountPointEv string "goerror option"
  | UnixStatEv string "goerror option"
  | HttpGetEv string "goerror option"
  | RemoveAllEv string "goerror option"
  | ReadEv string "string \<times> goerror option"
  | WriteEv string string "nat \<times> goerror option"
  | SyncEv string "goerror option"
  | GetPodEv string string "goerror + Pod"
  | GetNodeEv string "goerror + NodeAddress list"
  | ExecTimeoutEv string "string list" "64 word option" "goerror option"
  | NewPingerEv string "goerror option"
  | PingEv Pinger "goerror option \<times> PingStatistics"
  | ListenEv string string "goerror option"

text \<open>
  The last fields are pure functions of the Go library that the model leaves open: \<open>strconv.Quote\<close>,
  and \<open>fmt.Sprintf\<close> of a format string without arguments (which differs from the identity only on
  strings with a percent sign).
\<close>

record 'w host =
  exec_combined :: "string \<Rightarrow> string list \<Rightarrow> 'w \<Rightarrow> (string \<times> goerror option) \<times> 'w"
  exec_split :: "string \<Rightarrow> string list \<Rightarrow> 'w \<Rightarrow> (string \<times> string \<times> goerror option) \<times> 'w"
  look_path :: "string \<Rightarrow> 'w \<Rightarrow> goerror option \<times> 'w"
  os_stat :: "string \<Rightarrow> 'w \<Rightarrow> (goerror + fileinfo) \<times> 'w"
  os_lstat :: "string \<Rightarrow> 'w \<Rightarrow> (goerror + fileinfo) \<times> 'w"
  os_mkdirall :: "string \<Rightarrow> nat \<Rightarrow> 'w \<Rightarrow> goerror option \<times> 'w"
  os_remove :: "string \<Rightarrow> 'w \<Rightarrow> goerror option \<times> 'w"
  os_rename :: "string \<Rightarrow> string \<Rightarrow> 'w \<Rightarrow> goerror option \<times> 'w"
  os_open :: "string \<Rightarrow> 'w \<Rightarrow> goerror option \<times> 'w"
  os_openfile :: "string \<Rightarrow> string \<Rightarrow> nat \<Rightarrow> 'w \<Rightarrow> goerror option \<times> 'w"
  os_close :: "string \<Rightarrow> 'w \<Rightarrow> goerror option \<times> 'w"
  os_readdir1 :: "string \<Rightarrow> 'w \<Rightarrow> goerror option \<times> 'w"
  read_file :: "string \<Rightarrow> 'w \<Rightarrow> (goerror + string) \<times> 'w"
  write_file :: "string \<Rightarrow> string \<Rightarrow> nat \<Rightarrow> 'w \<Rightarrow> goerror option \<times> 'w"
  read_dir :: "string \<Rightarrow> 'w \<Rightarrow> (goerror + string list) \<times> 'w"
  eval_symlinks :: "string \<Rightarrow> 'w \<Rightarrow> (goerror + string) \<times> 'w"
  get_pv :: "string \<Rightarrow> 'w \<Rightarrow> (goerror + PersistentVolume) \<times> 'w"
  volume_add :: "string \<Rightarrow> string \<Rightarrow> 'w \<Rightarrow> goerror option \<times> 'w"
  volume_remove :: "string \<Rightarrow> 'w \<Rightarrow> goerror option \<times> 'w"
  resize_fs :: "string \<Rightarrow> string \<Rightarrow> 'w \<Rightarrow> (goerror + bool) \<times> 'w"
  cleanup_mount_point :: "string \<Rightarrow> bool \<Rightarrow> 'w \<Rightarrow> goerror option \<times> 'w"
  unix_stat :: "string \<Rightarrow> 'w \<Rightarrow> (goerror + 32 word) \<times> 'w"
  http_get :: "string \<Rightarrow> 'w \<Rightarrow> (goerror + string) \<times> 'w"
  os_removeall :: "string \<Rightarrow> 'w \<Rightarrow> goerror option \<times> 'w"
  os_read :: "string \<Rightarrow> 'w \<Rightarrow> (string \<times> goerror option) \<times> 'w"
  os_write :: "string \<Rightarrow> string \<Rightarrow> 'w \<Rightarrow> (nat \<times> goerror option) \<times> 'w"
  os_sync :: "string \<Rightarrow> 'w \<Rightarrow> goerror option \<times> 'w"
  get_pod :: "string \<Rightarrow> string \<Rightarrow> 'w \<Rightarrow> (goerror + Pod) \<times> 'w"
  get_node :: "string \<Rightarrow> 'w \<Rightarrow> (goerror + NodeAddress list) \<times> 'w"
  exec_timeout :: "string \<Rightarrow> string list \<Rightarrow> 64 word option \<Rightarrow> 'w \<Rightarrow> goerror option \<times> 'w"
  new_pinger :: "string \<Rightarrow> 'w \<Rightarrow> goerror option \<times> 'w"
  net_listen :: "string \<Rightarrow> string \<Rightarrow> 'w \<Rightarrow> goerror option \<times> 'w"
  ping_run :: "Pinger \<Rightarrow> 'w \<Rightarrow> (goerror option \<times> PingStatistics) \<times> 'w"
  quote :: "string \<Rightarrow> string"
  sprintf0 :: "string \<Rightarrow> string"

record 'w sys =
  world :: 'w
  events :: "event list"

type_synonym ('w, 'z, 'a) prog = "(('w, 'z) sys_scheme, 'a) state"

definition syscall :: "('w \<Rightarrow> 'a \<times> 'w) \<Rightarrow> ('a \<Rightarrow> event) \<Rightarrow> ('w, 'z, 'a) prog" where
  "syscall f ev = State (\<lambda>s. case f (world s) of
     (a, w) \<Rightarrow> (a, s\<lparr>world := w, events := events s @ [ev a]\<rparr>))"

fun err_of :: "goerror + 'a \<Rightarrow> goerror option" where
  "err_of (Inl e) = Some e"
| "err_of (Inr _) = None"

definition CombinedOutput :: "'w host \<Rightarrow> string \<Rightarrow> string list \<Rightarrow> ('w, 'z, string \<times> goerror option) prog" where
  "CombinedOutput h cmd args =
     syscall (exec_combined h cmd args) (\<lambda>r. ExecEv cmd args (fst r) (snd r))"

definition RunSplit :: "'w host \<Rightarrow> string \<Rightarrow> string list \<Rightarrow> ('w, 'z, string \<times> string \<times> goerror option) prog" where
  "RunSplit h cmd args =
     syscall (exec_split h cmd args) (\<lambda>r. ExecSplitEv cmd args (fst r) (fst (snd r)) (snd (snd r)))"

definition LookPath :: "'w host \<Rightarrow> string \<Rightarrow> ('w, 'z, goerror option) prog" where
  "LookPath h cmd = syscall (look_path h cmd) (LookPathEv cmd)"

definition Stat :: "'w host \<Rightarrow> string \<Rightarrow> ('w, 'z, goerror + fileinfo) prog" where
  "Stat h p = syscall (os_stat h p) (StatEv p)"

definition Lstat :: "'w host \<Rightarrow> string \<Rightarrow> ('w, 'z, goerror + fileinfo) prog" where
  "Lstat h p = syscall (os_lstat h p) (LstatEv p)"

definition MkdirAll :: "'w host \<Rightarrow> string \<Rightarrow> nat \<Rightarrow> ('w, 'z, goerror option) prog" where
  "MkdirAll h p perm = syscall (os_mkdirall h p perm) (MkdirAllEv p)"

definition Remove :: "'w host \<Rightarrow> string \<Rightarrow> ('w, 'z, goerror option) prog" where
  "Remove h p = syscall (os_remove h p) (RemoveEv p)"

definition Rename :: "'w host \<Rightarrow> string \<Rightarrow> string \<Rightarrow> ('w, 'z, goerror option) prog" where
  "Rename h p q = syscall (os_rename h p q) (RenameEv p q)"

definition Open :: "'w host \<Rightarrow> string \<Rightarrow> ('w, 'z, goerror option) prog" where
  "Open h p = syscall (os_open h p) (OpenEv p)"

text \<open>\<open>os.OpenFile(path, flags, perm)\<close>; the flags are named as in the source.\<close>

definition OpenFile :: "'w host \<Rightarrow> string \<Rightarrow> string \<Rightarrow> nat \<Rightarrow> ('w, 'z, goerror option) prog" where
  "OpenFile h p flags perm = syscall (os_openfile h p flags perm) (OpenEv p)"

definition Close :: "'w host \<Rightarrow> string \<Rightarrow> ('w, 'z, goerror option) prog" where
  "Close h p = syscall (os_close h p) (CloseEv p)"

text \<open>\<open>f.Readdir(1)\<close> on an open directory: only its error is used.\<close>

definition Readdir1 :: "'w host \<Rightarrow> string \<Rightarrow> ('w, 'z, goerror option) prog" where
  "Readdir1 h p = syscall (os_readdir1 h p) (ReaddirEv p)"

definition ReadFile :: "'w host \<Rightarrow> string \<Rightarrow> ('w, 'z, goerror + string) prog" where
  "ReadFile h p = syscall (read_file h p) (ReadFileEv p)"

definition WriteFile :: "'w host \<Rightarrow> string \<Rightarrow> string \<Rightarrow> nat \<Rightarrow> ('w, 'z, goerror option) prog" where
  "WriteFile h p d perm = syscall (write_file h p d perm) (WriteFileEv p d)"

definition ReadDir :: "'w host \<Rightarrow> string \<Rightarrow> ('w, 'z, goerror + string list) prog" where
  "ReadDir h p = syscall (read_dir h p) (ReadDirEv p)"

definition EvalSymlinks :: "'w host \<Rightarrow> string \<Rightarrow> ('w, 'z, goerror + string) prog" where
  "EvalSymlinks h p = syscall (eval_symlinks h p) (EvalSymlinksEv p)"

text \<open>The storage capacity of a volume, \<open>pv.Spec.Capacity["storage"].Value()\<close>; it is also what the trace records.\<close>

definition storage_bytes :: "PersistentVolume \<Rightarrow> int" where
  "storage_bytes pv = (case pv_Capacity pv ''storage'' of None \<Rightarrow> 0 | Some q \<Rightarrow> q)"

definition GetPV :: "'w host \<Rightarrow> string \<Rightarrow> ('w, 'z, goerror + PersistentVolume) prog" where
  "GetPV h n = syscall (get_pv h n) (\<lambda>r. GetPVEv n (map_sum id storage_bytes r))"

definition VolumeAdd :: "'w host \<Rightarrow> string \<Rightarrow> string \<Rightarrow> ('w, 'z, goerror option) prog" where
  "VolumeAdd h p mi = syscall (volume_add h p mi) (VolumeAddEv p mi)"

definition VolumeRemove :: "'w host \<Rightarrow> string \<Rightarrow> ('w, 'z, goerror option) prog" where
  "VolumeRemove h p = syscall (volume_remove h p) (VolumeRemoveEv p)"

definition ResizeFs :: "'w host \<Rightarrow> string \<Rightarrow> string \<Rightarrow> ('w, 'z, goerror + bool) prog" where
  "ResizeFs h d m = syscall (resize_fs h d m) (ResizeFSEv d m)"

text \<open>\<open>CleanupMountPoint(path, mounter, extensiveMountPointCheck)\<close> of the Kubernetes mount package.\<close>

definition CleanupMount :: "'w host \<Rightarrow> string \<Rightarrow> bool \<Rightarrow> ('w, 'z, goerror option) prog" where
  "CleanupMount h p ext = syscall (cleanup_mount_point h p ext) (CleanupMountPointEv p)"

text \<open>\<open>unix.Stat\<close>: the mode word.\<close>

definition UnixStat :: "'w host \<Rightarrow> string \<Rightarrow> ('w, 'z, goerror + 32 word) prog" where
  "UnixStat h p = syscall (unix_stat h p) (\<lambda>r. UnixStatEv p (err_of r))"

definition HttpGet :: "'w host \<Rightarrow> string \<Rightarrow> ('w, 'z, goerror + string) prog" where
  "HttpGet h u = syscall (http_get h u) (\<lambda>r. HttpGetEv u (err_of r))"

definition RemoveAll :: "'w host \<Rightarrow> string \<Rightarrow> ('w, 'z, goerror option) prog" where
  "RemoveAll h p = syscall (os_removeall h p) (RemoveAllEv p)"

text \<open>
  Reading an open file as a stream: what can be read, and the error that ends it, none for the end of
  the file. Writing to an open file: the number of bytes written and an error.
\<close>

definition ReadOpen :: "'w host \<Rightarrow> string \<Rightarrow> ('w, 'z, string \<times> goerror option) prog" where
  "ReadOpen h p = syscall (os_read h p) (ReadEv p)"

definition WriteOpen :: "'w host \<Rightarrow> string \<Rightarrow> string \<Rightarrow> ('w, 'z, nat \<times> goerror option) prog" where
  "WriteOpen h p d = syscall (os_write h p d) (WriteEv p d)"

definition SyncOpen :: "'w host \<Rightarrow> string \<Rightarrow> ('w, 'z, goerror option) prog" where
  "SyncOpen h p = syscall (os_sync h p) (SyncEv p)"

definition GetPod :: "'w host \<Rightarrow> string \<Rightarrow> string \<Rightarrow> ('w, 'z, goerror + Pod) prog" where
  "GetPod h ns n = syscall (get_pod h ns n) (GetPodEv ns n)"

definition GetNode :: "'w host \<Rightarrow> string \<Rightarrow> ('w, 'z, goerror + NodeAddress list) prog" where
  "GetNode h n = syscall (get_node h n) (GetNodeEv n)"

text \<open>A command whose context has a deadline that many nanoseconds ahead, or none.\<close>

definition RunContext :: "'w host \<Rightarrow> string \<Rightarrow> string list \<Rightarrow> 64 word option \<Rightarrow> ('w, 'z, goerror option) prog" where
  "RunContext h cmd args t = syscall (exec_timeout h cmd args t) (ExecTimeoutEv cmd args t)"

definition NewPinger :: "'w host \<Rightarrow> string \<Rightarrow> ('w, 'z, goerror option) prog" where
  "NewPinger h a = syscall (new_pinger h a) (NewPingerEv a)"

definition Listen :: "'w host \<Rightarrow> string \<Rightarrow> string \<Rightarrow> ('w, 'z, goerror option) prog" where
  "Listen h proto addr = syscall (net_listen h proto addr) (ListenEv proto addr)"

definition PingRun :: "'w host \<Rightarrow> Pinger \<Rightarrow> ('w, 'z, goerror option \<times> PingStatistics) prog" where
  "PingRun h pr = syscall (ping_run h pr) (PingEv pr)"

lemmas host_call_defs [go_defs] =
  CombinedOutput_def RunSplit_def LookPath_def Stat_def Lstat_def MkdirAll_def Remove_def
  Rename_def Open_def OpenFile_def Close_def Readdir1_def ReadFile_def WriteFile_def
  ReadDir_def EvalSymlinks_def GetPV_def VolumeAdd_def VolumeRemove_def ResizeFs_def
  CleanupMount_def UnixStat_def HttpGet_def RemoveAll_def ReadOpen_def WriteOpen_def SyncOpen_def
  GetPod_def GetNode_def RunContext_def NewPinger_def PingRun_def Listen_def

lemma run_syscall [simp]:
  "run_state (syscall f ev) s =
     (case f (world s) of (a, w) \<Rightarrow> (a, s\<lparr>world := w, events := events s @ [ev a]\<rparr>))"
  by (simp add: syscall_def)

section \<open>The trace logic\<close>

text \<open>
  \<open>produces m Q\<close>: from every state, \<open>m\<close> extends the trace by events \<open>es\<close> and returns \<open>a\<close> with
  \<open>Q a es\<close>. \<open>only P m\<close>: every event \<open>m\<close> adds satisfies \<open>P\<close>. \<open>keeps f m\<close>: \<open>m\<close> does not change
  the part \<open>f\<close> of the state.
\<close>

definition produces :: "('w, 'z, 'a) prog \<Rightarrow> ('a \<Rightarrow> event list \<Rightarrow> bool) \<Rightarrow> bool" where
  "produces m Q \<longleftrightarrow> (\<forall>s. \<exists>es. events (snd (run_state m s)) = events s @ es \<and>
     Q (fst (run_state m s)) es)"

definition only :: "(event \<Rightarrow> bool) \<Rightarrow> ('w, 'z, 'a) prog \<Rightarrow> bool" where
  "only P m \<longleftrightarrow> produces m (\<lambda>_ es. list_all P es)"

definition keeps :: "(('w, 'z) sys_scheme \<Rightarrow> 'b) \<Rightarrow> ('w, 'z, 'a) prog \<Rightarrow> bool" where
  "keeps f m \<longleftrightarrow> (\<forall>s. f (snd (run_state m s)) = f s)"

text \<open>The value a program returns from a state and the events it adds there.\<close>

definition result :: "('w, 'z, 'a) prog \<Rightarrow> ('w, 'z) sys_scheme \<Rightarrow> 'a" where
  "result m s = fst (run_state m s)"

definition new_events :: "('w, 'z, 'a) prog \<Rightarrow> ('w, 'z) sys_scheme \<Rightarrow> event list" where
  "new_events m s = drop (length (events s)) (events (snd (run_state m s)))"

lemma produces_new: "produces m Q \<Longrightarrow> Q (result m s) (new_events m s)"
  unfolding produces_def result_def new_events_def by (metis append_eq_conv_conj)

lemma produces_events:
  "produces m Q \<Longrightarrow> events (snd (run_state m s)) = events s @ new_events m s"
  unfolding produces_def new_events_def by (metis append_eq_conv_conj)

lemma producesI:
  assumes "\<And>s a s'. run_state m s = (a, s') \<Longrightarrow> \<exists>es. events s' = events s @ es \<and> Q a es"
  shows "produces m Q"
  unfolding produces_def using assms by (metis prod.collapse)

lemma producesE:
  assumes "produces m Q" and "run_state m s = (a, s')"
  obtains es where "events s' = events s @ es" and "Q a es"
  using assms unfolding produces_def by (metis fst_conv snd_conv)

lemma produces_weaken:
  "produces m R \<Longrightarrow> (\<And>a es. R a es \<Longrightarrow> Q a es) \<Longrightarrow> produces m Q"
  unfolding produces_def by blast

lemma produces_conj:
  assumes "produces m Q" and "produces m R"
  shows "produces m (\<lambda>a es. Q a es \<and> R a es)"
proof (rule producesI)
  fix s a s' assume "run_state m s = (a, s')"
  with assms show "\<exists>es. events s' = events s @ es \<and> Q a es \<and> R a es"
    by (metis producesE same_append_eq)
qed

lemma produces_return: "produces (State_Monad.return a) (\<lambda>b es. b = a \<and> es = [])"
  by (rule producesI) auto

lemma produces_returnI [produce_rules]: "Q a [] \<Longrightarrow> produces (State_Monad.return a) Q"
  by (rule producesI) auto

lemma produces_syscall: "produces (syscall f ev) (\<lambda>a es. es = [ev a])"
  by (rule producesI) (auto split: prod.splits)

lemma produces_bind:
  assumes "produces m R"
    and "\<And>a es. R a es \<Longrightarrow> produces (f a) (\<lambda>b es'. Q b (es @ es'))"
  shows "produces (State_Monad.bind m f) Q"
proof (rule producesI)
  fix s b s' assume "run_state (State_Monad.bind m f) s = (b, s')"
  then obtain a t where m: "run_state m s = (a, t)" and f: "run_state (f a) t = (b, s')"
    by (auto split: prod.splits)
  from assms(1) m obtain es where es: "events t = events s @ es" "R a es" by (rule producesE)
  from assms(2) [OF es(2)] f obtain es' where "events s' = events t @ es'" "Q b (es @ es')"
    by (rule producesE)
  with es show "\<exists>es. events s' = events s @ es \<and> Q b es" by auto
qed

lemma produces_syscallI [produce_rules]: "(\<And>a. Q a [ev a]) \<Longrightarrow> produces (syscall f ev) Q"
  by (rule produces_weaken [OF produces_syscall]) simp

lemma produces_syscall_bind [produce_rules]:
  "(\<And>a. produces (f a) (\<lambda>b es. Q b (ev a # es))) \<Longrightarrow> produces (State_Monad.bind (syscall g ev) f) Q"
  by (rule produces_bind [OF produces_syscall]) simp

lemma produces_get: "(\<And>s. produces (f s) Q) \<Longrightarrow> produces (State_Monad.bind State_Monad.get f) Q"
  unfolding produces_def by (simp add: State_Monad.get_def)

lemma produces_if [produce_rules]:
  "(b \<Longrightarrow> produces m Q) \<Longrightarrow> (\<not> b \<Longrightarrow> produces n Q) \<Longrightarrow> produces (if b then m else n) Q"
  by simp

lemma produces_sum [produce_rules]:
  "(\<And>e. r = Inl e \<Longrightarrow> produces (f e) Q) \<Longrightarrow> (\<And>x. r = Inr x \<Longrightarrow> produces (g x) Q) \<Longrightarrow>
     produces (case r of Inl e \<Rightarrow> f e | Inr x \<Rightarrow> g x) Q"
  by (cases r) auto

lemma produces_option [produce_rules]:
  "(r = None \<Longrightarrow> produces m Q) \<Longrightarrow> (\<And>x. r = Some x \<Longrightarrow> produces (g x) Q) \<Longrightarrow>
     produces (case r of None \<Rightarrow> m | Some x \<Rightarrow> g x) Q"
  by (cases r) auto

lemma produces_prod [produce_rules]:
  "(\<And>x y. r = (x, y) \<Longrightarrow> produces (f x y) Q) \<Longrightarrow> produces (case r of (x, y) \<Rightarrow> f x y) Q"
  by (cases r) auto

lemma produces_outcome [produce_rules]:
  "(\<And>x. r = Done x \<Longrightarrow> produces (f x) Q) \<Longrightarrow> (\<And>m. r = Panic m \<Longrightarrow> produces (g m) Q) \<Longrightarrow>
     produces (case r of Done x \<Rightarrow> f x | Panic m \<Rightarrow> g m) Q"
  by (cases r) auto

lemma produces_of_only: "only P m \<Longrightarrow> produces m (\<lambda>_ es. list_all P es)"
  by (simp add: only_def)

lemma only_new: "only P m \<Longrightarrow> list_all P (new_events m s)"
  unfolding only_def by (drule produces_new)

lemma onlyD:
  "only P m \<Longrightarrow> run_state m s = (a, s') \<Longrightarrow> \<exists>es. events s' = events s @ es \<and> list_all P es"
  unfolding only_def by (metis producesE)

lemma only_mono: "only P m \<Longrightarrow> (\<And>e. P e \<Longrightarrow> Q e) \<Longrightarrow> only Q m"
  unfolding only_def by (erule produces_weaken) (auto simp: list_all_iff)

lemma only_return [trace_rules]: "only P (State_Monad.return a)"
  unfolding only_def by (rule produces_returnI) simp

lemma only_bind [trace_rules]:
  assumes "only P m" and "\<And>a. only P (f a)"
  shows "only P (State_Monad.bind m f)"
  unfolding only_def
proof (rule produces_bind [OF assms(1) [unfolded only_def]])
  fix a es assume "list_all P es"
  then show "produces (f a) (\<lambda>b es'. list_all P (es @ es'))"
    by (auto intro: produces_weaken [OF assms(2) [unfolded only_def]])
qed

lemma only_syscall: "(\<And>a. P (ev a)) \<Longrightarrow> only P (syscall f ev)"
  unfolding only_def by (rule produces_weaken [OF produces_syscall]) auto

lemma only_get [trace_rules]: "only P State_Monad.get"
  unfolding only_def by (rule producesI) (auto simp: State_Monad.get_def)

lemma only_if [trace_rules]:
  "(b \<Longrightarrow> only P m) \<Longrightarrow> (\<not> b \<Longrightarrow> only P n) \<Longrightarrow> only P (if b then m else n)"
  by simp

lemma only_sum [trace_rules]:
  "(\<And>e. r = Inl e \<Longrightarrow> only P (f e)) \<Longrightarrow> (\<And>x. r = Inr x \<Longrightarrow> only P (g x)) \<Longrightarrow>
     only P (case r of Inl e \<Rightarrow> f e | Inr x \<Rightarrow> g x)"
  by (cases r) auto

lemma only_option [trace_rules]:
  "(r = None \<Longrightarrow> only P m) \<Longrightarrow> (\<And>x. r = Some x \<Longrightarrow> only P (g x)) \<Longrightarrow>
     only P (case r of None \<Rightarrow> m | Some x \<Rightarrow> g x)"
  by (cases r) auto

lemma only_prod [trace_rules]:
  "(\<And>x y. r = (x, y) \<Longrightarrow> only P (f x y)) \<Longrightarrow> only P (case r of (x, y) \<Rightarrow> f x y)"
  by (cases r) auto

lemma only_outcome [trace_rules]:
  "(\<And>x. r = Done x \<Longrightarrow> only P (f x)) \<Longrightarrow> (\<And>m. r = Panic m \<Longrightarrow> only P (g m)) \<Longrightarrow>
     only P (case r of Done x \<Rightarrow> f x | Panic m \<Rightarrow> g m)"
  by (cases r) auto

lemma only_list [trace_rules]:
  "(r = [] \<Longrightarrow> only P m) \<Longrightarrow> (\<And>x xs. r = x # xs \<Longrightarrow> only P (g x xs)) \<Longrightarrow>
     only P (case r of [] \<Rightarrow> m | x # xs \<Rightarrow> g x xs)"
  by (cases r) auto

lemma keepsD: "keeps f m \<Longrightarrow> run_state m s = (a, s') \<Longrightarrow> f s' = f s"
  unfolding keeps_def by (metis snd_conv)

lemma keeps_return [trace_rules]: "keeps f (State_Monad.return a)"
  by (simp add: keeps_def)

lemma keeps_bind [trace_rules]:
  "keeps f m \<Longrightarrow> (\<And>a. keeps f (k a)) \<Longrightarrow> keeps f (State_Monad.bind m k)"
  by (auto simp: keeps_def split: prod.splits) (metis snd_conv)

lemma keeps_syscall:
  "(\<And>s w es. f (s\<lparr>world := w, events := es\<rparr>) = f s) \<Longrightarrow> keeps f (syscall g ev)"
  by (auto simp: keeps_def split: prod.splits)

lemma keeps_get [trace_rules]: "keeps f State_Monad.get"
  by (simp add: keeps_def State_Monad.get_def)

lemma keeps_if [trace_rules]: "keeps f m \<Longrightarrow> keeps f n \<Longrightarrow> keeps f (if b then m else n)"
  by simp

lemma keeps_sum [trace_rules]:
  "(\<And>e. keeps f (m e)) \<Longrightarrow> (\<And>x. keeps f (n x)) \<Longrightarrow>
     keeps f (case r of Inl e \<Rightarrow> m e | Inr x \<Rightarrow> n x)"
  by (cases r) auto

lemma keeps_option [trace_rules]:
  "keeps f m \<Longrightarrow> (\<And>x. keeps f (n x)) \<Longrightarrow> keeps f (case r of None \<Rightarrow> m | Some x \<Rightarrow> n x)"
  by (cases r) auto

lemma keeps_prod [trace_rules]:
  "(\<And>x y. keeps f (n x y)) \<Longrightarrow> keeps f (case r of (x, y) \<Rightarrow> n x y)"
  by (cases r) auto

section \<open>Events of the single calls\<close>

text \<open>The program that the event started, and the shell command it ran.\<close>

fun is_exec :: "string \<Rightarrow> event \<Rightarrow> bool" where
  "is_exec p (ExecEv q _ _ _) = (p = q)"
| "is_exec p _ = False"

fun shell_of :: "event \<Rightarrow> string option" where
  "shell_of (ExecEv q args _ _) = (if q = ''sh'' \<and> length args = 2 \<and> args ! 0 = ''-c'' then Some (args ! 1) else None)"
| "shell_of _ = None"

lemma only_calls [trace_rules]:
  "(\<And>out err. P (ExecEv c a out err)) \<Longrightarrow> only P (CombinedOutput h c a)"
  "(\<And>out serr err. P (ExecSplitEv c a out serr err)) \<Longrightarrow> only P (RunSplit h c a)"
  "(\<And>r. P (LookPathEv c r)) \<Longrightarrow> only P (LookPath h c)"
  "(\<And>r. P (StatEv p r)) \<Longrightarrow> only P (Stat h p)"
  "(\<And>r. P (LstatEv p r)) \<Longrightarrow> only P (Lstat h p)"
  "(\<And>r. P (MkdirAllEv p r)) \<Longrightarrow> only P (MkdirAll h p perm)"
  "(\<And>r. P (RemoveEv p r)) \<Longrightarrow> only P (Remove h p)"
  "(\<And>r. P (RenameEv p q r)) \<Longrightarrow> only P (Rename h p q)"
  "(\<And>r. P (OpenEv p r)) \<Longrightarrow> only P (Open h p)"
  "(\<And>r. P (OpenEv p r)) \<Longrightarrow> only P (OpenFile h p fl perm)"
  "(\<And>r. P (CloseEv p r)) \<Longrightarrow> only P (Close h p)"
  "(\<And>r. P (ReaddirEv p r)) \<Longrightarrow> only P (Readdir1 h p)"
  "(\<And>r. P (ReadFileEv p r)) \<Longrightarrow> only P (ReadFile h p)"
  "(\<And>r. P (WriteFileEv p d r)) \<Longrightarrow> only P (WriteFile h p d perm)"
  "(\<And>r. P (ReadDirEv p r)) \<Longrightarrow> only P (ReadDir h p)"
  "(\<And>r. P (EvalSymlinksEv p r)) \<Longrightarrow> only P (EvalSymlinks h p)"
  "(\<And>r. P (GetPVEv n r)) \<Longrightarrow> only P (GetPV h n)"
  "(\<And>r. P (VolumeAddEv p mi r)) \<Longrightarrow> only P (VolumeAdd h p mi)"
  "(\<And>r. P (VolumeRemoveEv p r)) \<Longrightarrow> only P (VolumeRemove h p)"
  "(\<And>r. P (ResizeFSEv d m r)) \<Longrightarrow> only P (ResizeFs h d m)"
  "(\<And>r. P (CleanupMountPointEv p r)) \<Longrightarrow> only P (CleanupMount h p ext)"
  "(\<And>r. P (UnixStatEv p r)) \<Longrightarrow> only P (UnixStat h p)"
  "(\<And>r. P (HttpGetEv u r)) \<Longrightarrow> only P (HttpGet h u)"
  "(\<And>r. P (RemoveAllEv p r)) \<Longrightarrow> only P (RemoveAll h p)"
  "(\<And>r. P (ReadEv p r)) \<Longrightarrow> only P (ReadOpen h p)"
  "(\<And>r. P (WriteEv p d r)) \<Longrightarrow> only P (WriteOpen h p d)"
  "(\<And>r. P (SyncEv p r)) \<Longrightarrow> only P (SyncOpen h p)"
  "(\<And>r. P (GetPodEv ns n r)) \<Longrightarrow> only P (GetPod h ns n)"
  "(\<And>r. P (GetNodeEv n r)) \<Longrightarrow> only P (GetNode h n)"
  "(\<And>r. P (ExecTimeoutEv c a t r)) \<Longrightarrow> only P (RunContext h c a t)"
  "(\<And>r. P (NewPingerEv u r)) \<Longrightarrow> only P (NewPinger h u)"
  "(\<And>r. P (PingEv pr r)) \<Longrightarrow> only P (PingRun h pr)"
  "(\<And>r. P (ListenEv c u r)) \<Longrightarrow> only P (Listen h c u)"
  by (simp_all add: host_call_defs only_syscall)

lemma keeps_calls:
  assumes "\<And>s w es. f (s\<lparr>world := w, events := es\<rparr>) = f s"
  shows
    "keeps f (CombinedOutput h c a)"
    and "keeps f (RunSplit h c a)"
    and "keeps f (LookPath h c)"
    and "keeps f (Stat h p)"
    and "keeps f (Lstat h p)"
    and "keeps f (MkdirAll h p perm)"
    and "keeps f (Remove h p)"
    and "keeps f (Rename h p q)"
    and "keeps f (Open h p)"
    and "keeps f (OpenFile h p fl perm)"
    and "keeps f (Close h p)"
    and "keeps f (Readdir1 h p)"
    and "keeps f (ReadFile h p)"
    and "keeps f (WriteFile h p d perm)"
    and "keeps f (ReadDir h p)"
    and "keeps f (EvalSymlinks h p)"
    and "keeps f (GetPV h n)"
    and "keeps f (VolumeAdd h p mi)"
    and "keeps f (VolumeRemove h p)"
    and "keeps f (ResizeFs h d m)"
    and "keeps f (CleanupMount h p ext)"
    and "keeps f (UnixStat h p)"
    and "keeps f (HttpGet h u)"
    and "keeps f (RemoveAll h p)"
    and "keeps f (ReadOpen h p)"
    and "keeps f (WriteOpen h p d)"
    and "keeps f (SyncOpen h p)"
    and "keeps f (GetPod h ns n)"
    and "keeps f (GetNode h n)"
    and "keeps f (RunContext h c a t)"
    and "keeps f (NewPinger h u)"
    and "keeps f (PingRun h pr)"
    and "keeps f (Listen h c u)"
  using assms by (simp_all add: host_call_defs keeps_syscall)

section \<open>Guarded events\<close>

text \<open>
  \<open>guarded bad ok es\<close>: before every event of \<open>es\<close> that is \<open>bad\<close> there is one that is \<open>ok\<close>.
  \<open>guards bad ok m\<close>: the events of \<open>m\<close> are so guarded, on every host and from every state.
\<close>

fun guarded :: "(event \<Rightarrow> bool) \<Rightarrow> (event \<Rightarrow> bool) \<Rightarrow> event list \<Rightarrow> bool" where
  "guarded bad ok [] = True"
| "guarded bad ok (e # es) = (\<not> bad e \<and> (ok e \<or> guarded bad ok es))"

definition guards :: "(event \<Rightarrow> bool) \<Rightarrow> (event \<Rightarrow> bool) \<Rightarrow> ('w, 'z, 'a) prog \<Rightarrow> bool" where
  "guards bad ok m \<longleftrightarrow> produces m (\<lambda>_ es. guarded bad ok es)"

lemma guarded_prefix: "guarded bad ok (xs @ e # ys) \<Longrightarrow> bad e \<Longrightarrow> list_ex ok xs"
  by (induction xs) auto

lemma guarded_no_bad: "list_all (\<lambda>e. \<not> bad e) es \<Longrightarrow> guarded bad ok es"
  by (induction es) auto

lemma guarded_append: "guarded bad ok xs \<Longrightarrow> guarded bad ok ys \<Longrightarrow> guarded bad ok (xs @ ys)"
  by (induction xs) auto

lemma guarded_tested:
  "list_all (\<lambda>e. \<not> bad e) xs \<Longrightarrow> list_ex ok xs \<Longrightarrow> guarded bad ok (xs @ ys)"
  by (induction xs) auto

lemma guardsD:
  assumes "guards bad ok m" and "run_state m s = (a, s')"
  obtains es where "events s' = events s @ es" and "guarded bad ok es"
  using assms unfolding guards_def by (rule producesE)

lemma guards_new: "guards bad ok m \<Longrightarrow> guarded bad ok (new_events m s)"
  unfolding guards_def by (drule produces_new)

lemma guards_of_only: "only (\<lambda>e. \<not> bad e) m \<Longrightarrow> guards bad ok m"
  unfolding only_def guards_def by (erule produces_weaken) (rule guarded_no_bad)

lemma guards_return [trace_rules]: "guards bad ok (State_Monad.return a)"
  by (rule guards_of_only) (rule only_return)

lemma guards_bind [trace_rules]:
  assumes "guards bad ok m" and "\<And>a. guards bad ok (f a)"
  shows "guards bad ok (State_Monad.bind m f)"
  unfolding guards_def
proof (rule produces_bind [OF assms(1) [unfolded guards_def]])
  fix a es assume "guarded bad ok es"
  then show "produces (f a) (\<lambda>b es'. guarded bad ok (es @ es'))"
    by (auto intro: produces_weaken [OF assms(2) [unfolded guards_def]] guarded_append)
qed

lemma guards_only_bind:
  "only (\<lambda>e. \<not> bad e) m \<Longrightarrow> (\<And>a. guards bad ok (f a)) \<Longrightarrow> guards bad ok (State_Monad.bind m f)"
  by (rule guards_bind [OF guards_of_only])

lemma guards_calls [trace_rules]:
  "(\<And>out err. \<not> bad (ExecEv c a out err)) \<Longrightarrow> guards bad ok (CombinedOutput h c a)"
  "(\<And>out serr err. \<not> bad (ExecSplitEv c a out serr err)) \<Longrightarrow> guards bad ok (RunSplit h c a)"
  "(\<And>r. \<not> bad (LookPathEv c r)) \<Longrightarrow> guards bad ok (LookPath h c)"
  "(\<And>r. \<not> bad (StatEv p r)) \<Longrightarrow> guards bad ok (Stat h p)"
  "(\<And>r. \<not> bad (LstatEv p r)) \<Longrightarrow> guards bad ok (Lstat h p)"
  "(\<And>r. \<not> bad (MkdirAllEv p r)) \<Longrightarrow> guards bad ok (MkdirAll h p perm)"
  "(\<And>r. \<not> bad (RemoveEv p r)) \<Longrightarrow> guards bad ok (Remove h p)"
  "(\<And>r. \<not> bad (RenameEv p q r)) \<Longrightarrow> guards bad ok (Rename h p q)"
  "(\<And>r. \<not> bad (OpenEv p r)) \<Longrightarrow> guards bad ok (Open h p)"
  "(\<And>r. \<not> bad (OpenEv p r)) \<Longrightarrow> guards bad ok (OpenFile h p fl perm)"
  "(\<And>r. \<not> bad (CloseEv p r)) \<Longrightarrow> guards bad ok (Close h p)"
  "(\<And>r. \<not> bad (ReaddirEv p r)) \<Longrightarrow> guards bad ok (Readdir1 h p)"
  "(\<And>r. \<not> bad (ReadFileEv p r)) \<Longrightarrow> guards bad ok (ReadFile h p)"
  "(\<And>r. \<not> bad (WriteFileEv p d r)) \<Longrightarrow> guards bad ok (WriteFile h p d perm)"
  "(\<And>r. \<not> bad (ReadDirEv p r)) \<Longrightarrow> guards bad ok (ReadDir h p)"
  "(\<And>r. \<not> bad (EvalSymlinksEv p r)) \<Longrightarrow> guards bad ok (EvalSymlinks h p)"
  "(\<And>r. \<not> bad (GetPVEv n r)) \<Longrightarrow> guards bad ok (GetPV h n)"
  "(\<And>r. \<not> bad (VolumeAddEv p mi r)) \<Longrightarrow> guards bad ok (VolumeAdd h p mi)"
  "(\<And>r. \<not> bad (VolumeRemoveEv p r)) \<Longrightarrow> guards bad ok (VolumeRemove h p)"
  "(\<And>r. \<not> bad (ResizeFSEv d m r)) \<Longrightarrow> guards bad ok (ResizeFs h d m)"
  "(\<And>r. \<not> bad (CleanupMountPointEv p r)) \<Longrightarrow> guards bad ok (CleanupMount h p ext)"
  "(\<And>r. \<not> bad (UnixStatEv p r)) \<Longrightarrow> guards bad ok (UnixStat h p)"
  "(\<And>r. \<not> bad (HttpGetEv u r)) \<Longrightarrow> guards bad ok (HttpGet h u)"
  "(\<And>r. \<not> bad (RemoveAllEv p r)) \<Longrightarrow> guards bad ok (RemoveAll h p)"
  "(\<And>r. \<not> bad (ReadEv p r)) \<Longrightarrow> guards bad ok (ReadOpen h p)"
  "(\<And>r. \<not> bad (WriteEv p d r)) \<Longrightarrow> guards bad ok (WriteOpen h p d)"
  "(\<And>r. \<not> bad (SyncEv p r)) \<Longrightarrow> guards bad ok (SyncOpen h p)"
  "(\<And>r. \<not> bad (GetPodEv ns n r)) \<Longrightarrow> guards bad ok (GetPod h ns n)"
  "(\<And>r. \<not> bad (GetNodeEv n r)) \<Longrightarrow> guards bad ok (GetNode h n)"
  "(\<And>r. \<not> bad (ExecTimeoutEv c a t r)) \<Longrightarrow> guards bad ok (RunContext h c a t)"
  "(\<And>r. \<not> bad (NewPingerEv u r)) \<Longrightarrow> guards bad ok (NewPinger h u)"
  "(\<And>r. \<not> bad (PingEv pr r)) \<Longrightarrow> guards bad ok (PingRun h pr)"
  "(\<And>r. \<not> bad (ListenEv c u r)) \<Longrightarrow> guards bad ok (Listen h c u)"
  by (rule guards_of_only, rule only_calls, assumption)+

text \<open>A test \<open>m\<close> whose positive answer \<open>T\<close> comes with an \<open>ok\<close> event frees what follows.\<close>

lemma guards_test:
  assumes test: "produces m (\<lambda>a es. list_all (\<lambda>e. \<not> bad e) es \<and> (T a \<longrightarrow> list_ex ok es))"
    and yes: "\<And>a. T a \<Longrightarrow> only (\<lambda>_. True) (f a)"
    and no: "\<And>a. \<not> T a \<Longrightarrow> guards bad ok (f a)"
  shows "guards bad ok (State_Monad.bind m f)"
  unfolding guards_def
proof (rule produces_bind [OF test])
  fix a es assume a: "list_all (\<lambda>e. \<not> bad e) es \<and> (T a \<longrightarrow> list_ex ok es)"
  show "produces (f a) (\<lambda>b es'. guarded bad ok (es @ es'))"
  proof (cases "T a")
    case True
    with a show ?thesis
      by (auto intro: produces_weaken [OF yes [OF True, unfolded only_def]] guarded_tested)
  next
    case False
    with a show ?thesis
      by (auto intro!: produces_weaken [OF no [OF False, unfolded guards_def]] guarded_append
          intro: guarded_no_bad)
  qed
qed

lemma guards_if [trace_rules]:
  "(b \<Longrightarrow> guards bad ok m) \<Longrightarrow> (\<not> b \<Longrightarrow> guards bad ok n) \<Longrightarrow> guards bad ok (if b then m else n)"
  by simp

lemma guards_sum [trace_rules]:
  "(\<And>e. r = Inl e \<Longrightarrow> guards bad ok (f e)) \<Longrightarrow> (\<And>x. r = Inr x \<Longrightarrow> guards bad ok (g x)) \<Longrightarrow>
     guards bad ok (case r of Inl e \<Rightarrow> f e | Inr x \<Rightarrow> g x)"
  by (cases r) auto

lemma guards_option [trace_rules]:
  "(r = None \<Longrightarrow> guards bad ok m) \<Longrightarrow> (\<And>x. r = Some x \<Longrightarrow> guards bad ok (g x)) \<Longrightarrow>
     guards bad ok (case r of None \<Rightarrow> m | Some x \<Rightarrow> g x)"
  by (cases r) auto

lemma guards_prod [trace_rules]:
  "(\<And>x y. r = (x, y) \<Longrightarrow> guards bad ok (f x y)) \<Longrightarrow> guards bad ok (case r of (x, y) \<Rightarrow> f x y)"
  by (cases r) auto

section \<open>What a result shows\<close>

text \<open>
  \<open>shows_ev S P m\<close>: whenever \<open>m\<close> returns a value with \<open>S\<close>, its events include one with \<open>P\<close>.
  It is used for "if the handler reports success, then the host has confirmed \<open>P\<close>".
\<close>

definition shows_ev :: "('a \<Rightarrow> bool) \<Rightarrow> (event \<Rightarrow> bool) \<Rightarrow> ('w, 'z, 'a) prog \<Rightarrow> bool" where
  "shows_ev S P m \<longleftrightarrow> produces m (\<lambda>a es. S a \<longrightarrow> list_ex P es)"

lemma shows_new: "shows_ev S P m \<Longrightarrow> S (result m s) \<Longrightarrow> list_ex P (new_events m s)"
  unfolding shows_ev_def by (drule produces_new) auto

lemma shows_return [trace_rules]: "\<not> S a \<Longrightarrow> shows_ev S P (State_Monad.return a)"
  unfolding shows_ev_def by (rule produces_returnI) simp

lemma shows_bind [trace_rules]:
  assumes "only (\<lambda>_. True) m" and "\<And>a. shows_ev S P (f a)"
  shows "shows_ev S P (State_Monad.bind m f)"
  unfolding shows_ev_def
  by (rule produces_bind [OF produces_of_only [OF assms(1)]],
      rule produces_weaken [OF assms(2) [unfolded shows_ev_def]]) auto

lemma shows_test:
  assumes test: "shows_ev T P m"
    and yes: "\<And>a. T a \<Longrightarrow> only (\<lambda>_. True) (f a)"
    and no: "\<And>a. \<not> T a \<Longrightarrow> shows_ev S P (f a)"
  shows "shows_ev S P (State_Monad.bind m f)"
  unfolding shows_ev_def
proof (rule produces_bind [OF test [unfolded shows_ev_def]])
  fix a es assume a: "T a \<longrightarrow> list_ex P es"
  show "produces (f a) (\<lambda>b es'. S b \<longrightarrow> list_ex P (es @ es'))"
  proof (cases "T a")
    case True
    with a show ?thesis
      by (auto intro: produces_weaken [OF yes [OF True, unfolded only_def]])
  next
    case False
    then show ?thesis
      by (auto intro: produces_weaken [OF no [OF False, unfolded shows_ev_def]])
  qed
qed

lemma shows_if [trace_rules]:
  "(b \<Longrightarrow> shows_ev S P m) \<Longrightarrow> (\<not> b \<Longrightarrow> shows_ev S P n) \<Longrightarrow> shows_ev S P (if b then m else n)"
  by simp

lemma shows_sum [trace_rules]:
  "(\<And>e. r = Inl e \<Longrightarrow> shows_ev S P (f e)) \<Longrightarrow> (\<And>x. r = Inr x \<Longrightarrow> shows_ev S P (g x)) \<Longrightarrow>
     shows_ev S P (case r of Inl e \<Rightarrow> f e | Inr x \<Rightarrow> g x)"
  by (cases r) auto

lemma shows_option [trace_rules]:
  "(r = None \<Longrightarrow> shows_ev S P m) \<Longrightarrow> (\<And>x. r = Some x \<Longrightarrow> shows_ev S P (g x)) \<Longrightarrow>
     shows_ev S P (case r of None \<Rightarrow> m | Some x \<Rightarrow> g x)"
  by (cases r) auto

lemma shows_prod [trace_rules]:
  "(\<And>x y. r = (x, y) \<Longrightarrow> shows_ev S P (f x y)) \<Longrightarrow> shows_ev S P (case r of (x, y) \<Rightarrow> f x y)"
  by (cases r) auto

lemma shows_mono: "shows_ev S P m \<Longrightarrow> (\<And>a. S' a \<Longrightarrow> S a) \<Longrightarrow> (\<And>e. P e \<Longrightarrow> P' e) \<Longrightarrow> shows_ev S' P' m"
  unfolding shows_ev_def by (erule produces_weaken) (auto simp: list_ex_iff)

end
