(* ===== verification/Sample_Host.thy ===== *)
theory Sample_Host
  imports Host_IO
begin

text \<open>
  A concrete host for the examples that show the theorems' hypotheses can hold: every call
  succeeds with an empty reply. Examples override single calls by record update.
\<close>

definition some_pv :: PersistentVolume where
  "some_pv = \<lparr>pv_Name = ''pv'', pv_Annotations = None, pv_Capacity = Map.empty, pv_CSI = None\<rparr>"

definition quiet_host :: "'w host" where
  "quiet_host = \<lparr>
     exec_combined = (\<lambda>p args w. (([], None), w)),
     exec_split = (\<lambda>p args w. (([], [], None), w)),
     look_path = (\<lambda>p w. (None, w)),
     os_stat = (\<lambda>p w. (Inr \<lparr>fi_IsDir = True, fi_Dev = 0\<rparr>, w)),
     os_lstat = (\<lambda>p w. (Inr \<lparr>fi_IsDir = True, fi_Dev = 0\<rparr>, w)),
     os_mkdirall = (\<lambda>p m w. (None, w)),
     os_remove = (\<lambda>p w. (None, w)),
     os_rename = (\<lambda>p q w. (None, w)),
     os_open = (\<lambda>p w. (None, w)),
     os_openfile = (\<lambda>p fl m w. (None, w)),
     os_close = (\<lambda>p w. (None, w)),
     os_readdir1 = (\<lambda>p w. (None, w)),
     read_file = (\<lambda>p w. (Inr [], w)),
     write_file = (\<lambda>p d m w. (None, w)),
     read_dir = (\<lambda>p w. (Inr [], w)),
     eval_symlinks = (\<lambda>p w. (Inr p, w)),
     get_pv = (\<lambda>n w. (Inr some_pv, w)),
     volume_add = (\<lambda>p mi w. (None, w)),
     volume_remove = (\<lambda>p w. (None, w)),
     resize_fs = (\<lambda>d m w. (Inr True, w)),
     cleanup_mount_point = (\<lambda>p ext w. (None, w)),
     unix_stat = (\<lambda>p w. (Inr 0, w)),
     http_get = (\<lambda>u w. (Inr [], w)),
     os_removeall = (\<lambda>p w. (None, w)),
     os_read = (\<lambda>p w. (([], None), w)),
     os_write = (\<lambda>p d w. ((length d, None), w)),
     os_sync = (\<lambda>p w. (None, w)),
     get_pod = (\<lambda>ns n w. (Inr \<lparr>pod_RuntimeClassName = None, pod_Annotations = None\<rparr>, w)),
     get_node = (\<lambda>n w. (Inr [], w)),
     exec_timeout = (\<lambda>p args t w. (None, w)),
     new_pinger = (\<lambda>a w. (None, w)),
     net_listen = (\<lambda>p a w. (None, w)),
     ping_run = (\<lambda>pr w. ((None, \<lparr>stat_PacketsSent = 1, stat_PacketsRecv = 1, stat_Addr = ping_Addr pr\<rparr>), w)),
     quote = (\<lambda>s. s),
     sprintf0 = (\<lambda>s. s)\<rparr>"

definition start :: "unit sys" where
  "start = \<lparr>world = (), events = []\<rparr>"

lemmas sample_defs = quiet_host_def start_def some_pv_def

end
