(* ===== verification/Go_Json.thy ===== *)
theory Go_Json
  imports Go_Strings
begin

text \<open>
  \<open>json.Marshal\<close> of strings and of the structure the driver writes for Kata Containers. The encoder
  is that of \<open>encoding/json\<close> with HTML escaping, byte by byte: ASCII characters are copied or
  escaped, valid UTF-8 sequences are copied (U+2028 and U+2029 escaped), any other byte becomes
  the replacement character.
\<close>

definition code_of :: "char \<Rightarrow> nat" where "code_of c = of_char c"

definition between :: "nat \<Rightarrow> nat \<Rightarrow> char \<Rightarrow> bool" where
  "between lo hi c \<longleftrightarrow> lo \<le> code_of c \<and> code_of c \<le> hi"

text \<open>Length of the valid UTF-8 sequence at the front of a string, 0 if there is none.\<close>

definition rune_len :: "string \<Rightarrow> nat" where
  "rune_len s = (case s of [] \<Rightarrow> 0 | a # t \<Rightarrow>
     if between 0 0x7F a then 1
     else if between 0xC2 0xDF a then
       (case t of b # _ \<Rightarrow> if between 0x80 0xBF b then 2 else 0 | _ \<Rightarrow> 0)
     else if between 0xE0 0xEF a then
       (case t of b # c # _ \<Rightarrow>
          if between (if code_of a = 0xE0 then 0xA0 else 0x80) (if code_of a = 0xED then 0x9F else 0xBF) b
            \<and> between 0x80 0xBF c then 3 else 0 | _ \<Rightarrow> 0)
     else if between 0xF0 0xF4 a then
       (case t of b # c # d # _ \<Rightarrow>
          if between (if code_of a = 0xF0 then 0x90 else 0x80) (if code_of a = 0xF4 then 0x8F else 0xBF) b
            \<and> between 0x80 0xBF c \<and> between 0x80 0xBF d then 4 else 0 | _ \<Rightarrow> 0)
     else 0)"

definition hex_digit :: "nat \<Rightarrow> char" where
  "hex_digit n = ''0123456789abcdef'' ! (n mod 16)"

definition encode_ascii :: "char \<Rightarrow> string" where
  "encode_ascii c =
     (if c = CHR 0x5C \<or> c = CHR 0x22 then [CHR 0x5C, c]
      else if c = CHR 0x0A then [CHR 0x5C, CHR ''n'']
      else if c = CHR 0x0D then [CHR 0x5C, CHR ''r'']
      else if c = CHR 0x09 then [CHR 0x5C, CHR ''t'']
      else if code_of c < 0x20 \<or> c = CHR ''<'' \<or> c = CHR ''>'' \<or> c = CHR ''&'' then
        CHR 0x5C # ''u00'' @ [hex_digit (code_of c div 16), hex_digit (code_of c)]
      else [c])"

function encode_bytes :: "string \<Rightarrow> string" where
  "encode_bytes s = (case s of [] \<Rightarrow> [] | c # t \<Rightarrow>
     if code_of c < 0x80 then encode_ascii c @ encode_bytes t
     else if rune_len s = 0 then CHR 0x5C # ''ufffd'' @ encode_bytes t
     else if take 3 s = [CHR 0xE2, CHR 0x80, CHR 0xA8] then CHR 0x5C # ''u2028'' @ encode_bytes (drop 3 s)
     else if take 3 s = [CHR 0xE2, CHR 0x80, CHR 0xA9] then CHR 0x5C # ''u2029'' @ encode_bytes (drop 3 s)
     else take (rune_len s) s @ encode_bytes (drop (rune_len s) s))"
  by pat_completeness auto
termination
  by (relation "measure length") auto

declare encode_bytes.simps [simp del]

definition json_string :: "string \<Rightarrow> string" where
  "json_string s = [CHR 0x22] @ encode_bytes s @ [CHR 0x22]"

text \<open>
  \<open>volume.MountInfo\<close> of the Kata direct-volume package, with the three fields the driver sets; the
  other two have the option \<open>omitempty\<close> and stay empty.
\<close>

record MountInfo =
  mi_VolumeType :: string
  mi_Device :: string
  mi_FsType :: string

definition Marshal_MountInfo :: "MountInfo \<Rightarrow> string" where
  "Marshal_MountInfo mi =
     ''{'' @ json_string ''volume-type'' @ '':'' @ json_string (mi_VolumeType mi) @
     '','' @ json_string ''device'' @ '':'' @ json_string (mi_Device mi) @
     '','' @ json_string ''fstype'' @ '':'' @ json_string (mi_FsType mi) @ ''}''"

end
