(* ===== verification/Go_Json_Scan.thy ===== *)
theory Go_Json_Scan
  imports Go_Json
begin

text \<open>
  The reader of \<open>encoding/json\<close>. The Go scanner is a machine that takes one byte at a time and
  keeps a stack of the open arrays and objects; \<open>json_run\<close> has its states, its stack and its
  transitions, and builds the value while it goes. String and number literals are read by
  \<open>scan_string\<close> and \<open>scan_number\<close>. An error keeps the offending byte, the context that the
  library names in the message, and the input after it.
\<close>

section \<open>Values and errors\<close>

datatype json =
    JNull
  | JBool bool
  | JNum string
  | JStr string
  | JArr "json list"
  | JObj "(string \<times> json) list"

datatype json_error = JEof | JBad char string string

text \<open>
  The text of a \<open>SyntaxError\<close>; \<open>q\<close> is \<open>strconv.Quote\<close>. \<open>quoteChar\<close> shows the byte as a character.
\<close>

definition encode_rune :: "nat \<Rightarrow> string" where
  "encode_rune r =
     (if r < 0x80 then [char_of r]
      else if r < 0x800 then [char_of (0xC0 + r div 64), char_of (0x80 + r mod 64)]
      else if r < 0x10000 then
        [char_of (0xE0 + r div 4096), char_of (0x80 + r div 64 mod 64), char_of (0x80 + r mod 64)]
      else [char_of (0xF0 + r div 262144), char_of (0x80 + r div 4096 mod 64),
            char_of (0x80 + r div 64 mod 64), char_of (0x80 + r mod 64)])"

definition quoteChar :: "(string \<Rightarrow> string) \<Rightarrow> char \<Rightarrow> string" where
  "quoteChar q c =
     (if c = CHR 0x27 then [CHR 0x27, CHR 0x5C, CHR 0x27, CHR 0x27]
      else if c = CHR 0x22 then [CHR 0x27, CHR 0x22, CHR 0x27]
      else CHR 0x27 # butlast (tl (q (encode_rune (code_of c)))) @ [CHR 0x27])"

fun json_error_text :: "(string \<Rightarrow> string) \<Rightarrow> json_error \<Rightarrow> string" where
  "json_error_text q JEof = ''unexpected end of JSON input''"
| "json_error_text q (JBad c ctx _) = ''invalid character '' @ quoteChar q c @ '' '' @ ctx"

section \<open>Literals\<close>

definition json_space :: "char \<Rightarrow> bool" where
  "json_space c \<longleftrightarrow> c = CHR 0x20 \<or> c = CHR 0x09 \<or> c = CHR 0x0D \<or> c = CHR 0x0A"

definition is_hex :: "char \<Rightarrow> bool" where
  "is_hex c \<longleftrightarrow> between 0x30 0x39 c \<or> between 0x61 0x66 c \<or> between 0x41 0x46 c"

definition json_digit :: "char \<Rightarrow> bool" where
  "json_digit c \<longleftrightarrow> between 0x30 0x39 c"

text \<open>The four digits after a backslash and \<open>u\<close>.\<close>

fun scan_hex :: "nat \<Rightarrow> string \<Rightarrow> json_error + (string \<times> string)" where
  "scan_hex 0 s = Inr ([], s)"
| "scan_hex (Suc n) [] = Inl JEof"
| "scan_hex (Suc n) (c # s) =
     (if is_hex c then (case scan_hex n s of Inl e \<Rightarrow> Inl e | Inr (hs, t) \<Rightarrow> Inr (c # hs, t))
      else Inl (JBad c (''in '' @ [CHR 0x5C] @ ''u hexadecimal character escape'') s))"

lemma scan_hex_length: "scan_hex n s = Inr (hs, t) \<Longrightarrow> length t + n = length s \<and> length hs = n"
  by (induction n s arbitrary: hs rule: scan_hex.induct) (auto split: if_splits sum.splits)

text \<open>The rest of a string literal after its opening quote: the text up to the closing one, not yet unquoted.\<close>

function scan_string :: "string \<Rightarrow> json_error + (string \<times> string)" where
  "scan_string [] = Inl JEof"
| "scan_string (c # t) =
     (if c = CHR 0x22 then Inr ([], t)
      else if c = CHR 0x5C then
        (case t of
           [] \<Rightarrow> Inl JEof
         | e # u \<Rightarrow>
             if e \<in> set ''bfnrt/'' \<or> e = CHR 0x5C \<or> e = CHR 0x22 then
               map_sum id (\<lambda>(lit, r). (c # e # lit, r)) (scan_string u)
             else if e = CHR ''u'' then
               (case scan_hex 4 u of
                  Inl err \<Rightarrow> Inl err
                | Inr (hs, v) \<Rightarrow> map_sum id (\<lambda>(lit, r). (c # e # hs @ lit, r)) (scan_string v))
             else Inl (JBad e ''in string escape code'' u))
      else if code_of c < 0x20 then Inl (JBad c ''in string literal'' t)
      else map_sum id (\<lambda>(lit, r). (c # lit, r)) (scan_string t))"
  by pat_completeness auto
termination
  by (relation "measure length") (auto dest!: scan_hex_length)

declare scan_string.simps(2) [simp del]

text \<open>Digits of a number, the exponent, the fraction, the whole literal (after its first byte).\<close>

fun scan_digits :: "string \<Rightarrow> string \<times> string" where
  "scan_digits [] = ([], [])"
| "scan_digits (c # s) =
     (if json_digit c then (case scan_digits s of (ds, t) \<Rightarrow> (c # ds, t)) else ([], c # s))"

definition scan_digits1 :: "string \<Rightarrow> string \<Rightarrow> json_error + (string \<times> string)" where
  "scan_digits1 ctx s = (case s of
     [] \<Rightarrow> Inl JEof
   | c # t \<Rightarrow> if json_digit c then Inr (scan_digits s) else Inl (JBad c ctx t))"

definition scan_exponent :: "string \<Rightarrow> json_error + (string \<times> string)" where
  "scan_exponent s = (case s of
     [] \<Rightarrow> Inl JEof
   | c # t \<Rightarrow>
       if c = CHR ''e'' \<or> c = CHR ''E'' then
         (case t of
            [] \<Rightarrow> Inl JEof
          | d # u \<Rightarrow>
              if d = CHR ''+'' \<or> d = CHR ''-'' then
                map_sum id (\<lambda>(ds, r). (c # d # ds, r)) (scan_digits1 ''in exponent of numeric literal'' u)
              else map_sum id (\<lambda>(ds, r). (c # ds, r)) (scan_digits1 ''in exponent of numeric literal'' t))
       else Inr ([], s))"

definition scan_fraction :: "string \<Rightarrow> json_error + (string \<times> string)" where
  "scan_fraction s = (case s of
     [] \<Rightarrow> Inl JEof
   | c # t \<Rightarrow>
       if c = CHR ''.'' then
         (case scan_digits1 ''after decimal point in numeric literal'' t of
            Inl e \<Rightarrow> Inl e
          | Inr (ds, u) \<Rightarrow> map_sum id (\<lambda>(es, r). (c # ds @ es, r)) (scan_exponent u))
       else scan_exponent s)"

definition scan_integer :: "string \<Rightarrow> json_error + (string \<times> string)" where
  "scan_integer s = (case s of
     [] \<Rightarrow> Inl JEof
   | c # t \<Rightarrow>
       if c = CHR ''0'' then map_sum id (\<lambda>(fs, r). (c # fs, r)) (scan_fraction t)
       else if json_digit c then
         (case scan_digits t of (ds, u) \<Rightarrow> map_sum id (\<lambda>(fs, r). (c # ds @ fs, r)) (scan_fraction u))
       else Inl (JBad c ''in numeric literal'' t))"

definition scan_number :: "string \<Rightarrow> json_error + (string \<times> string)" where
  "scan_number s = (case s of
     [] \<Rightarrow> Inl JEof
   | c # t \<Rightarrow>
       if c = CHR ''-'' then map_sum id (\<lambda>(ds, r). (c # ds, r)) (scan_integer t) else scan_integer s)"

text \<open>The rest of \<open>true\<close>, \<open>false\<close> or \<open>null\<close>.\<close>

fun scan_lit :: "string \<Rightarrow> string \<Rightarrow> string \<Rightarrow> json_error + string" where
  "scan_lit name [] s = Inr s"
| "scan_lit name (e # es) [] = Inl JEof"
| "scan_lit name (e # es) (c # s) =
     (if c = e then scan_lit name es s
      else Inl (JBad c (''in literal '' @ name @ '' (expecting '' @ [CHR 0x27, e, CHR 0x27] @ '')'') s))"

lemma scan_lit_length: "scan_lit name es s = Inr t \<Longrightarrow> length t \<le> length s"
  by (induction name es s rule: scan_lit.induct) (auto split: if_splits)

lemma scan_digits_length: "scan_digits s = (ds, t) \<Longrightarrow> length t \<le> length s"
  by (induction s arbitrary: ds) (auto split: if_splits prod.splits)

lemma scan_digits1_length: "scan_digits1 ctx s = Inr (ds, t) \<Longrightarrow> length t \<le> length s"
  by (cases s) (auto simp: scan_digits1_def simp del: scan_digits.simps dest: scan_digits_length split: if_splits)

lemma map_sum_Inr: "map_sum id f x = Inr y \<longleftrightarrow> (\<exists>z. x = Inr z \<and> y = f z)"
  by (cases x) auto

lemma scan_exponent_length: "scan_exponent s = Inr (ds, t) \<Longrightarrow> length t \<le> length s"
  by (auto simp: scan_exponent_def map_sum_Inr dest!: scan_digits1_length split: list.splits if_splits)

lemma scan_fraction_length: "scan_fraction s = Inr (ds, t) \<Longrightarrow> length t \<le> length s"
  by (auto simp: scan_fraction_def map_sum_Inr dest!: scan_digits1_length scan_exponent_length
      split: list.splits if_splits sum.splits)

lemma scan_integer_length: "scan_integer s = Inr (ds, t) \<Longrightarrow> length t < length s"
  by (auto simp: scan_integer_def map_sum_Inr dest!: scan_digits_length scan_fraction_length
      split: list.splits if_splits prod.splits)

lemma scan_number_length: "scan_number s = Inr (ds, t) \<Longrightarrow> length t < length s"
  by (auto simp: scan_number_def map_sum_Inr dest!: scan_integer_length split: list.splits if_splits)

lemma scan_string_length: "scan_string s = Inr (lit, t) \<Longrightarrow> length t < length s"
proof (induction s arbitrary: lit rule: scan_string.induct)
  case 1
  then show ?case by simp
next
  case (2 c s)
  show ?case
  proof (cases "c = CHR 0x5C")
    case False
    with 2 show ?thesis
      by (auto simp: scan_string.simps(2) map_sum_Inr split: if_splits dest: less_SucI)
  next
    case esc: True
    show ?thesis
    proof (cases s)
      case Nil
      with "2.prems" esc show ?thesis by (simp add: scan_string.simps(2))
    next
      case (Cons e u)
      show ?thesis
      proof (cases "e = CHR ''u''")
        case True
        with "2.prems" esc Cons obtain hs v lit' where
          v: "scan_hex 4 u = Inr (hs, v)" and l: "scan_string v = Inr (lit', t)"
          by (auto simp: scan_string.simps(2) map_sum_Inr split: sum.splits)
        with "2.IH"(2) [of e u "(hs, v)" hs v lit'] esc Cons True have "length t < length v" by simp
        then show ?thesis using scan_hex_length [OF v] Cons by simp
      next
        case False
        with "2.prems" esc Cons have e: "e \<in> set ''bfnrt/'' \<or> e = CHR 0x5C \<or> e = CHR 0x22"
          by (auto simp: scan_string.simps(2) split: if_splits)
        with "2.prems" esc Cons obtain lit' where "scan_string u = Inr (lit', t)"
          by (auto simp: scan_string.simps(2) map_sum_Inr split: if_splits)
        with "2.IH"(1) [of e u lit'] esc Cons e show ?thesis by simp
      qed
    qed
  qed
qed

section \<open>Unquoting\<close>

definition hex_val :: "char \<Rightarrow> nat" where
  "hex_val c = (if between 0x30 0x39 c then code_of c - 0x30
     else if between 0x61 0x66 c then code_of c - 0x61 + 10
     else code_of c - 0x41 + 10)"

text \<open>The value of four hexadecimal digits at the front of a string.\<close>

definition get_u4 :: "string \<Rightarrow> (nat \<times> string) option" where
  "get_u4 s = (case scan_hex 4 s of
     Inl _ \<Rightarrow> None
   | Inr (hs, t) \<Rightarrow> Some (foldl (\<lambda>r c. r * 16 + hex_val c) 0 hs, t))"

text \<open>The second half of a pair of surrogates, with its backslash and \<open>u\<close>; the code point of the pair.\<close>

definition low_surrogate :: "nat \<Rightarrow> string \<Rightarrow> (nat \<times> string) option" where
  "low_surrogate r s = (case s of
     a # b # t \<Rightarrow>
       if a = CHR 0x5C \<and> b = CHR ''u'' then
         (case get_u4 t of
            None \<Rightarrow> None
          | Some (r2, u) \<Rightarrow>
              if r < 0xDC00 \<and> 0xDC00 \<le> r2 \<and> r2 < 0xE000 then
                Some ((r - 0xD800) * 1024 + (r2 - 0xDC00) + 0x10000, u)
              else None)
       else None
   | _ \<Rightarrow> None)"

definition escape_char :: "char \<Rightarrow> char option" where
  "escape_char e =
     (if e = CHR 0x22 \<or> e = CHR 0x5C \<or> e = CHR ''/'' \<or> e = CHR 0x27 then Some e
      else if e = CHR ''b'' then Some (CHR 0x08)
      else if e = CHR ''f'' then Some (CHR 0x0C)
      else if e = CHR ''n'' then Some (CHR 0x0A)
      else if e = CHR ''r'' then Some (CHR 0x0D)
      else if e = CHR ''t'' then Some (CHR 0x09)
      else None)"

lemma get_u4_length: "get_u4 s = Some (r, t) \<Longrightarrow> length t < length s"
  by (auto simp: get_u4_def dest!: scan_hex_length split: sum.splits)

lemma low_surrogate_length: "low_surrogate r s = Some (r', t) \<Longrightarrow> length t < length s"
  by (auto simp: low_surrogate_def dest!: get_u4_length split: list.splits if_splits option.splits)

text \<open>
  \<open>unquoteBytes\<close> on the text between the quotes; bytes that are not valid UTF-8 and unpaired
  surrogates become the replacement character U+FFFD.
\<close>

function unquote :: "string \<Rightarrow> string option" where
  "unquote [] = Some []"
| "unquote (c # s) =
     (if c = CHR 0x5C then
        (case s of
           [] \<Rightarrow> None
         | e # t \<Rightarrow>
             if e = CHR ''u'' then
               (case get_u4 t of
                  None \<Rightarrow> None
                | Some (r, u) \<Rightarrow>
                    if 0xD800 \<le> r \<and> r < 0xE000 then
                      (case low_surrogate r u of
                         Some (r', v) \<Rightarrow> map_option ((@) (encode_rune r')) (unquote v)
                       | None \<Rightarrow> map_option ((@) (encode_rune 0xFFFD)) (unquote u))
                    else map_option ((@) (encode_rune r)) (unquote u))
             else (case escape_char e of None \<Rightarrow> None | Some x \<Rightarrow> map_option ((#) x) (unquote t)))
      else if c = CHR 0x22 \<or> code_of c < 0x20 then None
      else if rune_len (c # s) = 0 then map_option ((@) (encode_rune 0xFFFD)) (unquote s)
      else map_option ((@) (take (rune_len (c # s)) (c # s))) (unquote (drop (rune_len (c # s)) (c # s))))"
  by pat_completeness auto
termination
  by (relation "measure length") (auto dest!: get_u4_length low_surrogate_length)

declare unquote.simps(2) [simp del]

definition unquoted :: "string \<Rightarrow> string" where
  "unquoted lit = (case unquote lit of Some s \<Rightarrow> s | None \<Rightarrow> [])"

text \<open>A value that is one literal, after its first byte.\<close>

definition scan_value :: "char \<Rightarrow> string \<Rightarrow> json_error + (json \<times> string)" where
  "scan_value c s =
     (if c = CHR 0x22 then map_sum id (\<lambda>(lit, t). (JStr (unquoted lit), t)) (scan_string s)
      else if c = CHR ''-'' \<or> json_digit c then map_sum id (\<lambda>(lit, t). (JNum lit, t)) (scan_number (c # s))
      else if c = CHR ''t'' then map_sum id (\<lambda>t. (JBool True, t)) (scan_lit ''true'' ''rue'' s)
      else if c = CHR ''f'' then map_sum id (\<lambda>t. (JBool False, t)) (scan_lit ''false'' ''alse'' s)
      else if c = CHR ''n'' then map_sum id (\<lambda>t. (JNull, t)) (scan_lit ''null'' ''ull'' s)
      else Inl (JBad c ''looking for beginning of value'' s))"

lemma scan_value_length: "scan_value c s = Inr (v, t) \<Longrightarrow> length t \<le> length s"
  by (auto simp: scan_value_def map_sum_Inr dest!: scan_string_length scan_number_length scan_lit_length split: if_splits)

section \<open>The machine\<close>

text \<open>
  The states between two literals, and the stack: an array with its elements so far, an object
  that waits for a key, an object that waits for the value of a key.
\<close>

datatype json_mode = BeginValue | BeginValueOrEmpty | BeginString | BeginStringOrEmpty | EndValue json

datatype json_frame =
    FArr "json list"
  | FKey "(string \<times> json) list"
  | FVal "(string \<times> json) list" string

definition maxNestingDepth :: nat where "maxNestingDepth = 10000"

fun key_text :: "json \<Rightarrow> string" where
  "key_text (JStr k) = k"
| "key_text _ = []"

fun mode_rank :: "json_mode \<Rightarrow> nat" where
  "mode_rank BeginValueOrEmpty = 1"
| "mode_rank BeginStringOrEmpty = 1"
| "mode_rank _ = 0"

function (sequential) json_run :: "json_mode \<Rightarrow> json_frame list \<Rightarrow> string \<Rightarrow> json_error + (json \<times> string)" where
  "json_run (EndValue v) [] s = Inr (v, s)"
| "json_run m stk [] = Inl JEof"
| "json_run (EndValue v) (fr # stk) (c # s) =
     (if json_space c then json_run (EndValue v) (fr # stk) s
      else (case fr of
          FKey ms \<Rightarrow>
            if c = CHR '':'' then json_run BeginValue (FVal ms (key_text v) # stk) s
            else Inl (JBad c ''after object key'' s)
        | FVal ms k \<Rightarrow>
            if c = CHR '','' then json_run BeginString (FKey (ms @ [(k, v)]) # stk) s
            else if c = CHR ''}'' then json_run (EndValue (JObj (ms @ [(k, v)]))) stk s
            else Inl (JBad c ''after object key:value pair'' s)
        | FArr vs \<Rightarrow>
            if c = CHR '','' then json_run BeginValue (FArr (vs @ [v]) # stk) s
            else if c = CHR '']'' then json_run (EndValue (JArr (vs @ [v]))) stk s
            else Inl (JBad c ''after array element'' s)))"
| "json_run BeginString stk (c # s) =
     (if json_space c then json_run BeginString stk s
      else if c = CHR 0x22 then
        (case scan_string s of
           Inl e \<Rightarrow> Inl e
         | Inr (lit, t) \<Rightarrow> json_run (EndValue (JStr (unquoted lit))) stk t)
      else Inl (JBad c ''looking for beginning of object key string'' s))"
| "json_run BeginStringOrEmpty stk (c # s) =
     (if json_space c then json_run BeginStringOrEmpty stk s
      else if c = CHR ''}'' then json_run (EndValue (JObj [])) (tl stk) s
      else json_run BeginString stk (c # s))"
| "json_run BeginValueOrEmpty stk (c # s) =
     (if json_space c then json_run BeginValueOrEmpty stk s
      else if c = CHR '']'' then json_run (EndValue (JArr [])) (tl stk) s
      else json_run BeginValue stk (c # s))"
| "json_run BeginValue stk (c # s) =
     (if json_space c then json_run BeginValue stk s
      else if c = CHR ''{'' then
        (if length stk < maxNestingDepth then json_run BeginStringOrEmpty (FKey [] # stk) s
         else Inl (JBad c ''exceeded max depth'' s))
      else if c = CHR ''['' then
        (if length stk < maxNestingDepth then json_run BeginValueOrEmpty (FArr [] # stk) s
         else Inl (JBad c ''exceeded max depth'' s))
      else (case scan_value c s of Inl e \<Rightarrow> Inl e | Inr (v, t) \<Rightarrow> json_run (EndValue v) stk t))"
  by pat_completeness auto
termination
  by (relation "measures [\<lambda>(m, stk, s). length s, \<lambda>(m, stk, s). mode_rank m]")
     (auto dest!: scan_string_length scan_value_length)

declare json_run.simps [simp del]
declare json_run.simps(1) [simp]

lemmas run_EndValue = json_run.simps(7)
lemmas run_BeginString = json_run.simps(8)
lemmas run_BeginStringOrEmpty = json_run.simps(9)
lemmas run_BeginValueOrEmpty = json_run.simps(10)
lemmas run_BeginValue = json_run.simps(11)
lemmas run_modes = run_EndValue run_BeginString run_BeginStringOrEmpty run_BeginValueOrEmpty run_BeginValue

text \<open>
  \<open>checkValid\<close> and the value. At the end of the input the scanner is given one more blank, which
  ends a number and is an error inside the other literals.
\<close>

definition json_parse :: "string \<Rightarrow> json_error + json" where
  "json_parse s = (case json_run BeginValue [] (s @ '' '') of
     Inl e \<Rightarrow> Inl e
   | Inr (v, rest) \<Rightarrow>
       (case dropWhile json_space rest of
          [] \<Rightarrow> Inr v
        | c # t \<Rightarrow> Inl (JBad c ''after top-level value'' t)))"

end
