(* ===== verification/Go_Json_Text.thy ===== *)
theory Go_Json_Text
  imports Go_Json_Scan
begin

text \<open>
  The JSON grammar as an inductive definition, and the proof that the reader accepts its texts and returns
  the value they stand for: up to the nesting limit of the library, with any white space
  between the tokens. Strings that the encoder writes are read back when they are valid
  UTF-8, and whatever the reader returns is valid UTF-8.
\<close>

section \<open>String literals\<close>

lemma scan_hex_append: "scan_hex n s = Inr (hs, t) \<Longrightarrow> scan_hex n (s @ r) = Inr (hs, t @ r)"
  by (induction n s arbitrary: hs rule: scan_hex.induct) (auto split: if_splits sum.splits)

lemma scan_string_append: "scan_string s = Inr (lit, t) \<Longrightarrow> scan_string (s @ r) = Inr (lit, t @ r)"
proof (induction s arbitrary: lit rule: scan_string.induct)
  case 1
  then show ?case by simp
next
  case (2 c s)
  show ?case
  proof (cases "c = CHR 0x5C")
    case False
    with 2 show ?thesis
      by (auto simp: scan_string.simps(2) map_sum_Inr split: if_splits)
  next
    case esc: True
    show ?thesis
    proof (cases s)
      case Nil
      with "2.prems" esc show ?thesis by (simp add: scan_string.simps(2))
    next
      case (Cons e u)
      show ?thesis
      proof (cases "e = CHR ''u''")
        case True
        with "2.prems" esc Cons obtain hs v lit' where
          v: "scan_hex 4 u = Inr (hs, v)" "scan_string v = Inr (lit', t)" "lit = c # e # hs @ lit'"
          by (auto simp: scan_string.simps(2) map_sum_Inr split: sum.splits)
        with "2.IH"(2) [of e u "(hs, v)" hs v lit'] esc Cons True
        have "scan_string (v @ r) = Inr (lit', t @ r)" by simp
        with v esc Cons True show ?thesis
          by (simp add: scan_string.simps(2) scan_hex_append [OF v(1)])
      next
        case False
        with "2.prems" esc Cons have e: "e \<in> set ''bfnrt/'' \<or> e = CHR 0x5C \<or> e = CHR 0x22"
          by (auto simp: scan_string.simps(2) split: if_splits)
        with "2.prems" esc Cons obtain lit' where u: "scan_string u = Inr (lit', t)" "lit = c # e # lit'"
          by (auto simp: scan_string.simps(2) map_sum_Inr split: if_splits)
        with "2.IH"(1) [of e u lit'] esc Cons e have "scan_string (u @ r) = Inr (lit', t @ r)" by simp
        with u esc Cons e show ?thesis by (auto simp: scan_string.simps(2))
      qed
    qed
  qed
qed

text \<open>A literal that the scanner reads to its closing quote.\<close>

definition string_lit :: "string \<Rightarrow> bool" where
  "string_lit lit \<longleftrightarrow> scan_string (lit @ [CHR 0x22]) = Inr (lit, [])"

lemma string_lit_scan: "string_lit lit \<Longrightarrow> scan_string (lit @ CHR 0x22 # r) = Inr (lit, r)"
  using scan_string_append [of "lit @ [CHR 0x22]" lit "[]" r] by (simp add: string_lit_def)

section \<open>The grammar\<close>

definition blank :: "string \<Rightarrow> bool" where
  "blank w = list_all json_space w"

inductive json_text :: "json \<Rightarrow> string \<Rightarrow> bool"
  and elems_text :: "json list \<Rightarrow> string \<Rightarrow> bool"
  and members_text :: "(string \<times> json) list \<Rightarrow> string \<Rightarrow> bool" where
  null: "json_text JNull ''null''"
| true: "json_text (JBool True) ''true''"
| false: "json_text (JBool False) ''false''"
| str: "string_lit lit \<Longrightarrow> json_text (JStr (unquoted lit)) (CHR 0x22 # lit @ [CHR 0x22])"
| arr0: "blank w \<Longrightarrow> json_text (JArr []) (CHR ''['' # w @ '']'')"
| arr: "elems_text vs s \<Longrightarrow> json_text (JArr vs) (CHR ''['' # s @ '']'')"
| obj0: "blank w \<Longrightarrow> json_text (JObj []) (CHR ''{'' # w @ ''}'')"
| obj: "members_text ms s \<Longrightarrow> json_text (JObj ms) (CHR ''{'' # s @ ''}'')"
| elem: "blank a \<Longrightarrow> json_text v s \<Longrightarrow> blank b \<Longrightarrow> elems_text [v] (a @ s @ b)"
| elems: "blank a \<Longrightarrow> json_text v s \<Longrightarrow> blank b \<Longrightarrow> elems_text vs t \<Longrightarrow>
    elems_text (v # vs) (a @ s @ b @ CHR '','' # t)"
| member: "blank a \<Longrightarrow> string_lit lit \<Longrightarrow> blank b \<Longrightarrow> blank c \<Longrightarrow> json_text v s \<Longrightarrow> blank d \<Longrightarrow>
    members_text [(unquoted lit, v)] (a @ CHR 0x22 # lit @ CHR 0x22 # b @ CHR '':'' # c @ s @ d)"
| members: "blank a \<Longrightarrow> string_lit lit \<Longrightarrow> blank b \<Longrightarrow> blank c \<Longrightarrow> json_text v s \<Longrightarrow> blank d \<Longrightarrow>
    members_text ms t \<Longrightarrow>
    members_text ((unquoted lit, v) # ms)
      (a @ CHR 0x22 # lit @ CHR 0x22 # b @ CHR '':'' # c @ s @ d @ CHR '','' # t)"

fun json_depth :: "json \<Rightarrow> nat" where
  "json_depth (JArr vs) = Suc (foldr max (map json_depth vs) 0)"
| "json_depth (JObj ms) = Suc (foldr max (map (\<lambda>m. json_depth (snd m)) ms) 0)"
| "json_depth _ = 0"

lemma blank_simps [simp]: "blank []" "blank (c # w) \<longleftrightarrow> json_space c \<and> blank w"
  by (simp_all add: blank_def)

lemma run_blank:
  "blank w \<Longrightarrow> json_run BeginValue stk (w @ s) = json_run BeginValue stk s"
  "blank w \<Longrightarrow> json_run BeginString stk (w @ s) = json_run BeginString stk s"
  "blank w \<Longrightarrow> json_run BeginValueOrEmpty stk (w @ s) = json_run BeginValueOrEmpty stk s"
  "blank w \<Longrightarrow> json_run BeginStringOrEmpty stk (w @ s) = json_run BeginStringOrEmpty stk s"
  "blank w \<Longrightarrow> json_run (EndValue v) (fr # stk) (w @ s) = json_run (EndValue v) (fr # stk) s"
  by (induction w; simp add: run_modes)+

lemma not_space [simp]:
  "\<not> json_space (CHR 0x22)" "\<not> json_space (CHR '':'')" "\<not> json_space (CHR '','')" "\<not> json_space (CHR ''['')"
  "\<not> json_space (CHR '']'')" "\<not> json_space (CHR ''{'')" "\<not> json_space (CHR ''}'')" "\<not> json_space (CHR ''n'')"
  "\<not> json_space (CHR ''t'')" "\<not> json_space (CHR ''f'')"
  by (simp_all add: json_space_def)

lemma not_digit [simp]: "\<not> json_digit (CHR ''t'')" "\<not> json_digit (CHR ''f'')" "\<not> json_digit (CHR ''n'')"
  by (simp_all add: json_digit_def between_def code_of_def)

text \<open>How a text starts, so that it is not taken for the end of an array.\<close>

lemma json_text_start: "json_text v s \<Longrightarrow> \<exists>c t. s = c # t \<and> \<not> json_space c \<and> c \<noteq> CHR '']''"
  by (erule json_text.cases) auto

lemma run_or_empty:
  "\<not> json_space c \<Longrightarrow> c \<noteq> CHR '']'' \<Longrightarrow> json_run BeginValueOrEmpty stk (c # s) = json_run BeginValue stk (c # s)"
  "json_run BeginStringOrEmpty stk (CHR 0x22 # s) = json_run BeginString stk (CHR 0x22 # s)"
  by (simp_all add: run_modes)

lemma elems_or_empty:
  "elems_text vs s \<Longrightarrow> json_run BeginValueOrEmpty stk (s @ r) = json_run BeginValue stk (s @ r)"
  by (erule elems_text.cases) (auto simp: run_blank run_or_empty dest!: json_text_start)

lemma members_or_empty:
  "members_text ms s \<Longrightarrow> json_run BeginStringOrEmpty stk (s @ r) = json_run BeginString stk (s @ r)"
  by (erule members_text.cases) (auto simp: run_blank run_or_empty)

lemma run_key:
  assumes "string_lit lit" "blank b" "blank c"
  shows "json_run BeginString (FKey acc # stk) (CHR 0x22 # lit @ CHR 0x22 # b @ CHR '':'' # c @ s) =
    json_run BeginValue (FVal acc (unquoted lit) # stk) s"
  by (simp add: run_BeginString string_lit_scan assms run_blank run_EndValue)

text \<open>The machine on a text: as many steps as the text is long lead to its value.\<close>

lemma run_text:
  "json_text v s \<Longrightarrow> length stk + json_depth v \<le> maxNestingDepth \<Longrightarrow>
     json_run BeginValue stk (s @ r) = json_run (EndValue v) stk r"
  "elems_text vs s \<Longrightarrow> Suc (length stk) + foldr max (map json_depth vs) 0 \<le> maxNestingDepth \<Longrightarrow>
     json_run BeginValue (FArr acc # stk) (s @ CHR '']'' # r) = json_run (EndValue (JArr (acc @ vs))) stk r"
  "members_text ms s \<Longrightarrow> Suc (length stk) + foldr max (map (\<lambda>m. json_depth (snd m)) ms) 0 \<le> maxNestingDepth \<Longrightarrow>
     json_run BeginString (FKey macc # stk) (s @ CHR ''}'' # r) = json_run (EndValue (JObj (macc @ ms))) stk r"
proof (induction arbitrary: stk r and stk r acc and stk r macc rule: json_text_elems_text_members_text.inducts)
  case (str lit)
  then show ?case by (simp add: run_BeginValue scan_value_def string_lit_scan)
next
  case (arr vs s)
  then show ?case by (simp add: run_BeginValue elems_or_empty)
next
  case (obj ms s)
  then show ?case by (simp add: run_BeginValue members_or_empty)
next
  case (elem a v s b)
  then show ?case by (simp add: run_blank run_EndValue)
next
  case (elems a v s b vs t)
  then show ?case by (simp add: run_blank run_EndValue)
next
  case (member a lit b c v s d)
  then show ?case by (simp add: run_blank run_key run_EndValue)
next
  case (members a lit b c v s d ms t)
  then show ?case by (simp add: run_blank run_key run_EndValue)
qed (simp_all add: run_BeginValue scan_value_def run_BeginValueOrEmpty run_BeginStringOrEmpty run_blank)

theorem json_parse_text:
  assumes "json_text v s" "blank a" "blank b" "json_depth v \<le> maxNestingDepth"
  shows "json_parse (a @ s @ b) = Inr v"
proof -
  have "json_run BeginValue [] ((a @ s @ b) @ '' '') = Inr (v, b @ '' '')"
    using run_text(1) [OF assms(1), of "[]" "b @ '' ''"] assms by (simp add: run_blank)
  moreover have "dropWhile json_space (b @ '' '') = []"
    using assms(3) by (auto simp: blank_def list_all_iff json_space_def)
  ultimately show ?thesis by (simp add: json_parse_def)
qed

section \<open>Strings that the encoder writes\<close>

text \<open>\<open>passes x\<close>: the scanner copies \<open>x\<close>.\<close>

definition passes :: "string \<Rightarrow> bool" where
  "passes x \<longleftrightarrow> (\<forall>t. scan_string (x @ t) = map_sum id (\<lambda>(l, r). (x @ l, r)) (scan_string t))"

lemma passes_Nil [simp]: "passes []"
  by (simp add: passes_def sum.map_id0 case_prod_beta' [symmetric] sum.map_ident_strong)

lemma passes_append: "passes x \<Longrightarrow> passes y \<Longrightarrow> passes (x @ y)"
  by (simp add: passes_def sum.map_comp o_def case_prod_beta' id_def)

lemma passes_char: "code_of c \<ge> 0x20 \<Longrightarrow> c \<noteq> CHR 0x22 \<Longrightarrow> c \<noteq> CHR 0x5C \<Longrightarrow> passes [c]"
  by (simp add: passes_def scan_string.simps(2))

lemma passes_chars:
  "list_all (\<lambda>c. code_of c \<ge> 0x20 \<and> c \<noteq> CHR 0x22 \<and> c \<noteq> CHR 0x5C) x \<Longrightarrow> passes x"
proof (induction x)
  case (Cons c x)
  then show ?case using passes_append [OF passes_char, of c x] by simp
qed simp

lemma passes_escape: "e \<in> set ''bfnrt/'' \<or> e = CHR 0x5C \<or> e = CHR 0x22 \<Longrightarrow> passes [CHR 0x5C, e]"
  by (auto simp: passes_def scan_string.simps(2))

lemma scan_hex4:
  "is_hex a \<Longrightarrow> is_hex b \<Longrightarrow> is_hex c \<Longrightarrow> is_hex d \<Longrightarrow> scan_hex 4 (a # b # c # d # t) = Inr ([a, b, c, d], t)"
  by (simp add: eval_nat_numeral)

lemma get_u4_hex:
  "is_hex a \<Longrightarrow> is_hex b \<Longrightarrow> is_hex c \<Longrightarrow> is_hex d \<Longrightarrow>
     get_u4 (a # b # c # d # t) = Some (((hex_val a * 16 + hex_val b) * 16 + hex_val c) * 16 + hex_val d, t)"
  by (simp add: get_u4_def scan_hex4)

lemma passes_u: "is_hex a \<Longrightarrow> is_hex b \<Longrightarrow> is_hex c \<Longrightarrow> is_hex d \<Longrightarrow> passes [CHR 0x5C, CHR ''u'', a, b, c, d]"
  by (simp add: passes_def scan_string.simps(2) scan_hex4)

lemma passes_lit: "passes lit \<Longrightarrow> string_lit lit"
  by (simp add: passes_def string_lit_def scan_string.simps(2))

lemma nibble_cases: "n < 16 \<Longrightarrow> n \<in> {0, 1, 2, 3, 4, 5, 6, 7, 8, 9, 10, 11, 12, 13, 14, 15 :: nat}"
  unfolding insert_iff empty_iff by presburger

lemma hex_digit_simps [simp]: "is_hex (hex_digit n)" "hex_val (hex_digit n) = n mod 16"
  using nibble_cases [of "n mod 16"]
  by (auto simp: hex_digit_def is_hex_def hex_val_def between_def code_of_def)

lemma is_hex_lits [simp]:
  "is_hex (CHR ''0'')" "is_hex (CHR ''2'')" "is_hex (CHR ''8'')" "is_hex (CHR ''9'')" "is_hex (CHR ''f'')" "is_hex (CHR ''d'')"
  by (simp_all add: is_hex_def between_def code_of_def)

lemma hex_val_lits [simp]:
  "hex_val (CHR ''0'') = 0" "hex_val (CHR ''2'') = 2" "hex_val (CHR ''8'') = 8" "hex_val (CHR ''9'') = 9"
  "hex_val (CHR ''f'') = 15" "hex_val (CHR ''d'') = 13"
  by (simp_all add: hex_val_def between_def code_of_def)

lemma passes_ascii: "passes (encode_ascii c)"
proof (cases "c = CHR 0x5C \<or> c = CHR 0x22 \<or> c = CHR 0x0A \<or> c = CHR 0x0D \<or> c = CHR 0x09")
  case True
  then show ?thesis
    using passes_escape [of "CHR 0x5C"] passes_escape [of "CHR 0x22"] passes_escape [of "CHR ''n''"]
      passes_escape [of "CHR ''r''"] passes_escape [of "CHR ''t''"]
    by (auto simp: encode_ascii_def)
next
  case False
  then show ?thesis
    using passes_u [of "CHR ''0''" "CHR ''0''"] passes_char [of c] by (simp add: encode_ascii_def)
qed

text \<open>The bytes of a sequence of more than one byte.\<close>

lemma rune_len_ascii: "code_of a < 0x80 \<Longrightarrow> rune_len (a # t) = 1"
  by (simp add: rune_len_def between_def)

lemma rune_len_bytes:
  assumes "rune_len (a # t) \<noteq> 0" and "code_of a \<ge> 0x80"
  shows "\<exists>x u. a # t = x @ u \<and> length x = rune_len (a # t) \<and> list_all (\<lambda>c. code_of c \<ge> 0x80) x \<and>
    (\<forall>v. rune_len (x @ v) = rune_len (a # t))"
proof -
  consider "between 0xC2 0xDF a" | "between 0xE0 0xEF a" | "between 0xF0 0xF4 a"
    using assms by (auto simp: rune_len_def between_def split: if_splits)
  then show ?thesis
  proof cases
    case 1
    then obtain b u where "t = b # u" "between 0x80 0xBF b"
      using assms by (auto simp: rune_len_def between_def split: if_splits list.splits)
    with 1 show ?thesis
      by (intro exI [of _ "[a, b]"] exI [of _ u]) (simp add: rune_len_def between_def)
  next
    case 2
    then obtain b c u where "t = b # c # u" "code_of b \<ge> 0x80" "code_of c \<ge> 0x80"
      using assms by (auto simp: rune_len_def between_def split: if_splits list.splits)
    with 2 assms show ?thesis
      by (intro exI [of _ "[a, b, c]"] exI [of _ u]) (simp add: rune_len_def between_def split: if_splits)
  next
    case 3
    then obtain b c d u where "t = b # c # d # u" "code_of b \<ge> 0x80" "code_of c \<ge> 0x80" "code_of d \<ge> 0x80"
      using assms by (auto simp: rune_len_def between_def split: if_splits list.splits)
    with 3 assms show ?thesis
      by (intro exI [of _ "[a, b, c, d]"] exI [of _ u]) (simp add: rune_len_def between_def split: if_splits)
  qed
qed

text \<open>A sequence of more than one byte at the front of a string, and that it stays one in front of other text.\<close>

lemma rune_front:
  assumes "code_of a \<ge> 0x80"
  shows "list_all (\<lambda>c. code_of c \<ge> 0x80) (take (rune_len (a # t)) (a # t)) \<and>
    rune_len (a # t) \<le> length (a # t) \<and>
    (rune_len (a # t) \<noteq> 0 \<longrightarrow> (\<forall>v. rune_len (take (rune_len (a # t)) (a # t) @ v) = rune_len (a # t)))"
proof (cases "rune_len (a # t) = 0")
  case False
  from rune_len_bytes [OF False assms] obtain x u where
    "a # t = x @ u" "length x = rune_len (a # t)" "list_all (\<lambda>c. code_of c \<ge> 0x80) x"
    "\<forall>v. rune_len (x @ v) = rune_len (a # t)" by blast
  moreover from this have "take (rune_len (a # t)) (a # t) = x" by (metis append_eq_conv_conj)
  ultimately show ?thesis by (metis length_append le_add1)
qed simp

lemma passes_rune: "code_of c \<ge> 0x80 \<Longrightarrow> passes (take (rune_len (c # t)) (c # t))"
  by (rule passes_chars, drule rune_front [of c t, THEN conjunct1])
     (auto simp: list_all_iff code_of_def)

lemma passes_encode: "passes (encode_bytes s)"
proof (induction s rule: encode_bytes.induct)
  case (1 s)
  show ?case
  proof (cases s)
    case Nil
    then show ?thesis by (simp add: encode_bytes.simps)
  next
    case (Cons c t)
    have u: "passes (CHR 0x5C # ''ufffd'')" "passes (CHR 0x5C # ''u2028'')" "passes (CHR 0x5C # ''u2029'')"
      using passes_u by simp_all
    show ?thesis
      using 1 Cons u passes_rune [of c t]
      by (subst encode_bytes.simps)
         (auto intro!: passes_append [OF passes_ascii] passes_append [OF u(1), simplified]
           passes_append [OF u(2), simplified] passes_append [OF u(3), simplified] intro: passes_append)
  qed
qed

lemma string_lit_encode: "string_lit (encode_bytes s)"
  by (rule passes_lit [OF passes_encode])

section \<open>UTF-8\<close>

function valid_utf8 :: "string \<Rightarrow> bool" where
  "valid_utf8 s = (if s = [] then True else if rune_len s = 0 then False else valid_utf8 (drop (rune_len s) s))"
  by pat_completeness auto
termination
  by (relation "measure length") auto

declare valid_utf8.simps [simp del]

lemma valid_utf8_Nil [simp]: "valid_utf8 []"
  by (subst valid_utf8.simps) simp

lemma valid_utf8_ascii: "code_of c < 0x80 \<Longrightarrow> valid_utf8 (c # s) = valid_utf8 s"
  by (subst valid_utf8.simps) (simp add: rune_len_ascii)

lemma valid_utf8_ascii_all: "list_all (\<lambda>c. code_of c < 0x80) s \<Longrightarrow> valid_utf8 s"
  by (induction s) (simp_all add: valid_utf8_ascii)

lemma valid_utf8_append: "valid_utf8 s \<Longrightarrow> valid_utf8 t \<Longrightarrow> valid_utf8 (s @ t)"
proof (induction s rule: valid_utf8.induct)
  case (1 s)
  show ?case
  proof (cases s)
    case Nil
    with 1 show ?thesis by simp
  next
    case (Cons a u)
    then have r: "rune_len s \<noteq> 0" and v: "valid_utf8 (drop (rune_len s) s)"
      using "1.prems" valid_utf8.simps [of s] by (auto split: if_splits)
    have "rune_len (s @ t) = rune_len s \<and> rune_len s \<le> length s"
    proof (cases "code_of a < 0x80")
      case True
      then show ?thesis using Cons by (simp add: rune_len_ascii)
    next
      case False
      then show ?thesis
        using rune_front [of a u] r Cons append_take_drop_id [of "rune_len s" s]
        by (metis append.assoc not_less)
    qed
    then have "drop (rune_len (s @ t)) (s @ t) = drop (rune_len s) s @ t" "rune_len (s @ t) \<noteq> 0" using r by simp_all
    then show ?thesis using "1.IH" r v "1.prems"(2) Cons by (subst valid_utf8.simps) (simp del: drop_Cons')
  qed
qed

lemma code_of_char_of [simp]: "code_of (char_of n) = n mod 256"
  by (simp add: code_of_def)

lemma valid_3:
  fixes d m n :: nat
  shows "d \<le> 15 \<Longrightarrow> m \<le> 63 \<Longrightarrow> n \<le> 63 \<Longrightarrow> (d = 0 \<Longrightarrow> 32 \<le> m) \<Longrightarrow> (d = 13 \<Longrightarrow> m \<le> 31) \<Longrightarrow>
     valid_utf8 [char_of (0xE0 + d), char_of (0x80 + m), char_of (0x80 + n)]"
  by (subst valid_utf8.simps) (simp add: rune_len_def between_def)

lemma valid_4:
  fixes d m n k :: nat
  shows "d \<le> 4 \<Longrightarrow> m \<le> 63 \<Longrightarrow> n \<le> 63 \<Longrightarrow> k \<le> 63 \<Longrightarrow> (d = 0 \<Longrightarrow> 16 \<le> m) \<Longrightarrow> (d = 4 \<Longrightarrow> m \<le> 15) \<Longrightarrow>
     valid_utf8 [char_of (0xF0 + d), char_of (0x80 + m), char_of (0x80 + n), char_of (0x80 + k)]"
  by (subst valid_utf8.simps) (simp add: rune_len_def between_def)

lemma valid_encode_rune:
  assumes "r < 0x110000" and "\<not> (0xD800 \<le> r \<and> r < 0xE000)"
  shows "valid_utf8 (encode_rune r)"
proof -
  consider "r < 0x80" | "0x80 \<le> r" "r < 0x800" | "0x800 \<le> r" "r < 0x10000" | "0x10000 \<le> r"
    by linarith
  then show ?thesis
  proof cases
    case 1
    then show ?thesis by (simp add: encode_rune_def valid_utf8_ascii)
  next
    case 2
    then have "2 \<le> r div 64" "r div 64 < 32" by auto
    with 2 show ?thesis
      by (subst valid_utf8.simps) (simp add: encode_rune_def rune_len_def between_def)
  next
    case 3
    define q where "q = r div 64"
    have q: "r div 4096 = q div 64" "32 \<le> q" "q < 1024" "\<not> (0x360 \<le> q \<and> q < 0x380)"
      using 3 assms(2) by (auto simp: q_def div_mult2_eq [symmetric])
    moreover have "q = 64 * (q div 64) + q mod 64" "q mod 64 < 64" by simp_all
    ultimately have "q div 64 < 16" "q div 64 = 0 \<longrightarrow> 32 \<le> q mod 64" "q div 64 = 13 \<longrightarrow> q mod 64 < 32"
      by linarith+
    moreover have "encode_rune r = [char_of (0xE0 + q div 64), char_of (0x80 + q mod 64), char_of (0x80 + r mod 64)]"
      using 3 q(1) by (simp add: encode_rune_def q_def)
    moreover have "r mod 64 < 64" "q mod 64 < 64" by simp_all
    ultimately show ?thesis by (simp only:) (rule valid_3; linarith)
  next
    case 4
    define q where "q = r div 4096"
    have q: "r div 262144 = q div 64" "16 \<le> q" "q < 272"
      using 4 assms(1) by (auto simp: q_def div_mult2_eq [symmetric])
    moreover have "q = 64 * (q div 64) + q mod 64" "q mod 64 < 64" by simp_all
    ultimately have "q div 64 < 5" "q div 64 = 0 \<longrightarrow> 16 \<le> q mod 64" "q div 64 = 4 \<longrightarrow> q mod 64 < 16"
      by linarith+
    moreover have "encode_rune r = [char_of (0xF0 + q div 64), char_of (0x80 + q mod 64),
        char_of (0x80 + r div 64 mod 64), char_of (0x80 + r mod 64)]"
      using 4 q(1) by (simp add: encode_rune_def q_def)
    moreover have "r div 64 mod 64 < 64" "r mod 64 < 64" "q mod 64 < 64" by simp_all
    ultimately show ?thesis by (simp only:) (rule valid_4; linarith)
  qed
qed

lemma append_one [simp]: "(@) [c] = (#) c"
  by (rule ext) simp

lemma unquote_ascii:
  assumes "code_of c < 0x80"
  shows "unquote (encode_ascii c @ t) = map_option ((#) c) (unquote t)"
proof (cases "c = CHR 0x5C \<or> c = CHR 0x22 \<or> c = CHR 0x0A \<or> c = CHR 0x0D \<or> c = CHR 0x09")
  case True
  then show ?thesis by (auto simp: encode_ascii_def unquote.simps(2) escape_char_def)
next
  case False
  show ?thesis
  proof (cases "code_of c < 0x20 \<or> c = CHR ''<'' \<or> c = CHR ''>'' \<or> c = CHR ''&''")
    case True
    have "get_u4 (CHR ''0'' # CHR ''0'' # hex_digit (code_of c div 16) # hex_digit (code_of c) # t) = Some (code_of c, t)"
      using assms by (simp add: get_u4_hex)
    moreover have "encode_rune (code_of c) = [c]"
      using assms by (simp add: encode_rune_def code_of_def)
    ultimately show ?thesis
      using False True assms by (simp add: encode_ascii_def unquote.simps(2))
  next
    case plain: False
    then show ?thesis using False assms by (simp add: encode_ascii_def unquote.simps(2) rune_len_ascii)
  qed
qed

lemma unquote_rune:
  assumes "code_of a \<ge> 0x80" and "rune_len (a # u) \<noteq> 0"
  shows "unquote (take (rune_len (a # u)) (a # u) @ t) = map_option ((@) (take (rune_len (a # u)) (a # u))) (unquote t)"
proof -
  let ?n = "rune_len (a # u)"
  let ?x = "take ?n (a # u)"
  from assms obtain x' where x: "?x = a # x'" by (cases ?n) auto
  have r: "rune_len (?x @ t) = ?n" "length ?x = ?n" using rune_front [OF assms(1), of u] assms(2) by auto
  have "take (length (a # x')) ((a # x') @ t) = a # x'" "drop (length (a # x')) ((a # x') @ t) = t" by simp_all
  with r have "rune_len (a # x' @ t) = ?n" "take ?n (a # x' @ t) = a # x'" "drop ?n (a # x' @ t) = t"
    unfolding x by simp_all
  moreover have "a \<noteq> CHR 0x5C" "a \<noteq> CHR 0x22" using assms(1) by (auto simp: code_of_def)
  ultimately show ?thesis using assms by (simp add: x unquote.simps(2) [of a "x' @ t"])
qed

lemma unquote_u:
  "unquote (CHR 0x5C # ''u2028'' @ t) = map_option ((@) [CHR 0xE2, CHR 0x80, CHR 0xA8]) (unquote t)"
  "unquote (CHR 0x5C # ''u2029'' @ t) = map_option ((@) [CHR 0xE2, CHR 0x80, CHR 0xA9]) (unquote t)"
  by (simp_all add: unquote.simps(2) get_u4_hex encode_rune_def char_of_def bit_0)

lemma encode_ascii_Cons: "code_of a < 0x80 \<Longrightarrow> encode_bytes (a # u) = encode_ascii a @ encode_bytes u"
  by (subst encode_bytes.simps) simp

lemma take_3_rune:
  assumes "take 3 (a # u) = [CHR 0xE2, CHR 0x80, c]" "c = CHR 0xA8 \<or> c = CHR 0xA9"
  shows "rune_len (a # u) = 3"
proof -
  from assms(1) obtain v where "a # u = CHR 0xE2 # CHR 0x80 # c # v"
    by (metis append_Cons append_Nil append_take_drop_id)
  with assms(2) show ?thesis by (auto simp: rune_len_def between_def code_of_def)
qed

lemma encode_rune_Cons:
  assumes "code_of a \<ge> 0x80" "rune_len (a # u) \<noteq> 0"
  shows "encode_bytes (a # u) =
     (if take 3 (a # u) = [CHR 0xE2, CHR 0x80, CHR 0xA8] then CHR 0x5C # ''u2028''
      else if take 3 (a # u) = [CHR 0xE2, CHR 0x80, CHR 0xA9] then CHR 0x5C # ''u2029''
      else take (rune_len (a # u)) (a # u)) @ encode_bytes (drop (rune_len (a # u)) (a # u))"
  using assms take_3_rune [of a u]
  by (subst encode_bytes.simps) (auto simp del: take_Cons' drop_Cons' take_Suc_Cons drop_Suc_Cons)

lemma unquote_encoded:
  assumes "code_of a \<ge> 0x80" "rune_len (a # u) \<noteq> 0"
  shows "unquote (encode_bytes (a # u)) =
     map_option ((@) (take (rune_len (a # u)) (a # u))) (unquote (encode_bytes (drop (rune_len (a # u)) (a # u))))"
proof -
  let ?x = "take (rune_len (a # u)) (a # u)"
  let ?t = "encode_bytes (drop (rune_len (a # u)) (a # u))"
  consider c where "take 3 (a # u) = [CHR 0xE2, CHR 0x80, c]" "c = CHR 0xA8 \<or> c = CHR 0xA9"
    | "take 3 (a # u) \<noteq> [CHR 0xE2, CHR 0x80, CHR 0xA8]" "take 3 (a # u) \<noteq> [CHR 0xE2, CHR 0x80, CHR 0xA9]" by blast
  then show ?thesis
  proof cases
    case 1
    then have "?x = [CHR 0xE2, CHR 0x80, c]" by (simp only: take_3_rune)
    with 1 unquote_u [of ?t] show ?thesis unfolding encode_rune_Cons [OF assms] by auto
  next
    case 2
    then show ?thesis using unquote_rune [OF assms, of ?t] unfolding encode_rune_Cons [OF assms] by (simp only: if_False)
  qed
qed

lemma unquote_encode: "valid_utf8 s \<Longrightarrow> unquote (encode_bytes s) = Some s"
proof (induction s rule: valid_utf8.induct)
  case (1 s)
  show ?case
  proof (cases s)
    case Nil
    then show ?thesis by (simp add: encode_bytes.simps)
  next
    case (Cons a u)
    let ?n = "rune_len (a # u)"
    from Cons have r: "?n \<noteq> 0" and v: "valid_utf8 (drop ?n (a # u))"
      using "1.prems" valid_utf8.simps [of s] by (auto split: if_splits)
    with "1.IH" Cons have ih: "unquote (encode_bytes (drop ?n (a # u))) = Some (drop ?n (a # u))" by simp
    show ?thesis
    proof (cases "code_of a < 0x80")
      case True
      then show ?thesis using ih Cons by (simp add: encode_ascii_Cons unquote_ascii rune_len_ascii)
    next
      case False
      then have "unquote (encode_bytes (a # u)) = map_option ((@) (take ?n (a # u))) (unquote (encode_bytes (drop ?n (a # u))))"
        using unquote_encoded r by simp
      then show ?thesis using ih Cons by (simp del: take_Cons' drop_Cons')
    qed
  qed
qed

text \<open>What the reader returns is valid UTF-8.\<close>

lemma scan_hex_digits: "scan_hex n s = Inr (hs, t) \<Longrightarrow> list_all is_hex hs \<and> length hs = n"
  by (induction n s arbitrary: hs rule: scan_hex.induct) (auto split: if_splits sum.splits)

lemma hex_val_less: "is_hex c \<Longrightarrow> hex_val c < 16"
  by (auto simp: is_hex_def hex_val_def between_def)

lemma hex_number_less:
  "list_all is_hex hs \<Longrightarrow> foldl (\<lambda>r c. r * 16 + hex_val c) a hs < Suc a * 16 ^ length hs"
proof (induction hs arbitrary: a)
  case (Cons c hs)
  then have "foldl (\<lambda>r c. r * 16 + hex_val c) (a * 16 + hex_val c) hs < Suc (a * 16 + hex_val c) * 16 ^ length hs"
    by simp
  also have "\<dots> \<le> (Suc a * 16) * 16 ^ length hs"
    using hex_val_less [of c] Cons.prems by (intro mult_right_mono) auto
  finally show ?case by (simp add: algebra_simps)
qed simp

lemma get_u4_less: "get_u4 s = Some (r, t) \<Longrightarrow> r < 0x10000"
  using hex_number_less [of _ 0] by (fastforce simp: get_u4_def dest!: scan_hex_digits split: sum.splits)

lemma low_surrogate_less:
  "low_surrogate r s = Some (r', t) \<Longrightarrow> 0xD800 \<le> r \<Longrightarrow> 0x10000 \<le> r' \<and> r' < 0x110000"
  by (auto simp: low_surrogate_def split: list.splits if_splits option.splits)

lemma valid_rune:
  assumes "rune_len (c # s) \<noteq> 0"
  shows "valid_utf8 (take (rune_len (c # s)) (c # s))"
proof (cases "code_of c < 0x80")
  case True
  then show ?thesis by (simp add: rune_len_ascii valid_utf8_ascii)
next
  case False
  then have "rune_len (take (rune_len (c # s)) (c # s)) = rune_len (c # s)"
    using rune_front [of c s] assms by (metis append_Nil2 not_less)
  then show ?thesis using assms by (subst valid_utf8.simps) simp
qed

lemma valid_FFFD [simp]: "valid_utf8 (encode_rune 0xFFFD)"
  by (rule valid_encode_rune) simp_all

text \<open>What one character or escape of a literal is decoded to, and the rest of the literal.\<close>

definition unquotes_to :: "string \<Rightarrow> string \<Rightarrow> bool" where
  "unquotes_to t s \<longleftrightarrow> (\<exists>x w s'. unquote w = Some s' \<and> s = x @ s' \<and> valid_utf8 x \<and> length w \<le> length t)"

lemma unquotes_toI: "unquote w = Some s' \<Longrightarrow> s = x @ s' \<Longrightarrow> valid_utf8 x \<Longrightarrow> length w \<le> length t \<Longrightarrow> unquotes_to t s"
  unfolding unquotes_to_def by blast

lemma unquote_u_valid:
  assumes "unquote (CHR 0x5C # CHR ''u'' # u) = Some s"
  shows "unquotes_to u s"
proof -
  from assms obtain r v where r: "get_u4 u = Some (r, v)"
    by (auto simp: unquote.simps(2) split: option.splits)
  have len: "length v < length u" and less: "r < 0x10000"
    using get_u4_length [OF r] get_u4_less [OF r] .
  consider "\<not> (0xD800 \<le> r \<and> r < 0xE000)" | "0xD800 \<le> r \<and> r < 0xE000" "low_surrogate r v = None"
    | r' w where "0xD800 \<le> r \<and> r < 0xE000" "low_surrogate r v = Some (r', w)"
    by (cases "low_surrogate r v") auto
  then show ?thesis
  proof cases
    case 1
    with assms r have "\<exists>s'. unquote v = Some s' \<and> s = encode_rune r @ s'" by (auto simp: unquote.simps(2))
    moreover have "valid_utf8 (encode_rune r)" using 1 less by (intro valid_encode_rune) auto
    ultimately show ?thesis using len by (auto intro: unquotes_toI)
  next
    case 2
    with assms r have "\<exists>s'. unquote v = Some s' \<and> s = encode_rune 0xFFFD @ s'" by (auto simp: unquote.simps(2))
    then show ?thesis using len valid_FFFD by (auto intro: unquotes_toI)
  next
    case (3 r' w)
    with assms r have "\<exists>s'. unquote w = Some s' \<and> s = encode_rune r' @ s'" by (auto simp: unquote.simps(2))
    moreover have "valid_utf8 (encode_rune r')" using 3 low_surrogate_less by (intro valid_encode_rune) fastforce+
    moreover have "length w \<le> length u" using low_surrogate_length [OF 3(2)] len by simp
    ultimately show ?thesis by (auto intro: unquotes_toI)
  qed
qed

lemma unquote_step:
  assumes "unquote (c # t) = Some s"
  shows "unquotes_to t s"
proof (cases "c = CHR 0x5C")
  case False
  with assms obtain x w s' where "unquote w = Some s'" "s = x @ s'" "valid_utf8 x" "w = t \<or> w = drop (rune_len (c # t)) (c # t) \<and> rune_len (c # t) \<noteq> 0"
    by (auto simp: unquote.simps(2) [of c] valid_rune split: if_splits)
  moreover have "length (drop k (c # t)) \<le> length t" if "k \<noteq> 0" for k using that by simp
  ultimately show ?thesis unfolding unquotes_to_def by (metis le_refl)
next
  case esc: True
  with assms obtain e u where t: "t = e # u" by (auto simp: unquote.simps(2) split: list.splits)
  show ?thesis
  proof (cases "e = CHR ''u''")
    case True
    with assms esc t have "unquotes_to u s" by (simp add: unquote_u_valid)
    then show ?thesis unfolding unquotes_to_def t by (metis le_SucI length_Cons)
  next
    case False
    with assms esc t obtain x s' where x: "escape_char e = Some x" "unquote u = Some s'" "s = [x] @ s'"
      by (auto simp: unquote.simps(2) split: option.splits)
    have "code_of x < 0x80" using x(1) by (auto simp: escape_char_def code_of_def split: if_splits)
    then have "valid_utf8 [x]" by (simp add: valid_utf8_ascii)
    moreover have "length u \<le> length t" by (simp add: t)
    ultimately show ?thesis using x(2,3) by (auto intro: unquotes_toI)
  qed
qed

lemma unquote_valid: "unquote lit = Some s \<Longrightarrow> valid_utf8 s"
proof (induction "length lit" arbitrary: lit s rule: less_induct)
  case less
  show ?case
  proof (cases lit)
    case (Cons c t)
    with less.prems obtain x w s' where "unquote w = Some s'" "s = x @ s'" "valid_utf8 x" "length w \<le> length t"
      using unquote_step unfolding unquotes_to_def by blast
    with less.hyps [of w s'] Cons show ?thesis by (auto intro: valid_utf8_append)
  qed (use less.prems in simp)
qed

lemma unquoted_valid: "valid_utf8 (unquoted lit)"
  by (auto simp: unquoted_def intro: unquote_valid split: option.split)

lemma unquoted_encode [simp]: "valid_utf8 s \<Longrightarrow> unquoted (encode_bytes s) = s"
  by (simp add: unquoted_def unquote_encode)

text \<open>A string value that the encoder writes.\<close>

lemma json_string_text: "valid_utf8 s \<Longrightarrow> json_text (JStr s) (json_string s)"
  using json_text_elems_text_members_text.str [OF string_lit_encode [of s]] by (simp add: json_string_def)

text \<open>Every string in a value, keys included.\<close>

fun json_strings :: "json \<Rightarrow> string list" where
  "json_strings (JStr s) = [s]"
| "json_strings (JArr vs) = concat (map json_strings vs)"
| "json_strings (JObj ms) = concat (map (\<lambda>m. fst m # json_strings (snd m)) ms)"
| "json_strings _ = []"

definition json_valid :: "json \<Rightarrow> bool" where
  "json_valid v = list_all valid_utf8 (json_strings v)"

fun frame_valid :: "json_frame \<Rightarrow> bool" where
  "frame_valid (FArr vs) = list_all json_valid vs"
| "frame_valid (FKey ms) = list_all (\<lambda>m. valid_utf8 (fst m) \<and> json_valid (snd m)) ms"
| "frame_valid (FVal ms k) = (valid_utf8 k \<and> list_all (\<lambda>m. valid_utf8 (fst m) \<and> json_valid (snd m)) ms)"

fun mode_valid :: "json_mode \<Rightarrow> bool" where
  "mode_valid (EndValue v) = json_valid v"
| "mode_valid _ = True"

lemma json_valid_simps [simp]:
  "json_valid JNull" "json_valid (JBool b)" "json_valid (JNum n)" "json_valid (JStr s) = valid_utf8 s"
  "json_valid (JArr vs) = list_all json_valid vs"
  "json_valid (JObj ms) = list_all (\<lambda>m. valid_utf8 (fst m) \<and> json_valid (snd m)) ms"
  by (auto simp: json_valid_def list_all_iff)

lemma key_text_valid: "json_valid v \<Longrightarrow> valid_utf8 (key_text v)"
  by (cases v) simp_all

lemma scan_value_valid: "scan_value c s = Inr (v, t) \<Longrightarrow> json_valid v"
  by (auto simp: scan_value_def map_sum_Inr unquoted_valid split: if_splits)

lemma json_run_valid:
  "json_run m stk s = Inr (v, r) \<Longrightarrow> mode_valid m \<Longrightarrow> list_all frame_valid stk \<Longrightarrow> json_valid v"
proof (induction m stk s arbitrary: v r rule: json_run.induct)
  case (3 v' fr stk c s)
  show ?case
  proof (cases "json_space c")
    case True
    with "3.prems" "3.IH"(1) show ?thesis by (simp add: run_EndValue)
  next
    case False
    with "3.prems" show ?thesis
      unfolding run_EndValue
      by (cases fr) (auto simp: key_text_valid dest: "3.IH"(2-) [OF False] split: if_splits)
  qed
next
  case (5 stk c s)
  then show ?case
    by (cases stk) (auto simp: run_BeginStringOrEmpty split: if_splits)
next
  case (6 stk c s)
  then show ?case
    by (cases stk) (auto simp: run_BeginValueOrEmpty split: if_splits)
next
  case (4 stk c s)
  then show ?case
    by (auto simp: run_BeginString unquoted_valid split: if_splits sum.splits)
next
  case (7 stk c s)
  consider "json_space c" | "\<not> json_space c" "c = CHR ''{''" | "\<not> json_space c" "c = CHR ''[''"
    | "\<not> json_space c" "c \<noteq> CHR ''{''" "c \<noteq> CHR ''[''" by blast
  then show ?case
  proof cases
    case 1
    with 7 show ?thesis by (simp add: run_BeginValue)
  next
    case 2
    with "7.prems" "7.IH"(2) show ?thesis by (simp add: run_BeginValue split: if_splits)
  next
    case 3
    with "7.prems" "7.IH"(3) show ?thesis by (simp add: run_BeginValue split: if_splits)
  next
    case 4
    with "7.prems" obtain v' t where "scan_value c s = Inr (v', t)" "json_run (EndValue v') stk t = Inr (v, r)"
      by (auto simp: run_BeginValue split: sum.splits)
    with 4 "7.prems" "7.IH"(4) scan_value_valid show ?thesis by simp
  qed
qed (simp_all add: json_run.simps(1-6))

lemma json_parse_valid: "json_parse s = Inr v \<Longrightarrow> json_valid v"
  by (auto simp: json_parse_def dest!: json_run_valid split: sum.splits list.splits)

section \<open>Writing\<close>

text \<open>
  The compact text of a value, as \<open>json.Marshal\<close> writes it, and that it is a text of the value when
  the value has valid strings and no numbers.
\<close>

definition compact_member :: "string \<Rightarrow> string \<Rightarrow> string" where
  "compact_member k s = json_string k @ '':'' @ s"

fun compact :: "json \<Rightarrow> string" where
  "compact JNull = ''null''"
| "compact (JBool b) = (if b then ''true'' else ''false'')"
| "compact (JNum n) = n"
| "compact (JStr s) = json_string s"
| "compact (JArr vs) = ''['' @ Join (map compact vs) '','' @ '']''"
| "compact (JObj ms) = ''{'' @ Join (map (\<lambda>m. compact_member (fst m) (compact (snd m))) ms) '','' @ ''}''"

fun writable :: "json \<Rightarrow> bool" where
  "writable (JNum n) = False"
| "writable (JStr s) = valid_utf8 s"
| "writable (JArr vs) = list_all writable vs"
| "writable (JObj ms) = list_all (\<lambda>m. valid_utf8 (fst m) \<and> writable (snd m)) ms"
| "writable _ = True"

lemma compact_elems:
  assumes "vs \<noteq> []" "\<And>v. v \<in> set vs \<Longrightarrow> json_text v (compact v)"
  shows "elems_text vs (Join (map compact vs) '','')"
  using assms
proof (induction vs)
  case (Cons v vs)
  show ?case
  proof (cases vs)
    case Nil
    with Cons.prems elem [of "[]" v "compact v" "[]"] show ?thesis by simp
  next
    case (Cons v' vs')
    with Cons.IH Cons.prems elems [of "[]" v "compact v" "[]"] show ?thesis by (simp add: Join_Cons)
  qed
qed simp

lemma compact_members:
  assumes "ms \<noteq> []" "\<And>m. m \<in> set ms \<Longrightarrow> valid_utf8 (fst m) \<and> json_text (snd m) (compact (snd m))"
  shows "members_text ms (Join (map (\<lambda>m. compact_member (fst m) (compact (snd m))) ms) '','')"
  using assms
proof (induction ms)
  case (Cons m ms)
  obtain k v where m: "m = (k, v)" by (cases m)
  then have k: "valid_utf8 k" "json_text v (compact v)" using Cons.prems(2) [of m] by simp_all
  show ?case
  proof (cases ms)
    case Nil
    with k m member [of "[]" "encode_bytes k" "[]" "[]" v "compact v" "[]"] string_lit_encode show ?thesis
      by (simp add: compact_member_def json_string_def)
  next
    case (Cons m' ms')
    with k m Cons.IH Cons.prems members [of "[]" "encode_bytes k" "[]" "[]" v "compact v" "[]"] string_lit_encode
    show ?thesis by (simp add: compact_member_def json_string_def Join_Cons)
  qed
qed simp

lemma compact_text: "writable v \<Longrightarrow> json_text v (compact v)"
proof (induction v rule: compact.induct)
  case (5 vs)
  then show ?case
    using arr0 [of "[]"] arr [OF compact_elems [of vs]] by (cases "vs = []") (auto simp: list_all_iff)
next
  case (6 ms)
  then show ?case
    using obj0 [of "[]"] obj [OF compact_members [of ms]] by (cases "ms = []") (auto simp: list_all_iff)
qed (auto intro: json_text_elems_text_members_text.intros json_string_text)

end
