(* ===== verification/Go_Json_Decode.thy ===== *)
theory Go_Json_Decode
  imports Go_Json_Text Go_Strconv "HOL-Library.AList" "HOL-Library.List_Lexorder" "HOL-Library.Char_ord"
begin

text \<open>
  \<open>json.Unmarshal\<close> into the types that the driver uses: strings, numbers in strings (the option
  \<open>string\<close> of a field), slices, structures and maps. As in the library, a value of the wrong
  type is left out and its error is saved, the first one being the result, while a few errors end the
  decoding at once; in both cases the parts that were decoded stay. A decoder takes the context
  of error messages (the name of the structure and the path of fields), the value, what the target
  held before and the saved error; it returns the target, the saved error and the error that ends
  the decoding.
\<close>

section \<open>Results and errors\<close>

type_synonym json_ctx = "string \<times> string list"
type_synonym 'a decoded = "'a \<times> goerror option \<times> goerror option"
type_synonym 'a decoder = "json_ctx \<Rightarrow> json \<Rightarrow> 'a \<Rightarrow> goerror option \<Rightarrow> 'a decoded"

definition save_error :: "goerror option \<Rightarrow> goerror \<Rightarrow> goerror option" where
  "save_error sv e = (case sv of None \<Rightarrow> Some e | Some _ \<Rightarrow> sv)"

fun kind_name :: "json \<Rightarrow> string" where
  "kind_name JNull = ''null''"
| "kind_name (JBool _) = ''bool''"
| "kind_name (JNum _) = ''number''"
| "kind_name (JStr _) = ''string''"
| "kind_name (JArr _) = ''array''"
| "kind_name (JObj _) = ''object''"

text \<open>\<open>UnmarshalTypeError\<close> and the two errors of the option \<open>string\<close>.\<close>

definition type_error :: "json_ctx \<Rightarrow> string \<Rightarrow> string \<Rightarrow> goerror" where
  "type_error ctx val ty = ErrorString (''json: cannot unmarshal '' @ val @
     (if fst ctx \<noteq> [] \<or> Join (snd ctx) ''.'' \<noteq> [] then
        '' into Go struct field '' @ fst ctx @ ''.'' @ Join (snd ctx) ''.'' @ '' of type '' @ ty
      else '' into Go value of type '' @ ty))"

definition tag_error :: "(string \<Rightarrow> string) \<Rightarrow> string \<Rightarrow> string \<Rightarrow> goerror" where
  "tag_error q item ty =
     ErrorString (''json: invalid use of ,string struct tag, trying to unmarshal '' @ q item @ '' into '' @ ty)"

definition unquoted_error :: "string \<Rightarrow> goerror" where
  "unquoted_error ty =
     ErrorString (''json: invalid use of ,string struct tag, trying to unmarshal unquoted value into '' @ ty)"

section \<open>Decoders\<close>

definition wrong_type :: "string \<Rightarrow> 'a decoder" where
  "wrong_type ty ctx j old sv = (old, save_error sv (type_error ctx (kind_name j) ty), None)"

definition dec_string :: "string decoder" where
  "dec_string ctx j old sv = (case j of
     JNull \<Rightarrow> (old, sv, None)
   | JStr s \<Rightarrow> (s, sv, None)
   | _ \<Rightarrow> wrong_type ''string'' ctx j old sv)"

text \<open>A number in a string; \<open>ty\<close> is the type of the field and \<open>parse\<close> its parser.\<close>

definition quoted_ok :: "string \<Rightarrow> bool" where
  "quoted_ok item \<longleftrightarrow> 2 \<le> length item \<and> last item = CHR 0x22 \<and> unquote (butlast (tl item)) \<noteq> None"

definition store_quoted :: "(string \<Rightarrow> string) \<Rightarrow> string \<Rightarrow> (string \<Rightarrow> num_error + 'a) \<Rightarrow> json_ctx \<Rightarrow> string \<Rightarrow> 'a \<Rightarrow>
    goerror option \<Rightarrow> 'a decoded" where
  "store_quoted q ty parse ctx item old sv = (case item of
     [] \<Rightarrow> (old, save_error sv (tag_error q item ty), None)
   | c # _ \<Rightarrow>
       if c = CHR ''n'' then
         (if item \<noteq> ''null'' then (old, save_error sv (tag_error q item ty), None) else (old, sv, None))
       else if c = CHR ''t'' \<or> c = CHR ''f'' then (old, save_error sv (tag_error q item ty), None)
       else if c = CHR 0x22 then
         (if quoted_ok item then (old, save_error sv (type_error ctx ''string'' ty), None)
          else (old, sv, Some (tag_error q item ty)))
       else if c \<noteq> CHR ''-'' \<and> \<not> json_digit c then (old, sv, Some (tag_error q item ty))
       else (case parse item of
           Inl _ \<Rightarrow> (old, save_error sv (type_error ctx (''number '' @ item) ty), None)
         | Inr n \<Rightarrow> (n, sv, None)))"

definition dec_quoted :: "(string \<Rightarrow> string) \<Rightarrow> string \<Rightarrow> (string \<Rightarrow> num_error + 'a) \<Rightarrow> 'a decoder" where
  "dec_quoted q ty parse ctx j old sv = (case j of
     JNull \<Rightarrow> (old, sv, None)
   | JStr item \<Rightarrow> store_quoted q ty parse ctx item old sv
   | _ \<Rightarrow> (old, save_error sv (unquoted_error ty), None))"

definition parse_uint64 :: "string \<Rightarrow> num_error + uint64" where
  "parse_uint64 s = map_sum id of_nat (ParseUint s)"

text \<open>
  A field of a structure: its decoder works on the field. Keys are matched exactly or else
  under case folding, which for names in ASCII also identifies the Kelvin sign with \<open>k\<close> and the
  long s with \<open>s\<close>.
\<close>

type_synonym 'r json_field = "string \<times> 'r decoder"

definition field_dec :: "('r \<Rightarrow> 'a) \<Rightarrow> ('a \<Rightarrow> 'r \<Rightarrow> 'r) \<Rightarrow> 'a decoder \<Rightarrow> 'r decoder" where
  "field_dec get put d ctx j r sv = (case d ctx j (get r) sv of (x, sv', ab) \<Rightarrow> (put x r, sv', ab))"

fun fold_name :: "string \<Rightarrow> string" where
  "fold_name [] = []"
| "fold_name [c] = [to_lower c]"
| "fold_name [c, d] = (if c = CHR 0xC5 \<and> d = CHR 0xBF then ''s'' else to_lower c # fold_name [d])"
| "fold_name (c # d # e # s) =
     (if c = CHR 0xC5 \<and> d = CHR 0xBF then CHR ''s'' # fold_name (e # s)
      else if c = CHR 0xE2 \<and> d = CHR 0x84 \<and> e = CHR 0xAA then CHR ''k'' # fold_name s
      else to_lower c # fold_name (d # e # s))"

definition find_field :: "'r json_field list \<Rightarrow> string \<Rightarrow> 'r json_field option" where
  "find_field fs key = (case find (\<lambda>f. fst f = key) fs of
     Some f \<Rightarrow> Some f
   | None \<Rightarrow> find (\<lambda>f. fold_name (fst f) = fold_name key) fs)"

fun dec_members :: "string \<Rightarrow> 'r json_field list \<Rightarrow> string list \<Rightarrow> (string \<times> json) list \<Rightarrow> 'r \<Rightarrow> goerror option \<Rightarrow>
    'r decoded" where
  "dec_members st fs path [] r sv = (r, sv, None)"
| "dec_members st fs path ((k, j) # ms) r sv =
     (case find_field fs k of
        None \<Rightarrow> dec_members st fs path ms r sv
      | Some (n, d) \<Rightarrow>
          (case d (st, path @ [n]) j r sv of
             (r', sv', None) \<Rightarrow> dec_members st fs path ms r' sv'
           | (r', sv', Some e) \<Rightarrow> (r', sv', Some e)))"

definition dec_struct :: "string \<Rightarrow> string \<Rightarrow> 'r json_field list \<Rightarrow> 'r decoder" where
  "dec_struct st ty fs ctx j r sv = (case j of
     JNull \<Rightarrow> (r, sv, None)
   | JObj ms \<Rightarrow> dec_members st fs (snd ctx) ms r sv
   | _ \<Rightarrow> wrong_type ty ctx j r sv)"

text \<open>
  A slice is its memory and its length. Decoding an array into it reuses the elements that are
  there, also those between the length and the capacity; a null or an empty array drops them. The number is that of the
  elements the loop has come to.
\<close>

type_synonym 'a slice = "'a list \<times> nat"

definition slice_list :: "'a slice \<Rightarrow> 'a list" where
  "slice_list sl = take (snd sl) (fst sl)"

fun dec_elems :: "'a decoder \<Rightarrow> 'a \<Rightarrow> json_ctx \<Rightarrow> json list \<Rightarrow> 'a list \<Rightarrow> goerror option \<Rightarrow>
    ('a list \<times> nat) decoded" where
  "dec_elems d zero ctx [] mem sv = ((mem, 0), sv, None)"
| "dec_elems d zero ctx (j # js) mem sv =
     (case d ctx j (case mem of [] \<Rightarrow> zero | x # _ \<Rightarrow> x) sv of
        (x, sv', None) \<Rightarrow>
          (case dec_elems d zero ctx js (tl mem) sv' of ((xs, n), sv'', ab) \<Rightarrow> ((x # xs, Suc n), sv'', ab))
      | (x, sv', Some e) \<Rightarrow> ((x # tl mem, 1), sv', Some e))"

definition dec_slice :: "string \<Rightarrow> 'a decoder \<Rightarrow> 'a \<Rightarrow> 'a slice decoder" where
  "dec_slice ty d zero ctx j sl sv = (case j of
     JNull \<Rightarrow> (([], 0), sv, None)
   | JArr [] \<Rightarrow> (([], 0), sv, None)
   | JArr js \<Rightarrow>
       (case dec_elems d zero ctx js (fst sl) sv of
          ((mem, n), sv', None) \<Rightarrow> ((mem, n), sv', None)
        | ((mem, n), sv', Some e) \<Rightarrow> ((mem, max n (snd sl)), sv', Some e))
   | _ \<Rightarrow> wrong_type ty ctx j sl sv)"

text \<open>
  A map with string keys, as an association list with distinct keys; \<open>None\<close> is the nil map, which
  a null gives. Every element starts as the zero value.
\<close>

fun dec_entries :: "'a decoder \<Rightarrow> 'a \<Rightarrow> json_ctx \<Rightarrow> (string \<times> json) list \<Rightarrow> (string \<times> 'a) list \<Rightarrow> goerror option \<Rightarrow>
    (string \<times> 'a) list decoded" where
  "dec_entries d zero ctx [] m sv = (m, sv, None)"
| "dec_entries d zero ctx ((k, j) # ms) m sv =
     (case d ctx j zero sv of
        (x, sv', None) \<Rightarrow> dec_entries d zero ctx ms (AList.update k x m) sv'
      | (x, sv', Some e) \<Rightarrow> (m, sv', Some e))"

definition dec_map :: "string \<Rightarrow> 'a decoder \<Rightarrow> 'a \<Rightarrow> (string \<times> 'a) list option decoder" where
  "dec_map ty d zero ctx j m sv = (case j of
     JNull \<Rightarrow> (None, sv, None)
   | JObj ms \<Rightarrow>
       (case dec_entries d zero ctx ms (case m of None \<Rightarrow> [] | Some l \<Rightarrow> l) sv of (l, sv', ab) \<Rightarrow> (Some l, sv', ab))
   | _ \<Rightarrow> wrong_type ty ctx j m sv)"

section \<open>Unmarshal\<close>

definition decode_value :: "'a decoder \<Rightarrow> 'a \<Rightarrow> json \<Rightarrow> goerror option \<times> 'a" where
  "decode_value d x j = (case d ([], []) j x None of
     (y, sv, ab) \<Rightarrow> (case ab of Some e \<Rightarrow> (Some e, y) | None \<Rightarrow> (sv, y)))"

definition Unmarshal :: "(string \<Rightarrow> string) \<Rightarrow> 'a decoder \<Rightarrow> 'a \<Rightarrow> string \<Rightarrow> goerror option \<times> 'a" where
  "Unmarshal q d x s = (case json_parse s of
     Inl e \<Rightarrow> (Some (ErrorString (json_error_text q e)), x)
   | Inr j \<Rightarrow> decode_value d x j)"

text \<open>
  \<open>Decode\<close> of a \<open>json.Decoder\<close> on a stream: the content that can be read and the error that ends it,
  none for the end of the file. It reads one value and leaves the rest. At the end of
  the file one more blank may end the value; a value that is not finished is an unexpected end, an empty content
  the end of the stream. Before another error only an object, an array or a value with
  something behind it is finished.
\<close>

fun self_delimiting :: "json \<Rightarrow> bool" where
  "self_delimiting (JArr _) = True"
| "self_delimiting (JObj _) = True"
| "self_delimiting _ = False"

definition stream_value :: "(string \<Rightarrow> string) \<Rightarrow> string \<times> goerror option \<Rightarrow> goerror + json" where
  "stream_value q st = (case st of
     (s, None) \<Rightarrow>
       (case json_run BeginValue [] (s @ '' '') of
          Inl e \<Rightarrow>
            (let unfinished = (case e of JEof \<Rightarrow> True | JBad _ _ rest \<Rightarrow> rest = [])
             in Inl (if \<not> unfinished then ErrorString (json_error_text q e)
                     else if list_all json_space s then SysError EEOF ''EOF''
                     else ErrorString ''unexpected EOF''))
        | Inr (j, rest) \<Rightarrow> Inr j)
   | (s, Some rerr) \<Rightarrow>
       (case json_run BeginValue [] s of
          Inl JEof \<Rightarrow> Inl rerr
        | Inl e \<Rightarrow> Inl (ErrorString (json_error_text q e))
        | Inr (j, rest) \<Rightarrow> if rest = [] \<and> \<not> self_delimiting j then Inl rerr else Inr j))"

definition Decode :: "(string \<Rightarrow> string) \<Rightarrow> 'a decoder \<Rightarrow> 'a \<Rightarrow> string \<times> goerror option \<Rightarrow> goerror option \<times> 'a" where
  "Decode q d x st = (case stream_value q st of Inl e \<Rightarrow> (Some e, x) | Inr j \<Rightarrow> decode_value d x j)"

text \<open>A file that starts with a text of a value gives the value, whatever follows it.\<close>

lemma stream_text:
  assumes "json_text v s" "blank a" "json_depth v \<le> maxNestingDepth"
  shows "stream_value q (a @ s @ r, None) = Inr v"
  using run_text(1) [OF assms(1), of "[]" "r @ '' ''"] assms by (simp add: stream_value_def run_blank)

section \<open>Maps of strings\<close>

text \<open>
  \<open>map[string]string\<close>: its decoder and its encoder, which writes the keys in ascending order. The result of the
  encoder is decoded to the sorted list of the entries.
\<close>

type_synonym string_map = "(string \<times> string) list option"

definition dec_string_map :: "string_map decoder" where
  "dec_string_map = dec_map ''map[string]string'' dec_string []"

definition map_json :: "string_map \<Rightarrow> json" where
  "map_json m = (case m of None \<Rightarrow> JNull | Some l \<Rightarrow> JObj (map (\<lambda>(k, v). (k, JStr v)) (sort_key fst l)))"

definition Marshal_map :: "string_map \<Rightarrow> string" where
  "Marshal_map m = compact (map_json m)"

definition map_valid :: "(string \<times> string) list \<Rightarrow> bool" where
  "map_valid l \<longleftrightarrow> distinct (map fst l) \<and> list_all (\<lambda>(k, v). valid_utf8 k \<and> valid_utf8 v) l"

lemma distinct_sort_key: "distinct (map fst l) \<Longrightarrow> distinct (map fst (sort_key fst l))"
  by (simp add: distinct_map inj_on_def)

lemma fold_update_map_of: "map_of (fold (\<lambda>(k, v). AList.update k v) kvs m) = map_of m ++ map_of (rev kvs)"
  by (induction kvs arbitrary: m) (auto simp: update_conv')

lemma fold_update_distinct:
  "distinct (map fst m) \<Longrightarrow> distinct (map fst (fold (\<lambda>(k, v). AList.update k v) kvs m))"
  by (induction kvs arbitrary: m) (auto simp: distinct_update)

lemma distinct_map_of_rev: "distinct (map fst l) \<Longrightarrow> map_of (rev l) = map_of l"
  using map_of_inject_set [of "rev l" l] by (simp add: rev_map [symmetric])

lemma set_alist_update: "set (AList.update k v m) \<subseteq> insert (k, v) (set m)"
  by (induction m) auto

lemma map_valid_update:
  assumes "map_valid m" "valid_utf8 k" "valid_utf8 v"
  shows "map_valid (AList.update k v m)"
  using assms set_alist_update [of k v m]
  by (fastforce simp: map_valid_def list_all_iff distinct_update)

lemma map_valid_fold:
  "map_valid m \<Longrightarrow> list_all (\<lambda>(k, v). valid_utf8 k \<and> valid_utf8 v) kvs \<Longrightarrow>
     map_valid (fold (\<lambda>(k, v). AList.update k v) kvs m)"
  by (induction kvs arbitrary: m) (auto simp: map_valid_update)

text \<open>The sorted list is determined by the map.\<close>

lemma sorted_unique:
  assumes "distinct (map fst l)" "distinct (map fst l')" "map_of l = map_of l'"
  shows "sort_key fst l = sort_key fst (l' :: (string \<times> string) list)"
proof (rule map_sorted_distinct_set_unique)
  have s: "set l = set l'" using map_of_inject_set assms by blast
  then show "set (sort_key fst l) = set (sort_key fst l')" by simp
  show "inj_on fst (set (sort_key fst l) \<union> set (sort_key fst l'))"
    using assms(1) s by (simp add: distinct_map)
qed (use assms in \<open>simp_all add: distinct_sort_key\<close>)

lemma update_new: "k \<notin> set (map fst m) \<Longrightarrow> AList.update k v m = m @ [(k, v)]"
  by (induction m) auto

lemma dec_entries_strings:
  "distinct (map fst (m @ l)) \<Longrightarrow>
     dec_entries dec_string [] ctx (map (\<lambda>(k, v). (k, JStr v)) l) m None = (m @ l, None, None)"
  by (induction l arbitrary: m) (auto simp: dec_string_def update_new)

lemma map_of_sort_key: "distinct (map fst l) \<Longrightarrow> map_of (sort_key fst l) = map_of l"
  using map_of_inject_set [OF distinct_sort_key, of l l] by simp

lemma map_json_decoded:
  "distinct (map fst l) \<Longrightarrow> decode_value dec_string_map (Some []) (map_json (Some l)) = (None, Some (sort_key fst l))"
  using dec_entries_strings [of "[]" "sort_key fst l"] distinct_sort_key [of l]
  by (simp add: decode_value_def dec_string_map_def dec_map_def map_json_def)

lemma map_json_text: "map_valid l \<Longrightarrow> json_text (map_json (Some l)) (Marshal_map (Some l))"
  unfolding Marshal_map_def
  by (rule compact_text) (auto simp: map_json_def map_valid_def list_all_iff)

lemma map_json_depth: "json_depth (map_json m) \<le> maxNestingDepth"
proof -
  have "foldr max (map (\<lambda>m. json_depth (snd m)) (map (\<lambda>(k, v). (k, JStr v)) l)) 0 = 0" for l :: "(string \<times> string) list"
    by (induction l) auto
  then show ?thesis by (cases m) (simp_all add: map_json_def maxNestingDepth_def)
qed

lemma Unmarshal_Marshal_map:
  "map_valid l \<Longrightarrow> Unmarshal q dec_string_map (Some []) (Marshal_map (Some l)) = (None, Some (sort_key fst l))"
  using json_parse_text [OF map_json_text, of l "[]" "[]"] map_json_depth map_json_decoded
  by (simp add: Unmarshal_def map_valid_def)

lemma Decode_Marshal_map:
  "map_valid l \<Longrightarrow> Decode q dec_string_map (Some []) (Marshal_map (Some l) @ r, None) = (None, Some (sort_key fst l))"
  using stream_text [OF map_json_text, of l "[]" q r] map_json_depth map_json_decoded
  by (simp add: Decode_def map_valid_def)

end
