(* ===== verification/Utils_Alloc.thy ===== *)
theory Utils_Alloc
  imports Sample_Host Go_Json_Decode
begin

text \<open>
  The allocation records of \<open>pkg/utils/types.go\<close> and the annotations that hold them as JSON: the volume
  group and device of a persistent volume, and the allocations of the claims of a pod. An
  annotation is decoded by \<open>json.Unmarshal\<close>; the theorems say what every text of a record gives.
\<close>

section \<open>Records\<close>

record PVAllocatedInfo =
  VGName :: string
  DeviceName :: string
  VolumeType :: string

record PVCAllocateInfo =
  PVCName :: string
  PVCNameSpace :: string
  PVC_Info :: PVAllocatedInfo

text \<open>The map of the allocations, keyed by name space and name of the claim; none is the nil map.\<close>

record PodPVCAllocateInfo =
  PvcAllocates :: "(string \<times> PVCAllocateInfo) list option"

definition zero_PVAllocatedInfo :: PVAllocatedInfo where
  "zero_PVAllocatedInfo = \<lparr>VGName = [], DeviceName = [], VolumeType = []\<rparr>"

definition zero_PVCAllocateInfo :: PVCAllocateInfo where
  "zero_PVCAllocateInfo = \<lparr>PVCName = [], PVCNameSpace = [], PVC_Info = zero_PVAllocatedInfo\<rparr>"

section \<open>Decoders\<close>

definition PVAllocatedInfo_fields :: "PVAllocatedInfo json_field list" where
  "PVAllocatedInfo_fields =
     [(''vgName'', field_dec VGName (\<lambda>x r. r\<lparr>VGName := x\<rparr>) dec_string),
      (''deviceName'', field_dec DeviceName (\<lambda>x r. r\<lparr>DeviceName := x\<rparr>) dec_string),
      (''volumeType'', field_dec VolumeType (\<lambda>x r. r\<lparr>VolumeType := x\<rparr>) dec_string)]"

text \<open>
  The fields of the embedded structure are fields of the outer one: the tag has no name, and its
  option \<open>inline\<close> is not one that the package knows.
\<close>

definition PVCAllocateInfo_fields :: "PVCAllocateInfo json_field list" where
  "PVCAllocateInfo_fields =
     [(''pvcName'', field_dec PVCName (\<lambda>x r. r\<lparr>PVCName := x\<rparr>) dec_string),
      (''pvcNameSpace'', field_dec PVCNameSpace (\<lambda>x r. r\<lparr>PVCNameSpace := x\<rparr>) dec_string)] @
     map (\<lambda>(n, d). (n, field_dec PVC_Info (\<lambda>x r. r\<lparr>PVC_Info := x\<rparr>) d)) PVAllocatedInfo_fields"

definition PodPVCAllocateInfo_fields :: "PodPVCAllocateInfo json_field list" where
  "PodPVCAllocateInfo_fields =
     [(''pvcAllocates'', field_dec PvcAllocates (\<lambda>x r. r\<lparr>PvcAllocates := x\<rparr>)
        (dec_map ''map[string]utils.PVCAllocateInfo''
          (dec_struct ''PVCAllocateInfo'' ''utils.PVCAllocateInfo'' PVCAllocateInfo_fields) zero_PVCAllocateInfo))]"

definition Unmarshal_PVAllocatedInfo :: "(string \<Rightarrow> string) \<Rightarrow> string \<Rightarrow> goerror option \<times> PVAllocatedInfo" where
  "Unmarshal_PVAllocatedInfo q =
     Unmarshal q (dec_struct ''PVAllocatedInfo'' ''utils.PVAllocatedInfo'' PVAllocatedInfo_fields) zero_PVAllocatedInfo"

definition Unmarshal_PodPVCAllocateInfo :: "(string \<Rightarrow> string) \<Rightarrow> string \<Rightarrow> goerror option \<times> PodPVCAllocateInfo" where
  "Unmarshal_PodPVCAllocateInfo q =
     Unmarshal q (dec_struct ''PodPVCAllocateInfo'' ''utils.PodPVCAllocateInfo'' PodPVCAllocateInfo_fields)
       \<lparr>PvcAllocates = None\<rparr>"

section \<open>Annotations\<close>

definition AnnotationPVAllocatedInfoKey :: string where
  "AnnotationPVAllocatedInfoKey = ''csi.kubeservice.cn/pv-allocated''"

definition GetAllocatedInfoFromPVAnnotation ::
  "'w host \<Rightarrow> PersistentVolume option \<Rightarrow> goerror + PVAllocatedInfo option" where
  "GetAllocatedInfoFromPVAnnotation h pv =
     (case pv of None \<Rightarrow> Inr None | Some p \<Rightarrow>
       (case pv_Annotations p of None \<Rightarrow> Inr None | Some ann \<Rightarrow>
         (case ann AnnotationPVAllocatedInfoKey of
            None \<Rightarrow> Inr None
          | Some infoJSON \<Rightarrow>
              (case Unmarshal_PVAllocatedInfo (quote h) infoJSON of
                 (Some err, _) \<Rightarrow> Inl err
               | (None, info) \<Rightarrow> Inr (Some info)))))"

definition AnnotationPodPVCAllocatedNeedMigrateKey :: string where
  "AnnotationPodPVCAllocatedNeedMigrateKey = ''csi.kubeservice.cn/pod-pvc-migrate''"

definition GetAllocateInfoJSONFromPod :: "Pod option \<Rightarrow> string" where
  "GetAllocateInfoJSONFromPod pod =
     (case pod of None \<Rightarrow> [] | Some p \<Rightarrow>
       (case pod_Annotations p of None \<Rightarrow> [] | Some ann \<Rightarrow>
         (case ann AnnotationPodPVCAllocatedNeedMigrateKey of None \<Rightarrow> [] | Some v \<Rightarrow> v)))"

definition GetAllocateInfoFromPod :: "'w host \<Rightarrow> Pod option \<Rightarrow> goerror + PodPVCAllocateInfo option" where
  "GetAllocateInfoFromPod h pod =
     (let infoJson = GetAllocateInfoJSONFromPod pod
      in if infoJson = [] then Inr None
         else (case Unmarshal_PodPVCAllocateInfo (quote h) infoJson of
             (Some err, _) \<Rightarrow> Inl err
           | (None, info) \<Rightarrow> Inr (Some info)))"

section \<open>Texts of the records\<close>

definition alloc_members :: "PVAllocatedInfo \<Rightarrow> (string \<times> json) list" where
  "alloc_members i = [(''vgName'', JStr (VGName i)), (''deviceName'', JStr (DeviceName i)), (''volumeType'', JStr (VolumeType i))]"

definition claim_json :: "PVCAllocateInfo \<Rightarrow> json" where
  "claim_json c = JObj ([(''pvcName'', JStr (PVCName c)), (''pvcNameSpace'', JStr (PVCNameSpace c))] @ alloc_members (PVC_Info c))"

definition pod_json :: "(string \<times> PVCAllocateInfo) list \<Rightarrow> json" where
  "pod_json cs = JObj [(''pvcAllocates'', JObj (map (\<lambda>(k, c). (k, claim_json c)) cs))]"

lemma alloc_decoded:
  "dec_struct st ty PVAllocatedInfo_fields ctx (JObj (alloc_members i)) zero_PVAllocatedInfo None = (i, None, None)"
  by (simp add: dec_struct_def alloc_members_def PVAllocatedInfo_fields_def find_field_def field_dec_def dec_string_def
      zero_PVAllocatedInfo_def)

lemma claim_decoded:
  "dec_struct st ty PVCAllocateInfo_fields ctx (claim_json c) zero_PVCAllocateInfo None = (c, None, None)"
  by (simp add: dec_struct_def claim_json_def alloc_members_def PVCAllocateInfo_fields_def PVAllocatedInfo_fields_def
      find_field_def field_dec_def dec_string_def zero_PVCAllocateInfo_def zero_PVAllocatedInfo_def)

lemma claims_decoded:
  "dec_entries (dec_struct st ty PVCAllocateInfo_fields) zero_PVCAllocateInfo ctx (map (\<lambda>(k, c). (k, claim_json c)) cs) m None =
     (fold (\<lambda>(k, c). AList.update k c) cs m, None, None)"
  by (induction cs arbitrary: m) (auto simp: claim_decoded)

lemma pod_depth: "json_depth (pod_json cs) \<le> maxNestingDepth"
proof -
  have "foldr max (map (\<lambda>m. json_depth (snd m)) (map (\<lambda>(k, c). (k, claim_json c)) cs)) 0 \<le> 1"
    by (induction cs) (auto simp: claim_json_def alloc_members_def)
  then show ?thesis by (simp add: pod_json_def maxNestingDepth_def)
qed

lemma alloc_annotation:
  assumes "pv_Annotations pv = Some ann" and "ann AnnotationPVAllocatedInfoKey = Some (a @ t @ b)"
    and "json_text (JObj (alloc_members i)) t" and "blank a" and "blank b"
  shows "GetAllocatedInfoFromPVAnnotation h (Some pv) = Inr (Some i)"
proof -
  have "json_depth (JObj (alloc_members i)) \<le> maxNestingDepth"
    by (simp add: alloc_members_def maxNestingDepth_def)
  from json_parse_text [OF assms(3-5) this]
  have "Unmarshal_PVAllocatedInfo (quote h) (a @ t @ b) = (None, i)"
    by (simp add: Unmarshal_PVAllocatedInfo_def Unmarshal_def decode_value_def alloc_decoded)
  then show ?thesis using assms(1,2) by (simp add: GetAllocatedInfoFromPVAnnotation_def)
qed

section \<open>Theorems\<close>

text \<open>
  The allocations of a pod are read from every JSON text of them: each claim with its name, name space and the embedded allocation,
  under its key, the last of entries with the same key. Without the annotation, or with an empty one, there is no record and
  no error.
\<close>

theorem pod_allocations_read:
  assumes "json_text (pod_json cs) t" and "blank a" and "blank b"
  shows "(pod_Annotations pod = Some ann \<and> ann AnnotationPodPVCAllocatedNeedMigrateKey = Some (a @ t @ b) \<longrightarrow>
      (\<exists>m. GetAllocateInfoFromPod h (Some pod) = Inr (Some \<lparr>PvcAllocates = Some m\<rparr>) \<and> map_of m = map_of (rev cs))) \<and>
    (GetAllocateInfoJSONFromPod (Some pod) = [] \<longrightarrow> GetAllocateInfoFromPod h (Some pod) = Inr None)"
proof -
  have j: "json_parse (a @ t @ b) = Inr (pod_json cs)" using json_parse_text [OF assms pod_depth] .
  have "t \<noteq> []" using json_text_start [OF assms(1)] by auto
  moreover have "Unmarshal_PodPVCAllocateInfo (quote h) (a @ t @ b) =
      (None, \<lparr>PvcAllocates = Some (fold (\<lambda>(k, c). AList.update k c) cs [])\<rparr>)"
    by (simp add: Unmarshal_PodPVCAllocateInfo_def Unmarshal_def j decode_value_def pod_json_def dec_struct_def
        PodPVCAllocateInfo_fields_def find_field_def field_dec_def dec_map_def claims_decoded)
  moreover have "map_of (fold (\<lambda>(k, c). AList.update k c) cs []) = map_of (rev cs)"
    by (simp add: fold_update_map_of)
  ultimately show ?thesis by (auto simp: GetAllocateInfoFromPod_def GetAllocateInfoJSONFromPod_def Let_def)
qed

definition some_claim :: PVCAllocateInfo where
  "some_claim = \<lparr>PVCName = ''c'', PVCNameSpace = ''d'', PVC_Info = \<lparr>VGName = ''vg'', DeviceName = [], VolumeType = ''LVM''\<rparr>\<rparr>"

theorem pod_allocations_read_witness:
  "\<exists>m. GetAllocateInfoFromPod (quiet_host :: unit host) (Some \<lparr>pod_RuntimeClassName = None,
      pod_Annotations = Some [AnnotationPodPVCAllocatedNeedMigrateKey \<mapsto> compact (pod_json [(''d/c'', some_claim)])]\<rparr>) =
     Inr (Some \<lparr>PvcAllocates = Some m\<rparr>) \<and> map_of m = [''d/c'' \<mapsto> some_claim]"
proof -
  have "json_text (pod_json [(''d/c'', some_claim)]) (compact (pod_json [(''d/c'', some_claim)]))"
    by (rule compact_text)
       (simp add: pod_json_def claim_json_def alloc_members_def some_claim_def valid_utf8_ascii code_of_def)
  from pod_allocations_read [OF this, of "[]" "[]" "\<lparr>pod_RuntimeClassName = None, pod_Annotations =
      Some [AnnotationPodPVCAllocatedNeedMigrateKey \<mapsto> compact (pod_json [(''d/c'', some_claim)])]\<rparr>"
      "[AnnotationPodPVCAllocatedNeedMigrateKey \<mapsto> compact (pod_json [(''d/c'', some_claim)])]" "quiet_host :: unit host"]
  show ?thesis by simp
qed

end
