(* ===== verification/Utils_Util.thy ===== *)
theory Utils_Util
  imports Utils_Alloc
begin

text \<open>
  \<open>pkg/utils/util.go\<close>: running shell commands,
  file checks, mount checks by \<open>mount | grep\<close>, creating and mounting block targets, and reading
  the volume group of a persistent volume. A call of \<open>log\<close> has no effect on the model.
\<close>

unbundle bit_operations_syntax

section \<open>Shell commands\<close>

definition utils_NsenterCmd :: string where
  "utils_NsenterCmd = ''nsenter --mount=/proc/1/ns/mnt --ipc=/proc/1/ns/ipc --net=/proc/1/ns/net --uts=/proc/1/ns/uts ''"

definition Run :: "'w host \<Rightarrow> string \<Rightarrow> ('w, 'z, goerror + string) prog" where
  "Run h cmd = do {
     (out, err) \<leftarrow> CombinedOutput h ''sh'' [''-c'', cmd];
     case err of
       Some e \<Rightarrow> State_Monad.return (Inl (ErrorString (sprintf0 h
         (''Failed to run cmd: '' @ cmd @ '', with out: '' @ out @ '', with error: '' @ Error (quote h) e))))
     | None \<Rightarrow> State_Monad.return (Inr out)
   }"

lemma only_Run [trace_rules]:
  "(\<And>out err. P (ExecEv ''sh'' [''-c'', cmd] out err)) \<Longrightarrow> only P (Run h cmd)"
  unfolding Run_def by (intro trace_rules) auto

lemma guards_Run [trace_rules]:
  "(\<And>out err. \<not> bad (ExecEv ''sh'' [''-c'', cmd] out err)) \<Longrightarrow> guards bad ok (Run h cmd)"
  by (rule guards_of_only) (rule only_Run)

lemma produces_Run_bind [produce_rules]:
  assumes "\<And>out. produces (f (Inr out)) (\<lambda>b es. Q b (ExecEv ''sh'' [''-c'', cmd] out None # es))"
    and "\<And>out err m. produces (f (Inl m)) (\<lambda>b es. Q b (ExecEv ''sh'' [''-c'', cmd] out (Some err) # es))"
  shows "produces (State_Monad.bind (Run h cmd) f) Q"
proof (rule produces_bind)
  show "produces (Run h cmd) (\<lambda>r es. \<exists>out err. es = [ExecEv ''sh'' [''-c'', cmd] out err] \<and>
     (case err of None \<Rightarrow> r = Inr out | Some _ \<Rightarrow> \<exists>m. r = Inl m))"
    unfolding Run_def host_call_defs by (intro produce_rules) auto
qed (use assms in \<open>auto split: option.splits\<close>)

definition CreateDest :: "'w host \<Rightarrow> string \<Rightarrow> ('w, 'z, goerror option) prog" where
  "CreateDest h dest = do {
     r \<leftarrow> Lstat h dest;
     case r of
       Inl err \<Rightarrow> if IsNotExist err then MkdirAll h dest 511 else State_Monad.return (Some err)
     | Inr fi \<Rightarrow>
         if \<not> fi_IsDir fi
         then State_Monad.return (Some (ErrorString
           (dest @ '' already exist but it'' @ [CHR 0x27] @ ''s not a directory'')))
         else State_Monad.return None
   }"

definition CreateDestInHost :: "'w host \<Rightarrow> string \<Rightarrow> ('w, 'z, goerror option) prog" where
  "CreateDestInHost h dest = do {
     r \<leftarrow> Run h (utils_NsenterCmd @ '' mkdir -p '' @ dest);
     State_Monad.return (err_of r)
   }"

section \<open>Mount and file checks\<close>

definition IsLikelyNotMountPoint :: "'w host \<Rightarrow> string \<Rightarrow> ('w, 'z, bool \<times> goerror option) prog" where
  "IsLikelyNotMountPoint h file = do {
     st \<leftarrow> Stat h file;
     case st of
       Inl err \<Rightarrow> State_Monad.return (True, Some err)
     | Inr stat \<Rightarrow> do {
         rt \<leftarrow> Stat h (Dir (TrimSuffix file ''/''));
         case rt of
           Inl err \<Rightarrow> State_Monad.return (True, Some err)
         | Inr rootStat \<Rightarrow>
             if fi_Dev stat \<noteq> fi_Dev rootStat then State_Monad.return (False, None)
             else State_Monad.return (True, None)
       }
   }"

definition mount_listed :: "'w host \<Rightarrow> string \<Rightarrow> ('w, 'z, bool) prog" where
  "mount_listed h cmd = do {
     r \<leftarrow> Run h cmd;
     case r of
       Inl err \<Rightarrow> State_Monad.return False
     | Inr out \<Rightarrow> if TrimSpace out = ''0'' then State_Monad.return False else State_Monad.return True
   }"

definition utils_IsMounted :: "'w host \<Rightarrow> string \<Rightarrow> ('w, 'z, bool) prog" where
  "utils_IsMounted h mountPath =
     mount_listed h (''mount | grep '' @ mountPath @ '' | grep -v grep | wc -l'')"

definition IsMountedInHost :: "'w host \<Rightarrow> string \<Rightarrow> ('w, 'z, bool) prog" where
  "IsMountedInHost h mountPath =
     mount_listed h (utils_NsenterCmd @ '' mount | grep '' @ mountPath @ '' | grep -v grep | wc -l'')"

definition UmountInHost :: "'w host \<Rightarrow> string \<Rightarrow> ('w, 'z, goerror option) prog" where
  "UmountInHost h mountPath = do {
     r \<leftarrow> Run h (utils_NsenterCmd @ '' umount '' @ mountPath);
     State_Monad.return (err_of r)
   }"

definition Umount :: "'w host \<Rightarrow> string \<Rightarrow> ('w, 'z, goerror option) prog" where
  "Umount h mountPath = do {
     r \<leftarrow> Run h (''umount '' @ mountPath);
     State_Monad.return (err_of r)
   }"

definition IsFileExisting :: "'w host \<Rightarrow> string \<Rightarrow> ('w, 'z, bool) prog" where
  "IsFileExisting h filename = do {
     r \<leftarrow> Stat h filename;
     State_Monad.return (case r of
         Inr _ \<Rightarrow> True
       | Inl err \<Rightarrow> if IsNotExist err then False else True)
   }"

definition IsDir :: "'w host \<Rightarrow> string \<Rightarrow> ('w, 'z, bool) prog" where
  "IsDir h path = do {
     r \<leftarrow> Stat h path;
     State_Monad.return (case r of Inl err \<Rightarrow> False | Inr s \<Rightarrow> fi_IsDir s)
   }"

definition GetFileContent :: "'w host \<Rightarrow> string \<Rightarrow> ('w, 'z, string) prog" where
  "GetFileContent h fileName = do {
     let volumeFile = path_Join [fileName];
     ex \<leftarrow> IsFileExisting h volumeFile;
     if \<not> ex then State_Monad.return []
     else do {
       r \<leftarrow> ReadFile h volumeFile;
       State_Monad.return (case r of Inl err \<Rightarrow> [] | Inr value \<Rightarrow> TrimSpace value)
     }
   }"

definition IsDirTmpfs :: "'w host \<Rightarrow> string \<Rightarrow> ('w, 'z, bool) prog" where
  "IsDirTmpfs h path = do {
     r \<leftarrow> Run h (''findmnt '' @ path @ '' -o FSTYPE -n'');
     State_Monad.return (case r of Inl err \<Rightarrow> False | Inr fsType \<Rightarrow> TrimSpace fsType = ''tmpfs'')
   }"

text \<open>\<open>Run\<close> returns the empty string as its output when it fails.\<close>

definition IsHostFileExist :: "'w host \<Rightarrow> string \<Rightarrow> ('w, 'z, bool) prog" where
  "IsHostFileExist h path = do {
     r \<leftarrow> Run h (Join [utils_NsenterCmd, ''stat'', path] '' '');
     let out = (case r of Inl _ \<Rightarrow> [] | Inr x \<Rightarrow> x);
     if err_of r \<noteq> None \<and> Contains out ''No such file or directory''
     then State_Monad.return False
     else State_Monad.return True
   }"

text \<open>So the text that the function looks for is never there, and it answers true for every path.\<close>

theorem host_file_always_exists: "result (IsHostFileExist h path) s"
  by (auto simp: IsHostFileExist_def Run_def result_def host_call_defs Contains_iff split: prod.splits option.splits)

definition IsKataInstall :: "'w host \<Rightarrow> ('w, 'z, bool) prog" where
  "IsKataInstall h = do {
     a \<leftarrow> IsFileExisting h ''/host/etc/kata-containers'';
     if a then State_Monad.return True
     else do {
       b \<leftarrow> IsFileExisting h ''/host/etc/kata-containers2'';
       if b then State_Monad.return True else State_Monad.return False
     }
   }"

definition IsPathAvailiable :: "'w host \<Rightarrow> string \<Rightarrow> ('w, 'z, goerror option) prog" where
  "IsPathAvailiable h path = do {
     o_err \<leftarrow> Open h path;
     case o_err of
       Some err \<Rightarrow> State_Monad.return (Some (ErrorString
         (''Open Path ('' @ path @ '') with error: '' @ Error (quote h) err @ '' '')))
     | None \<Rightarrow> do {
         r_err \<leftarrow> Readdir1 h path;
         Close h path;
         case r_err of
           Some err \<Rightarrow>
             if \<not> is_EOF err then State_Monad.return (Some (ErrorString
               (''Read Path ('' @ path @ '') with error: '' @ Error (quote h) err @ '' '')))
             else State_Monad.return None
         | None \<Rightarrow> State_Monad.return None
       }
   }"

text \<open>\<open>(st.Mode & unix.S_IFMT) == unix.S_IFBLK\<close> with the Linux values of the masks.\<close>

definition IsBlockDevice :: "'w host \<Rightarrow> string \<Rightarrow> ('w, 'z, goerror + bool) prog" where
  "IsBlockDevice h fullPath = do {
     r \<leftarrow> UnixStat h fullPath;
     State_Monad.return (case r of
         Inl err \<Rightarrow> Inl err
       | Inr mode \<Rightarrow> Inr (mode AND 0xF000 = 0x6000))
   }"

section \<open>Block targets\<close>

text \<open>The text of the error of a failed mount command.\<close>

definition mount_failed :: "'w host \<Rightarrow> string \<Rightarrow> string \<Rightarrow> string list \<Rightarrow> string \<Rightarrow> goerror \<Rightarrow> goerror" where
  "mount_failed h verb cmd args out e = ErrorString
     (verb @ '' failed: '' @ Error (quote h) e @ '' cmd: '' @ [CHR 0x27] @ cmd @ '' '' @ Join args '' '' @
      [CHR 0x27] @ '' output: '' @ quote h out)"

definition utils_MountBlock :: "'w host \<Rightarrow> string \<Rightarrow> string \<Rightarrow> string list \<Rightarrow> ('w, 'z, goerror option) prog" where
  "utils_MountBlock h source target opts =
     (if source = [] then
        State_Monad.return (Some (ErrorString ''source is not specified for mounting the volume''))
      else if target = [] then
        State_Monad.return (Some (ErrorString ''target is not specified for mounting the volume''))
      else do {
        let mountArgs = (if length opts > 0 then [''-o'', Join opts '',''] else []) @ [source] @ [target];
        c_err \<leftarrow> OpenFile h target ''O_RDWR|O_CREATE|O_TRUNC'' 438;
        case c_err of
          Some err \<Rightarrow> State_Monad.return (Some err)
        | None \<Rightarrow> do {
            (out, err) \<leftarrow> CombinedOutput h ''mount'' mountArgs;
            case err of
              Some e \<Rightarrow> State_Monad.return (Some (mount_failed h ''mounting'' ''mount'' mountArgs out e))
            | None \<Rightarrow> State_Monad.return None
          }
      })"

text \<open>
  The two \<open>EnsureBlock\<close> functions (here and in \<open>mounter.go\<close>) differ in the texts of their errors only,
  which are given as functions. The error of \<open>os.Remove\<close> is ignored.
\<close>

definition ensure_block ::
  "'w host \<Rightarrow> (string \<Rightarrow> string) \<Rightarrow> (string \<Rightarrow> string) \<Rightarrow> string \<Rightarrow> ('w, 'z, goerror option) prog" where
  "ensure_block h create_text close_text target = do {
     l \<leftarrow> Lstat h target;
     if (case l of Inl err \<Rightarrow> \<not> IsNotExist err | Inr _ \<Rightarrow> False)
     then State_Monad.return (err_of l)
     else do {
       (if (case l of Inl _ \<Rightarrow> False | Inr fi \<Rightarrow> fi_IsDir fi)
        then do { Remove h target; State_Monad.return () } else State_Monad.return ());
       o_err \<leftarrow> OpenFile h target ''O_CREATE|O_RDWR'' 488;
       case o_err of
         Some err \<Rightarrow> State_Monad.return (Some (ErrorString (create_text (Error (quote h) err))))
       | None \<Rightarrow> do {
           c_err \<leftarrow> Close h target;
           case c_err of
             Some err \<Rightarrow> State_Monad.return (Some (ErrorString (close_text (Error (quote h) err))))
           | None \<Rightarrow> State_Monad.return None
         }
     }
   }"

definition utils_EnsureBlock :: "'w host \<Rightarrow> string \<Rightarrow> ('w, 'z, goerror option) prog" where
  "utils_EnsureBlock h target = ensure_block h
     (\<lambda>e. ''failed to create block:'' @ target @ '' with error: '' @ e)
     (\<lambda>e. ''failed to close targetPath:'' @ target @ '' with error: '' @ e) target"

section \<open>Names and parameters\<close>

definition GetRegionIDAndInstanceID :: "string \<Rightarrow> goerror + string \<times> string" where
  "GetRegionIDAndInstanceID nodeName =
     (let strs = SplitN2 nodeName ''.''
      in if length strs < 2
         then Inl (ErrorString ''failed to get regionID and instanceId from nodeName'')
         else Inr (strs ! 0, strs ! 1))"

text \<open>The regular expression \<open>^[A-Za-z0-9=._@:~/-]*$\<close>.\<close>

definition param_char :: "char \<Rightarrow> bool" where
  "param_char c \<longleftrightarrow> is_alnum c \<or> c \<in> set ''=._@:~/-''"

fun CheckParameterValidate :: "string list \<Rightarrow> bool" where
  "CheckParameterValidate [] = True"
| "CheckParameterValidate (input # inputs) =
     (if \<not> list_all param_char input then False else CheckParameterValidate inputs)"

definition GetPvNameFormPodMnt :: "string \<Rightarrow> string" where
  "GetPvNameFormPodMnt mntPath =
     (if mntPath = [] then []
      else if HasSuffix mntPath ''/mount'' then Base (take (length mntPath - 6) mntPath)
      else [])"

section \<open>The volume group of a persistent volume\<close>

text \<open>
  With a nil \<open>pv\<close> the function dereferences it (\<open>pv.Name\<close>) in the arguments of its log call.
\<close>

definition GetVGNameFromCsiPV :: "'w host \<Rightarrow> PersistentVolume option \<Rightarrow> string outcome" where
  "GetVGNameFromCsiPV h pv =
     (let alloc = GetAllocatedInfoFromPVAnnotation h pv;
          named = (case alloc of
                     Inl err \<Rightarrow> None
                   | Inr None \<Rightarrow> None
                   | Inr (Some info) \<Rightarrow> if VGName info \<noteq> [] then Some (VGName info) else None)
      in (case named of
            Some vg \<Rightarrow> Done vg
          | None \<Rightarrow>
              (case pv of
                 None \<Rightarrow> Panic ''nil pointer dereference''
               | Some p \<Rightarrow>
                   (case pv_CSI p of
                      None \<Rightarrow> Done []
                    | Some attrs \<Rightarrow>
                        (case attrs ''vgName'' of Some v \<Rightarrow> Done v | None \<Rightarrow> Done [])))))"

text \<open>
  The volume group of a persistent volume is the one that its allocation annotation names, for every JSON text of the annotation;
  with an annotation that names none, or without one, it is the attribute \<open>vgName\<close> of the volume, or empty.
\<close>

theorem vg_name_of_volume:
  assumes "json_text (JObj (alloc_members i)) t" and "blank a" and "blank b"
  shows "(pv_Annotations pv = Some ann \<and> ann AnnotationPVAllocatedInfoKey = Some (a @ t @ b) \<and> VGName i \<noteq> [] \<longrightarrow>
      GetVGNameFromCsiPV h (Some pv) = Done (VGName i)) \<and>
    (pv_Annotations pv = None \<or>
        (\<exists>ann. pv_Annotations pv = Some ann \<and> (ann AnnotationPVAllocatedInfoKey = None \<or>
          ann AnnotationPVAllocatedInfoKey = Some (a @ t @ b) \<and> VGName i = [])) \<longrightarrow>
      GetVGNameFromCsiPV h (Some pv) =
        Done (case pv_CSI pv of None \<Rightarrow> [] | Some attrs \<Rightarrow> (case attrs ''vgName'' of None \<Rightarrow> [] | Some v \<Rightarrow> v)))"
proof -
  have "GetAllocatedInfoFromPVAnnotation h (Some pv) = Inr (Some i)"
    if "pv_Annotations pv = Some ann" "ann AnnotationPVAllocatedInfoKey = Some (a @ t @ b)" for ann
    using alloc_annotation [OF that assms] .
  moreover have "GetAllocatedInfoFromPVAnnotation h (Some pv) = Inr None"
    if "pv_Annotations pv = None \<or> (\<exists>ann. pv_Annotations pv = Some ann \<and> ann AnnotationPVAllocatedInfoKey = None)"
    using that by (auto simp: GetAllocatedInfoFromPVAnnotation_def)
  ultimately show ?thesis by (auto simp: GetVGNameFromCsiPV_def Let_def split: option.split)
qed

definition some_alloc :: PVAllocatedInfo where
  "some_alloc = \<lparr>VGName = ''vg0'', DeviceName = [], VolumeType = ''LVM''\<rparr>"

theorem vg_name_of_volume_witness:
  "GetVGNameFromCsiPV (quiet_host :: unit host) (Some (some_pv\<lparr>pv_Annotations :=
     Some [AnnotationPVAllocatedInfoKey \<mapsto> compact (JObj (alloc_members some_alloc))]\<rparr>)) = Done ''vg0''"
proof -
  have "json_text (JObj (alloc_members some_alloc)) (compact (JObj (alloc_members some_alloc)))"
    by (rule compact_text) (simp add: alloc_members_def some_alloc_def valid_utf8_ascii code_of_def)
  from vg_name_of_volume [OF this, of "[]" "[]" "some_pv\<lparr>pv_Annotations :=
      Some [AnnotationPVAllocatedInfoKey \<mapsto> compact (JObj (alloc_members some_alloc))]\<rparr>"
      "[AnnotationPVAllocatedInfoKey \<mapsto> compact (JObj (alloc_members some_alloc))]" "quiet_host :: unit host"]
  show ?thesis by (simp add: some_alloc_def)
qed

end
