(* ===== verification/Lvm_Util.thy ===== *)
theory Lvm_Util
  imports Utils_Util
begin

text \<open>
  \<open>pkg/csi/lvm/util.go\<close>: the metadata service, formatting a device and detecting its file
  system, and finding or creating a volume group with shell pipelines.
\<close>

definition NsenterCmd :: string where
  "NsenterCmd = ''/nsenter --mount=/proc/1/ns/mnt''"

definition MetadataURL :: string where
  "MetadataURL = ''http://100.100.100.200/latest/meta-data/''"

definition ErrParse :: goerror where
  "ErrParse = ErrorString ''Cannot parse output of blkid''"

definition GetMetaData :: "'w host \<Rightarrow> string \<Rightarrow> ('w, 'z, string) prog" where
  "GetMetaData h resource = do {
     r \<leftarrow> HttpGet h (MetadataURL @ resource);
     State_Monad.return (case r of Inl err \<Rightarrow> [] | Inr body \<Rightarrow> body)
   }"

definition formatDevice :: "'w host \<Rightarrow> string \<Rightarrow> string \<Rightarrow> ('w, 'z, goerror option) prog" where
  "formatDevice h devicePath fstype = do {
     (output, err) \<leftarrow> CombinedOutput h ''mkfs'' [''-t'', fstype, devicePath];
     case err of
       Some e \<Rightarrow> State_Monad.return (Some (ErrorString (''FormatDevice error: '' @ output)))
     | None \<Rightarrow> State_Monad.return None
   }"

fun blkid_type :: "string list \<Rightarrow> goerror + string" where
  "blkid_type [] = Inl ErrParse"
| "blkid_type (line # lines) =
     (let fields = Split (TrimSpace line) ''=''
      in if length fields \<noteq> 2 then Inl ErrParse
         else if fields ! 0 = ''TYPE'' then Inr (fields ! 1)
         else blkid_type lines)"

definition checkFSType :: "'w host \<Rightarrow> string \<Rightarrow> ('w, 'z, goerror + string) prog" where
  "checkFSType h devicePath = do {
     (output, err) \<leftarrow> CombinedOutput h ''file'' [''-bsL'', devicePath];
     case err of
       Some e \<Rightarrow> State_Monad.return (Inl e)
     | None \<Rightarrow>
         if TrimSpace output = ''data'' then State_Monad.return (Inr [])
         else do {
           (output2, err2) \<leftarrow> CombinedOutput h ''blkid'' [''-c'', ''/dev/null'', ''-o'', ''export'', devicePath];
           case err2 of
             Some e \<Rightarrow> State_Monad.return (Inl e)
           | None \<Rightarrow> State_Monad.return (blkid_type (Split output2 [CHR 0x0A]))
         }
   }"

definition vg_count_cmd :: "string \<Rightarrow> string" where
  "vg_count_cmd vgName = NsenterCmd @ '' vgdisplay '' @ vgName @ '' | grep '' @ [CHR 0x27] @ ''VG Name'' @
     [CHR 0x27] @ '' | grep '' @ vgName @ '' | grep -v grep | wc -l''"

definition isVgExist :: "'w host \<Rightarrow> string \<Rightarrow> ('w, 'z, goerror + bool) prog" where
  "isVgExist h vgName = do {
     r \<leftarrow> Run h (vg_count_cmd vgName);
     State_Monad.return (case r of
         Inl err \<Rightarrow> Inl err
       | Inr vgline \<Rightarrow> if TrimSpace vgline = ''1'' then Inr True else Inr False)
   }"

definition getLocalDeviceNum :: "goerror + int" where
  "getLocalDeviceNum = Inr 0"

definition DeviceChars :: "string list" where
  "DeviceChars = map (\<lambda>c. [c]) ''bcdefghijklmnopqrstuvwxyz''"

text \<open>The loop that checks every local device before \<open>vgcreate\<close>.\<close>

fun check_devices :: "'w host \<Rightarrow> string list \<Rightarrow> ('w, 'z, goerror option) prog" where
  "check_devices h [] = State_Monad.return None"
| "check_devices h (devicePath # ds) = do {
     ex \<leftarrow> IsFileExisting h devicePath;
     if \<not> ex then State_Monad.return (Some (StatusError Internal (''PV is Not exit: '' @ devicePath)))
     else do {
       r \<leftarrow> Run h (NsenterCmd @ '' pvdisplay '' @ devicePath @ '' | grep '' @ [CHR 0x27] @ ''VG Name'' @
             [CHR 0x27] @ '' | grep -v grep | awk '' @ [CHR 0x27] @ ''{print $3}'' @ [CHR 0x27]);
       case r of
         Inl err \<Rightarrow> State_Monad.return (Some err)
       | Inr existVgName \<Rightarrow> check_devices h ds
     }
   }"

text \<open>
  The device list: names \<open>vdb\<close>, \<open>vdc\<close>, \<open>\<dots>\<close> from the position of \<open>b\<close> up to the number of local
  devices. \<open>getLocalDeviceNum\<close> returns the constant 0, so the indices stay inside \<open>DeviceChars\<close>.
\<close>

definition local_device_list :: "int \<Rightarrow> string list" where
  "local_device_list localDeviceNum =
     (let deviceStartWith = ''vdb'';
          deviceNameLen = length deviceStartWith;
          deviceStartChar = drop (deviceNameLen - 1) deviceStartWith;
          deviceStartIndex = foldl (\<lambda>i index. if deviceStartChar = DeviceChars ! index then index else i) 0 [0..<15];
          deviceNamePrefix = take (deviceNameLen - 1) deviceStartWith
      in map (\<lambda>i. path_Join [''/dev'', deviceNamePrefix @ DeviceChars ! i]) [deviceStartIndex..<nat localDeviceNum])"

definition createVG :: "'w host \<Rightarrow> string \<Rightarrow> ('w, 'z, goerror + int) prog" where
  "createVG h vgName = do {
     v \<leftarrow> Run h (vg_count_cmd vgName);
     case v of
       Inl err \<Rightarrow> State_Monad.return (Inl err)
     | Inr vgline \<Rightarrow>
         if TrimSpace vgline = ''1'' then do {
           p \<leftarrow> Run h (NsenterCmd @ '' vgdisplay '' @ vgName @ '' | grep '' @ [CHR 0x27] @ ''Cur PV'' @ [CHR 0x27] @
                 '' | grep -v grep | awk '' @ [CHR 0x27] @ ''{print $3}'' @ [CHR 0x27]);
           case p of
             Inl err \<Rightarrow> State_Monad.return (Inl err)
           | Inr pvNumStr \<Rightarrow> State_Monad.return (Atoi (TrimSpace pvNumStr))
         }
         else (case getLocalDeviceNum of
             Inl err \<Rightarrow> State_Monad.return (Inl (StatusError Internal ''Get Local Disk Number Error''))
           | Inr localDeviceNum \<Rightarrow>
               if localDeviceNum < 1 then
                 State_Monad.return (Inl (StatusError Internal ''VG not exist, and also not local disk exist''))
               else do {
                 let localDeviceList = local_device_list localDeviceNum;
                 c \<leftarrow> check_devices h localDeviceList;
                 case c of
                   Some err \<Rightarrow> State_Monad.return (Inl err)
                 | None \<Rightarrow> do {
                     a \<leftarrow> Run h (NsenterCmd @ '' vgcreate '' @ vgName @ '' '' @ Join localDeviceList '' '');
                     case a of
                       Inl err \<Rightarrow> State_Monad.return (Inl err)
                     | Inr _ \<Rightarrow> State_Monad.return (Inr localDeviceNum)
                   }
               })
   }"

section \<open>Calls\<close>

text \<open>Formatting programs, and the replies that show a device without a file system.\<close>

fun is_mkfs :: "event \<Rightarrow> bool" where
  "is_mkfs (ExecEv p _ _ _) = HasPrefix p ''mkfs''"
| "is_mkfs _ = False"

fun blank_ev :: "string \<Rightarrow> event \<Rightarrow> bool" where
  "blank_ev dev (ExecEv p args out err) \<longleftrightarrow> err = None \<and>
     (p = ''file'' \<and> args = [''-bsL'', dev] \<and> TrimSpace out = ''data'' \<or>
      p = ''blkid'' \<and> args = [''-c'', ''/dev/null'', ''-o'', ''export'', dev] \<and>
        blkid_type (Split out [CHR 0x0A]) = Inr [])"
| "blank_ev dev _ = False"

lemma is_mkfs_exec [simp]: "is_exec p e \<Longrightarrow> \<not> HasPrefix p ''mkfs'' \<Longrightarrow> \<not> is_mkfs e"
  by (cases e) auto

lemma checkFSType_blank:
  "produces (checkFSType h dev) (\<lambda>r es. list_all (\<lambda>e. \<not> is_mkfs e) es \<and>
     (r = Inr [] \<longrightarrow> list_ex (blank_ev dev) es))"
  unfolding checkFSType_def host_call_defs by (intro produce_rules) (auto simp: HasPrefix_def)

lemma checkFSType_only:
  "(\<And>out err. P (ExecEv ''file'' [''-bsL'', dev] out err)) \<Longrightarrow>
   (\<And>out err. P (ExecEv ''blkid'' [''-c'', ''/dev/null'', ''-o'', ''export'', dev] out err)) \<Longrightarrow>
   only P (checkFSType h dev)"
  unfolding checkFSType_def by (intro trace_rules) auto

text \<open>A call of the shell, of the API server or of \<open>stat\<close>: all that creating a volume needs.\<close>

fun shell_or_query :: "event \<Rightarrow> bool" where
  "shell_or_query (ExecEv p args _ _) = (p = ''sh'')"
| "shell_or_query (StatEv _ _) = True"
| "shell_or_query (GetPVEv _ _) = True"
| "shell_or_query _ = False"

lemma createVG_calls: "only shell_or_query (createVG h vg)"
proof -
  have dev: "only shell_or_query (check_devices h ds)" for ds :: "string list" and h :: "'a host"
    by (induction ds) (auto simp: IsFileExisting_def intro!: trace_rules)
  show ?thesis
    unfolding createVG_def Let_def by (intro trace_rules dev) auto
qed

end
