(* ===== verification/Utils_Mounter.thy ===== *)
theory Utils_Mounter
  imports Utils_Util Sample_Host
begin

text \<open>
  \<open>pkg/utils/mounter.go\<close>: the mounter of the driver, which starts \<open>mkdir\<close>, \<open>mkfs\<close>, \<open>mount\<close>,
  \<open>umount\<close>, \<open>file\<close> and \<open>grep\<close>, and the parser of \<open>/proc/mounts\<close>. The Go interface \<open>Mounter\<close>
  is a record of operations; \<open>NewMounter\<close> fills it with the functions of the type \<open>mounter\<close>.

  The locale \<open>mounter_contract\<close> states what the node server relies on (which calls each
  operation makes), and is interpreted on \<open>NewMounter\<close>. The theorems: the parser undoes
  the printer of mount tables, rejects malformed lines, and \<open>SafePathRemove\<close> removes a path
  only after it has been seen unmounted and, if a directory, empty.
\<close>

section \<open>Data\<close>

record MountPoint =
  mp_Device :: string
  mp_Path :: string
  mp_Type :: string
  mp_Opts :: "string list"
  mp_Freq :: int
  mp_Pass :: int

record ('w, 'z) Mounter =
  m_EnsureFolder :: "string \<Rightarrow> ('w, 'z, goerror option) prog"
  m_EnsureBlock :: "string \<Rightarrow> ('w, 'z, goerror option) prog"
  m_Format :: "string \<Rightarrow> string \<Rightarrow> ('w, 'z, goerror option) prog"
  m_Mount :: "string \<Rightarrow> string \<Rightarrow> string \<Rightarrow> string list \<Rightarrow> ('w, 'z, goerror option) prog"
  m_MountBlock :: "string \<Rightarrow> string \<Rightarrow> string list \<Rightarrow> ('w, 'z, goerror option) prog"
  m_Unmount :: "string \<Rightarrow> ('w, 'z, goerror option) prog"
  m_IsFormatted :: "string \<Rightarrow> ('w, 'z, goerror + bool) prog"
  m_IsMounted :: "string \<Rightarrow> ('w, 'z, goerror + bool) prog"
  m_IsNotMountPoint :: "string \<Rightarrow> ('w, 'z, bool \<times> goerror option) prog"
  m_SafePathRemove :: "string \<Rightarrow> ('w, 'z, goerror option) prog"
  m_HasMountRefs :: "string \<Rightarrow> string list \<Rightarrow> bool"

section \<open>Operations\<close>

definition not_in_path :: "'w host \<Rightarrow> string \<Rightarrow> goerror \<Rightarrow> goerror" where
  "not_in_path h cmd err =
     (if is_ErrNotFound err then ErrorString (quote h cmd @ '' executable not found in $PATH'') else err)"

definition EnsureFolder :: "'w host \<Rightarrow> string \<Rightarrow> ('w, 'z, goerror option) prog" where
  "EnsureFolder h target = do {
     l \<leftarrow> LookPath h ''mkdir'';
     case l of
       Some err \<Rightarrow> State_Monad.return (Some (not_in_path h ''mkdir'' err))
     | None \<Rightarrow> do {
         (out, err) \<leftarrow> CombinedOutput h ''mkdir'' [''-p'', target];
         case err of
           Some e \<Rightarrow> State_Monad.return (Some (ErrorString (''mkdir for folder error: '' @ Error (quote h) e)))
         | None \<Rightarrow> State_Monad.return None
       }
   }"

definition EnsureBlock :: "'w host \<Rightarrow> string \<Rightarrow> ('w, 'z, goerror option) prog" where
  "EnsureBlock h target = ensure_block h
     (\<lambda>e. ''create block error: '' @ e) (\<lambda>e. ''close block error: '' @ e) target"

definition Format :: "'w host \<Rightarrow> string \<Rightarrow> string \<Rightarrow> ('w, 'z, goerror option) prog" where
  "Format h source fsType = do {
     let mkfsCmd = ''mkfs.'' @ fsType;
     l \<leftarrow> LookPath h mkfsCmd;
     case l of
       Some err \<Rightarrow> State_Monad.return (Some (not_in_path h mkfsCmd err))
     | None \<Rightarrow>
         if fsType = [] then
           State_Monad.return (Some (ErrorString ''fs type is not specified for formatting the volume''))
         else if source = [] then
           State_Monad.return (Some (ErrorString ''source is not specified for formatting the volume''))
         else do {
           let mkfsArgs = (if fsType = ''ext4'' \<or> fsType = ''ext3'' then [''-F'', source] else [source]);
           (out, err) \<leftarrow> CombinedOutput h mkfsCmd mkfsArgs;
           case err of
             Some e \<Rightarrow> State_Monad.return (Some (mount_failed h ''formatting disk'' mkfsCmd mkfsArgs out e))
           | None \<Rightarrow> State_Monad.return None
         }
   }"

definition MountBlock :: "'w host \<Rightarrow> string \<Rightarrow> string \<Rightarrow> string list \<Rightarrow> ('w, 'z, goerror option) prog" where
  "MountBlock h source target opts =
     (if source = [] then
        State_Monad.return (Some (ErrorString ''source is not specified for mounting the volume''))
      else if target = [] then
        State_Monad.return (Some (ErrorString ''target is not specified for mounting the volume''))
      else do {
        let mountArgs = (if length opts > 0 then [''-o'', Join opts '',''] else []) @ [source] @ [target];
        c_err \<leftarrow> OpenFile h target ''O_RDWR|O_CREATE|O_TRUNC'' 438;
        case c_err of
          Some err \<Rightarrow> State_Monad.return (Some err)
        | None \<Rightarrow> do {
            (out, err) \<leftarrow> CombinedOutput h ''mount'' mountArgs;
            case err of
              Some e \<Rightarrow> State_Monad.return (Some (mount_failed h ''mounting'' ''mount'' mountArgs out e))
            | None \<Rightarrow> State_Monad.return None
          }
      })"

definition Mount :: "'w host \<Rightarrow> string \<Rightarrow> string \<Rightarrow> string \<Rightarrow> string list \<Rightarrow> ('w, 'z, goerror option) prog" where
  "Mount h source target fsType opts =
     (if fsType = [] then
        State_Monad.return (Some (ErrorString ''fs type is not specified for mounting the volume''))
      else if source = [] then
        State_Monad.return (Some (ErrorString ''source is not specified for mounting the volume''))
      else if target = [] then
        State_Monad.return (Some (ErrorString ''target is not specified for mounting the volume''))
      else do {
        let mountArgs = [''-t'', fsType] @ (if length opts > 0 then [''-o'', Join opts '',''] else [])
              @ [source] @ [target];
        m_err \<leftarrow> MkdirAll h target 488;
        case m_err of
          Some err \<Rightarrow> State_Monad.return (Some err)
        | None \<Rightarrow> do {
            (out, err) \<leftarrow> CombinedOutput h ''mount'' mountArgs;
            case err of
              Some e \<Rightarrow> State_Monad.return (Some (mount_failed h ''mounting'' ''mount'' mountArgs out e))
            | None \<Rightarrow> State_Monad.return None
          }
      })"

definition Unmount :: "'w host \<Rightarrow> string \<Rightarrow> ('w, 'z, goerror option) prog" where
  "Unmount h target =
     (if target = [] then
        State_Monad.return (Some (ErrorString ''target is not specified for unmounting the volume''))
      else do {
        (out, err) \<leftarrow> CombinedOutput h ''umount'' [target];
        case err of
          Some e \<Rightarrow> State_Monad.return (Some (mount_failed h ''unmounting'' ''umount'' [target] out e))
        | None \<Rightarrow> State_Monad.return None
      })"

definition IsFormatted :: "'w host \<Rightarrow> string \<Rightarrow> ('w, 'z, goerror + bool) prog" where
  "IsFormatted h source =
     (if source = [] then State_Monad.return (Inl (ErrorString ''source is not specified''))
      else do {
        l \<leftarrow> LookPath h ''file'';
        case l of
          Some err \<Rightarrow> State_Monad.return (Inl (not_in_path h ''file'' err))
        | None \<Rightarrow> do {
            (out, err) \<leftarrow> CombinedOutput h ''file'' [''-sL'', source];
            case err of
              Some e \<Rightarrow> State_Monad.return (Inl (ErrorString (''checking formatting failed: '' @ Error (quote h) e @
                '' cmd: '' @ quote h ''file'' @ '' output: '' @ quote h out)))
            | None \<Rightarrow>
                let output = TrimPrefix out (source @ '':'')
                in if TrimSpace output = ''data'' then State_Monad.return (Inr False)
                   else State_Monad.return (Inr True)
          }
      })"

definition IsMounted :: "'w host \<Rightarrow> string \<Rightarrow> ('w, 'z, goerror + bool) prog" where
  "IsMounted h target =
     (if target = [] then
        State_Monad.return (Inl (ErrorString ''target is not specified for checking the mount''))
      else do {
        (out, err) \<leftarrow> CombinedOutput h ''grep'' [target, ''/proc/mounts''];
        let outStr = TrimSpace out;
        case err of
          Some e \<Rightarrow>
            if outStr = [] then State_Monad.return (Inr False)
            else State_Monad.return (Inl (ErrorString (''checking mounted failed: '' @ Error (quote h) e @
              '' cmd: '' @ quote h ''grep'' @ '' output: '' @ quote h outStr)))
        | None \<Rightarrow>
            if Contains outStr target then State_Monad.return (Inr True)
            else State_Monad.return (Inr False)
      })"

definition IsDirEmpty :: "'w host \<Rightarrow> string \<Rightarrow> ('w, 'z, bool \<times> goerror option) prog" where
  "IsDirEmpty h name = do {
     o_err \<leftarrow> Open h name;
     case o_err of
       Some err \<Rightarrow> State_Monad.return (False, Some err)
     | None \<Rightarrow> do {
         r_err \<leftarrow> Readdir1 h name;
         Close h name;
         case r_err of
           Some err \<Rightarrow> if is_EOF err then State_Monad.return (True, None) else State_Monad.return (False, Some err)
         | None \<Rightarrow> State_Monad.return (False, None)
       }
   }"

definition SafePathRemove :: "'w host \<Rightarrow> string \<Rightarrow> ('w, 'z, goerror option) prog" where
  "SafePathRemove h targetPath = do {
     l \<leftarrow> Lstat h targetPath;
     case l of
       Inl err \<Rightarrow> State_Monad.return (Some err)
     | Inr fo \<Rightarrow> do {
         m \<leftarrow> IsMounted h targetPath;
         case m of
           Inl err \<Rightarrow> State_Monad.return (Some err)
         | Inr isMounted \<Rightarrow>
             if isMounted then
               State_Monad.return (Some (ErrorString (''Path is mounted, not remove: '' @ targetPath)))
             else if fi_IsDir fo then do {
               (empty, err) \<leftarrow> IsDirEmpty h targetPath;
               case err of
                 Some e \<Rightarrow> State_Monad.return (Some (ErrorString
                   (''Check path empty error: '' @ targetPath @ Error (quote h) e)))
               | None \<Rightarrow>
                   if \<not> empty then
                     State_Monad.return (Some (ErrorString (''Cannot remove Path not empty: '' @ targetPath)))
                   else Remove h targetPath
             }
             else Remove h targetPath
       }
   }"

text \<open>One iteration of the loop of \<open>HasMountRefs\<close>: whether the reference is counted.\<close>

definition counted_ref :: "string \<Rightarrow> string \<Rightarrow> bool" where
  "counted_ref mountPath refPath =
     (if \<not> Contains refPath mountPath then
        (if HasPrefix mountPath ''/var/lib/kubelet/'' then
           Replace1 refPath ''/var/lib/container/kubelet/'' [] \<noteq> Replace1 mountPath ''/var/lib/kubelet/'' []
         else if HasPrefix mountPath ''/var/lib/container/kubelet/'' then
           Replace1 refPath ''/var/lib/kubelet/'' [] \<noteq> Replace1 mountPath ''/var/lib/container/kubelet/'' []
         else False)
      else False)"

fun count_refs :: "string \<Rightarrow> string list \<Rightarrow> nat \<Rightarrow> nat" where
  "count_refs mountPath [] n = n"
| "count_refs mountPath (r # rs) n = count_refs mountPath rs (if counted_ref mountPath r then n + 1 else n)"

definition HasMountRefs :: "string \<Rightarrow> string list \<Rightarrow> bool" where
  "HasMountRefs mountPath mountRefs = (count_refs mountPath mountRefs 0 > 0)"

definition isMountPointMatch :: "MountPoint \<Rightarrow> string \<Rightarrow> bool" where
  "isMountPointMatch mp dir =
     (let deletedDir = dir @ [CHR 0x5C] @ ''040(deleted)''
      in mp_Path mp = dir \<or> mp_Path mp = deletedDir)"

section \<open>The parser of /proc/mounts\<close>

abbreviation maxListTries :: nat where "maxListTries \<equiv> 10"
abbreviation procMountsPath :: string where "procMountsPath \<equiv> ''/proc/mounts''"

definition expectedNumFieldsPerLine :: nat where "expectedNumFieldsPerLine = 6"

definition parse_mount_line :: "string \<Rightarrow> goerror + MountPoint" where
  "parse_mount_line line =
     (let fields = Fields line
      in if length fields \<noteq> expectedNumFieldsPerLine then
           Inl (ErrorString (''wrong number of fields (expected '' @ show_int (int expectedNumFieldsPerLine) @
             '', got '' @ show_int (int (length fields)) @ '')''))
         else (case Atoi (fields ! 4) of
           Inl err \<Rightarrow> Inl err
         | Inr freq \<Rightarrow> (case Atoi (fields ! 5) of
             Inl err \<Rightarrow> Inl err
           | Inr pass \<Rightarrow> Inr \<lparr>mp_Device = fields ! 0, mp_Path = fields ! 1, mp_Type = fields ! 2,
               mp_Opts = Split (fields ! 3) '','', mp_Freq = freq, mp_Pass = pass\<rparr>)))"

fun parse_mount_lines :: "string list \<Rightarrow> MountPoint list \<Rightarrow> goerror + MountPoint list" where
  "parse_mount_lines [] out = Inr out"
| "parse_mount_lines (line # lines) out =
     (if line = [] then parse_mount_lines lines out
      else (case parse_mount_line line of
              Inl err \<Rightarrow> Inl err
            | Inr mp \<Rightarrow> parse_mount_lines lines (out @ [mp])))"

definition parseProcMounts :: "string \<Rightarrow> goerror + MountPoint list" where
  "parseProcMounts content = parse_mount_lines (Split content [CHR 0x0A]) []"

text \<open>
  \<open>utilio.ConsistentRead(procMountsPath, maxListTries)\<close> (\<open>vendor/k8s.io/utils/io/read.go\<close>): the file
  is read until two reads in a row agree, at most \<open>attempts + 1\<close> times.
\<close>

fun consistent_read :: "'w host \<Rightarrow> string \<Rightarrow> nat \<Rightarrow> nat \<Rightarrow> string \<Rightarrow> ('w, 'z, goerror + string) prog" where
  "consistent_read h filename tries 0 old = State_Monad.return (Inl (ErrorString
     (''could not get consistent content of '' @ filename @ '' after '' @ show_int (int tries) @ '' attempts'')))"
| "consistent_read h filename tries (Suc n) old = do {
     r \<leftarrow> ReadFile h filename;
     case r of
       Inl err \<Rightarrow> State_Monad.return (Inl err)
     | Inr new \<Rightarrow> if old = new then State_Monad.return (Inr new) else consistent_read h filename tries n new
   }"

definition ConsistentRead :: "'w host \<Rightarrow> string \<Rightarrow> nat \<Rightarrow> ('w, 'z, goerror + string) prog" where
  "ConsistentRead h filename attempts = do {
     r \<leftarrow> ReadFile h filename;
     case r of
       Inl err \<Rightarrow> State_Monad.return (Inl err)
     | Inr old \<Rightarrow> consistent_read h filename attempts attempts old
   }"

definition ListProcMounts :: "'w host \<Rightarrow> ('w, 'z, goerror + MountPoint list) prog" where
  "ListProcMounts h = do {
     r \<leftarrow> ConsistentRead h procMountsPath maxListTries;
     State_Monad.return (case r of Inl err \<Rightarrow> Inl err | Inr content \<Rightarrow> parseProcMounts content)
   }"

definition IsNotMountPoint :: "'w host \<Rightarrow> string \<Rightarrow> ('w, 'z, bool \<times> goerror option) prog" where
  "IsNotMountPoint h file = do {
     (notMnt0, err0) \<leftarrow> IsLikelyNotMountPoint h file;
     let (notMnt, notMntErr) =
       (case err0 of Some e \<Rightarrow> if IsPermission e then (True, None) else (notMnt0, err0)
        | None \<Rightarrow> (notMnt0, err0));
     if notMntErr \<noteq> None then State_Monad.return (notMnt, notMntErr)
     else if notMnt = False then State_Monad.return (notMnt, None)
     else do {
       rf \<leftarrow> EvalSymlinks h file;
       case rf of
         Inl err \<Rightarrow> State_Monad.return (True, Some err)
       | Inr resolvedFile \<Rightarrow> do {
           lm \<leftarrow> ListProcMounts h;
           case lm of
             Inl err \<Rightarrow> State_Monad.return (notMnt, Some err)
           | Inr mountPoints \<Rightarrow>
               State_Monad.return
                 (if list_ex (\<lambda>mp. isMountPointMatch mp resolvedFile) mountPoints then False else notMnt, None)
         }
     }
   }"

definition NewMounter :: "'w host \<Rightarrow> ('w, 'z) Mounter" where
  "NewMounter h = \<lparr>m_EnsureFolder = EnsureFolder h, m_EnsureBlock = EnsureBlock h, m_Format = Format h,
     m_Mount = Mount h, m_MountBlock = MountBlock h, m_Unmount = Unmount h,
     m_IsFormatted = IsFormatted h, m_IsMounted = IsMounted h, m_IsNotMountPoint = IsNotMountPoint h,
     m_SafePathRemove = SafePathRemove h, m_HasMountRefs = HasMountRefs\<rparr>"

section \<open>The contract of the interface\<close>

text \<open>
  The replies from which the operations draw their answers: \<open>grep\<close> finds the target in the mount
  table or does not, \<open>mount\<close> and \<open>umount\<close> succeed.
\<close>

fun mounted_ev :: "string \<Rightarrow> event \<Rightarrow> bool" where
  "mounted_ev t (ExecEv p args out err) \<longleftrightarrow> p = ''grep'' \<and> args = [t, ''/proc/mounts''] \<and>
     err = None \<and> Contains (TrimSpace out) t"
| "mounted_ev t _ = False"

fun unmounted_ev :: "string \<Rightarrow> event \<Rightarrow> bool" where
  "unmounted_ev t (ExecEv p args out err) \<longleftrightarrow> p = ''grep'' \<and> args = [t, ''/proc/mounts''] \<and>
     (if err = None then \<not> Contains (TrimSpace out) t else TrimSpace out = [])"
| "unmounted_ev t _ = False"

fun mount_ok_ev :: "string \<Rightarrow> string \<Rightarrow> string \<Rightarrow> string list \<Rightarrow> event \<Rightarrow> bool" where
  "mount_ok_ev src t fs opts (ExecEv p args out err) \<longleftrightarrow> p = ''mount'' \<and> err = None \<and>
     args = [''-t'', fs] @ (if opts = [] then [] else [''-o'', Join opts '','']) @ [src, t]"
| "mount_ok_ev src t fs opts _ = False"

fun umount_ok_ev :: "string \<Rightarrow> event \<Rightarrow> bool" where
  "umount_ok_ev t (ExecEv p args out err) \<longleftrightarrow> p = ''umount'' \<and> args = [t] \<and> err = None"
| "umount_ok_ev t _ = False"

text \<open>Which calls an operation may make, and what its answer rests on.\<close>

locale mounter_contract =
  fixes M :: "('w, 'z) Mounter"
  assumes IsMounted_calls: "only (is_exec ''grep'') (m_IsMounted M t)"
    and Mount_calls: "only (\<lambda>e. (\<exists>r. e = MkdirAllEv t r) \<or> is_exec ''mount'' e) (m_Mount M src t fs opts)"
    and Unmount_calls: "only (is_exec ''umount'') (m_Unmount M t)"
    and IsMounted_yes: "shows_ev (\<lambda>r. r = Inr True) (mounted_ev t) (m_IsMounted M t)"
    and IsMounted_no: "shows_ev (\<lambda>r. r = Inr False) (unmounted_ev t) (m_IsMounted M t)"
    and Mount_done: "shows_ev (\<lambda>r. r = None) (mount_ok_ev src t fs opts) (m_Mount M src t fs opts)"
    and Unmount_done: "shows_ev (\<lambda>r. r = None) (umount_ok_ev t) (m_Unmount M t)"
begin

lemma IsMounted_only: "(\<And>e. is_exec ''grep'' e \<Longrightarrow> P e) \<Longrightarrow> only P (m_IsMounted M t)"
  by (rule only_mono [OF IsMounted_calls])

lemma Mount_only:
  "(\<And>r. P (MkdirAllEv t r)) \<Longrightarrow> (\<And>e. is_exec ''mount'' e \<Longrightarrow> P e) \<Longrightarrow> only P (m_Mount M src t fs opts)"
  by (rule only_mono [OF Mount_calls]) auto

lemma Unmount_only: "(\<And>e. is_exec ''umount'' e \<Longrightarrow> P e) \<Longrightarrow> only P (m_Unmount M t)"
  by (rule only_mono [OF Unmount_calls])

lemma mounter_appends:
  "only (\<lambda>_. True) (m_IsMounted M t)" "only (\<lambda>_. True) (m_Mount M src t fs opts)"
  "only (\<lambda>_. True) (m_Unmount M t)"
  by (simp_all add: IsMounted_only Mount_only Unmount_only)

end

lemma IsMounted_grep: "only (is_exec ''grep'') (IsMounted h t)"
  unfolding IsMounted_def Let_def by (intro trace_rules) simp

lemma Mount_mount: "only (\<lambda>e. (\<exists>r. e = MkdirAllEv t r) \<or> is_exec ''mount'' e) (Mount h src t fs opts)"
  unfolding Mount_def Let_def by (intro trace_rules) simp_all

lemma Unmount_umount: "only (is_exec ''umount'') (Unmount h t)"
  unfolding Unmount_def by (intro trace_rules) simp

lemma IsMounted_shows:
  "shows_ev (\<lambda>r. r = Inr True) (mounted_ev t) (IsMounted h t)"
  "shows_ev (\<lambda>r. r = Inr False) (unmounted_ev t) (IsMounted h t)"
  unfolding IsMounted_def host_call_defs Let_def shows_ev_def by (intro produce_rules; simp)+

lemma Mount_shows: "shows_ev (\<lambda>r. r = None) (mount_ok_ev src t fs opts) (Mount h src t fs opts)"
  unfolding Mount_def host_call_defs Let_def shows_ev_def by (intro produce_rules) auto

lemma Unmount_shows: "shows_ev (\<lambda>r. r = None) (umount_ok_ev t) (Unmount h t)"
  unfolding Unmount_def host_call_defs shows_ev_def by (intro produce_rules) auto

interpretation std_mounter: mounter_contract "NewMounter h" for h
  by unfold_locales
     (simp_all add: NewMounter_def IsMounted_grep Mount_mount Unmount_umount IsMounted_shows
        Mount_shows Unmount_shows)

section \<open>Printing and parsing mount tables\<close>

definition print_mount_line :: "MountPoint \<Rightarrow> string" where
  "print_mount_line mp = Join [mp_Device mp, mp_Path mp, mp_Type mp, Join (mp_Opts mp) '','',
     show_int (mp_Freq mp), show_int (mp_Pass mp)] '' ''"

definition print_mounts :: "MountPoint list \<Rightarrow> string" where
  "print_mounts mps = concat (map (\<lambda>mp. print_mount_line mp @ [CHR 0x0A]) mps)"

definition mount_field :: "string \<Rightarrow> bool" where
  "mount_field s \<longleftrightarrow> s \<noteq> [] \<and> space_free s"

definition wf_mount :: "MountPoint \<Rightarrow> bool" where
  "wf_mount mp \<longleftrightarrow> mount_field (mp_Device mp) \<and> mount_field (mp_Path mp) \<and> mount_field (mp_Type mp) \<and>
     mp_Opts mp \<noteq> [] \<and> list_all (\<lambda>o'. CHR '','' \<notin> set o') (mp_Opts mp) \<and>
     mount_field (Join (mp_Opts mp) '','') \<and> is_int64 (mp_Freq mp) \<and> is_int64 (mp_Pass mp)"

lemma digits_space_free: "list_all (\<lambda>c. is_digit c \<or> c = CHR ''-'') s \<Longrightarrow> space_free s"
proof (induction s)
  case (Cons c s)
  then have "\<not> ascii_space c" "c \<noteq> CHR 0xC2" "c \<noteq> CHR 0xE1" "c \<noteq> CHR 0xE2" "c \<noteq> CHR 0xE3"
    by (auto simp: ascii_space_def is_digit_def)
  then have "space_len (c # s) = 0"
    by (simp add: space_len_def narrow_space_def wide_space_def split: list.split)
  with Cons show ?case by simp
qed simp

lemma show_int_field: "mount_field (show_int i)"
  by (auto simp: mount_field_def list_all_iff dest: show_int_chars intro!: digits_space_free)

lemma space_free_no_newline: "space_free s \<Longrightarrow> CHR 0x0A \<notin> set s"
  by (induction s) auto

lemma parse_print_line: "wf_mount mp \<Longrightarrow> parse_mount_line (print_mount_line mp) = Inr mp"
proof -
  assume wf: "wf_mount mp"
  let ?fs = "[mp_Device mp, mp_Path mp, mp_Type mp, Join (mp_Opts mp) '','',
    show_int (mp_Freq mp), show_int (mp_Pass mp)]"
  have "\<forall>x \<in> set ?fs. space_free x \<and> x \<noteq> []"
    using wf show_int_field unfolding wf_mount_def mount_field_def by simp
  then have "Fields (print_mount_line mp) = ?fs"
    unfolding print_mount_line_def by (rule Fields_Join)
  moreover have "Split (Join (mp_Opts mp) '','') '','' = mp_Opts mp"
    using wf by (intro Split_Join_char) (auto simp: wf_mount_def list_all_iff)
  ultimately show ?thesis
    using wf by (simp add: parse_mount_line_def expectedNumFieldsPerLine_def Atoi_show wf_mount_def)
qed

lemma print_line_props:
  "wf_mount mp \<Longrightarrow> CHR 0x0A \<notin> set (print_mount_line mp) \<and> print_mount_line mp \<noteq> []"
  using show_int_field
  by (auto simp: print_mount_line_def wf_mount_def mount_field_def dest: space_free_no_newline)

lemma parse_lines_append:
  "parse_mount_lines lines out = map_sum id (\<lambda>mps. out @ mps) (parse_mount_lines lines [])"
proof (induction lines arbitrary: out)
  case (Cons line lines)
  show ?case
    using Cons.IH [of out] Cons.IH [of "[mp]" for mp] Cons.IH [of "out @ [mp]" for mp]
    by (auto simp: sum.map_comp o_def split: sum.split)
qed simp

lemma Split_print_mounts:
  "list_all wf_mount mps \<Longrightarrow> Split (print_mounts mps) [CHR 0x0A] = map print_mount_line mps @ [[]]"
proof (induction mps)
  case Nil
  show ?case by (simp add: print_mounts_def Split_char_none)
next
  case (Cons mp mps)
  then show ?case
    using print_line_props [of mp]
    by (simp add: print_mounts_def Split_char_append)
qed

lemma parse_lines_print:
  "list_all wf_mount mps \<Longrightarrow> parse_mount_lines (map print_mount_line mps @ [[]]) [] = Inr mps"
proof (induction mps)
  case (Cons mp mps)
  then show ?case
    using print_line_props [of mp] parse_print_line [of mp]
      parse_lines_append [of "map print_mount_line mps @ [[]]" "[mp]"] by simp
qed simp

lemma parse_lines_iff:
  "parse_mount_lines lines [] = Inr out \<longleftrightarrow>
     map parse_mount_line (filter (\<lambda>l. l \<noteq> []) lines) = map Inr out"
proof (induction lines arbitrary: out)
  case Nil
  show ?case by auto
next
  case (Cons line lines)
  show ?case
  proof (cases "line = []")
    case True
    with Cons show ?thesis by simp
  next
    case False
    show ?thesis
    proof (cases "parse_mount_line line")
      case (Inl err)
      with False show ?thesis by (cases out) auto
    next
      case (Inr mp)
      have "parse_mount_lines lines [mp] = Inr out \<longleftrightarrow>
        (\<exists>mps. parse_mount_lines lines [] = Inr mps \<and> out = mp # mps)"
        by (subst parse_lines_append) (auto simp: map_sum_def split: sum.splits)
      with False Inr Cons.IH show ?thesis by (cases out) auto
    qed
  qed
qed

section \<open>Removing paths\<close>

fun is_remove :: "event \<Rightarrow> bool" where
  "is_remove (RemoveEv _ _) = True"
| "is_remove _ = False"

fun empty_dir_ev :: "string \<Rightarrow> event \<Rightarrow> bool" where
  "empty_dir_ev t (ReaddirEv p (Some err)) \<longleftrightarrow> p = t \<and> is_EOF err"
| "empty_dir_ev t _ = False"

fun dir_ev :: "string \<Rightarrow> event \<Rightarrow> bool" where
  "dir_ev t (LstatEv p (Inr fi)) \<longleftrightarrow> p = t \<and> fi_IsDir fi"
| "dir_ev t _ = False"

lemma IsMounted_unmounted:
  "produces (IsMounted h t) (\<lambda>r es. list_all (\<lambda>e. \<not> is_remove e) es \<and>
     (r = Inr False \<longrightarrow> list_ex (unmounted_ev t) es))"
  unfolding IsMounted_def host_call_defs Let_def by (intro produce_rules) auto

lemma IsDirEmpty_empty:
  "produces (IsDirEmpty h t) (\<lambda>r es. list_all (\<lambda>e. \<not> is_remove e) es \<and>
     (r = (True, None) \<longrightarrow> list_ex (empty_dir_ev t) es))"
  unfolding IsDirEmpty_def host_call_defs by (intro produce_rules) auto

lemma SafePathRemove_unmounted: "guards is_remove (unmounted_ev t) (SafePathRemove h t)"
proof -
  have rest: "guards is_remove (unmounted_ev t)
    (State_Monad.bind (IsMounted h t) k)" if k: "\<And>m. m \<noteq> Inr False \<Longrightarrow> guards is_remove (unmounted_ev t) (k m)"
      "only (\<lambda>_. True) (k (Inr False))" for k :: "goerror + bool \<Rightarrow> ('a, 'b, goerror option) prog"
    by (rule guards_test [OF IsMounted_unmounted]) (use k in auto)
  show ?thesis
    unfolding SafePathRemove_def
    by (intro trace_rules rest) (auto simp: IsDirEmpty_def intro!: trace_rules split: sum.split)
qed

lemma SafePathRemove_empty:
  "produces (SafePathRemove h t) (\<lambda>r es. list_ex (dir_ev t) es \<longrightarrow> guarded is_remove (empty_dir_ev t) es)"
proof -
  have test: "guards is_remove (empty_dir_ev t) (State_Monad.bind (IsDirEmpty h t) k)"
    if "\<And>a. a \<noteq> (True, None) \<Longrightarrow> guards is_remove (empty_dir_ev t) (k a)" "only (\<lambda>_. True) (k (True, None))"
    for k :: "bool \<times> goerror option \<Rightarrow> ('a, 'b, goerror option) prog"
    by (rule guards_test [OF IsDirEmpty_empty]) (use that in auto)
  show ?thesis
    unfolding SafePathRemove_def Lstat_def
  proof (rule produces_syscall_bind, goal_cases)
    case (1 l)
    show ?case
    proof (cases l)
      case (Inl err)
      then show ?thesis by (auto intro: produce_rules)
    next
      case (Inr fo)
      show ?thesis
      proof (cases "fi_IsDir fo")
        case True
        then show ?thesis
          by (simp only: Inr sum.case if_True)
             (rule produces_weaken [where R = "\<lambda>_ es. guarded is_remove (empty_dir_ev t) es"],
              unfold guards_def [symmetric],
              intro guards_only_bind guards_sum guards_if guards_return test only_mono [OF IsMounted_grep],
              auto intro!: trace_rules elim: is_exec.elims split: option.split)
      next
        case False
        then show ?thesis
          by (simp only: Inr sum.case if_False)
             (rule produces_weaken [where R = "\<lambda>_ es. list_all (\<lambda>e. \<not> dir_ev t e) es"],
              unfold only_def [symmetric],
              intro trace_rules only_mono [OF IsMounted_grep],
              auto simp: list_all_iff list_ex_iff elim: is_exec.elims dir_ev.elims)
      qed
    qed
  qed
qed

lemma SafePathRemove_target: "only (\<lambda>e. is_remove e \<longrightarrow> (\<exists>r. e = RemoveEv t r)) (SafePathRemove h t)"
  unfolding SafePathRemove_def IsDirEmpty_def
  by (intro trace_rules only_mono [OF IsMounted_grep]) (auto elim: is_exec.elims)

section \<open>Reading the mount table\<close>

lemma consistent_read_trace:
  "produces (consistent_read h f tries n old) (\<lambda>r es. length es \<le> n \<and>
     list_all (\<lambda>e. \<exists>x. e = ReadFileEv f x) es \<and>
     (\<forall>c. r = Inr c \<longrightarrow> (\<exists>xs. ReadFileEv f (Inr old) # es = xs @ [ReadFileEv f (Inr c), ReadFileEv f (Inr c)])))"
proof (induction n arbitrary: old)
  case 0
  show ?case by (auto intro: produce_rules)
next
  case (Suc n)
  show ?case
    unfolding consistent_read.simps ReadFile_def
  proof (intro produces_syscall_bind produces_sum produces_if, goal_cases)
    case (1 r e)
    then show ?case by (auto intro: produce_rules)
  next
    case (2 r new)
    then show ?case by (intro produces_returnI) force
  next
    case (3 r new)
    show ?case
      by (rule produces_weaken [OF Suc.IH [of new]]) (use 3 in force)
  qed
qed

lemma ConsistentRead_trace:
  "produces (ConsistentRead h f n) (\<lambda>r es. length es \<le> n + 1 \<and>
     list_all (\<lambda>e. \<exists>x. e = ReadFileEv f x) es \<and>
     (\<forall>c. r = Inr c \<longrightarrow> (\<exists>xs. es = xs @ [ReadFileEv f (Inr c), ReadFileEv f (Inr c)])))"
  unfolding ConsistentRead_def ReadFile_def
proof (intro produces_syscall_bind produces_sum, goal_cases)
  case (1 r e)
  then show ?case by (auto intro: produce_rules)
next
  case (2 r old)
  show ?case
    by (rule produces_weaken [OF consistent_read_trace]) (use 2 in auto)
qed

section \<open>Theorems\<close>

text \<open>
  C31: Parsing a printed mount table gives the table back, for entries whose fields hold no white
  space, whose options hold no comma and whose numbers fit 64 bits.
\<close>

theorem parseProcMounts_print:
  assumes "list_all wf_mount mps"
  shows "parseProcMounts (print_mounts mps) = Inr mps"
  using assms by (simp add: parseProcMounts_def Split_print_mounts parse_lines_print)

definition sample_mount :: MountPoint where
  "sample_mount = \<lparr>mp_Device = ''/dev/vg/lv'', mp_Path = ''/mnt'', mp_Type = ''ext4'',
     mp_Opts = [''rw'', ''relatime''], mp_Freq = 0, mp_Pass = 2\<rparr>"

theorem parseProcMounts_print_witness:
  "list_all wf_mount [sample_mount, sample_mount] \<and>
   parseProcMounts (print_mounts [sample_mount, sample_mount]) = Inr [sample_mount, sample_mount]"
proof -
  have wf: "list_all wf_mount [sample_mount, sample_mount]"
    by (simp add: sample_mount_def wf_mount_def mount_field_def space_len_def ascii_space_def
        narrow_space_def wide_space_def is_int64_def max_int64_def min_int64_def)
  then show ?thesis using parseProcMounts_print [OF wf] by simp
qed

text \<open>
  \<open>parseProcMounts\<close> succeeds exactly when every non-empty line of the table parses, and then
  returns the entries of the non-empty lines in their order; one bad line fails the whole table.
\<close>

theorem parseProcMounts_lines:
  "parseProcMounts content = Inr out \<longleftrightarrow>
     map parse_mount_line (filter (\<lambda>l. l \<noteq> []) (Split content [CHR 0x0A])) = map Inr out"
  by (simp add: parseProcMounts_def parse_lines_iff)

text \<open>
  C18: \<open>SafePathRemove\<close> removes nothing but the given path, only after \<open>grep\<close> on the mount table has
  shown it unmounted, and, when the path is a directory, only after a read of the directory
  has returned end-of-file (it is empty). This holds on every host.
\<close>

theorem SafePathRemove_safe:
  "list_all (\<lambda>e. is_remove e \<longrightarrow> (\<exists>r. e = RemoveEv t r)) (new_events (SafePathRemove h t) s) \<and>
   guarded is_remove (unmounted_ev t) (new_events (SafePathRemove h t) s) \<and>
   (list_ex (dir_ev t) (new_events (SafePathRemove h t) s) \<longrightarrow>
      guarded is_remove (empty_dir_ev t) (new_events (SafePathRemove h t) s))"
  using only_new [OF SafePathRemove_target] guards_new [OF SafePathRemove_unmounted]
    produces_new [OF SafePathRemove_empty] by blast

definition removing_host :: "unit host" where
  "removing_host = quiet_host\<lparr>
     exec_combined := (\<lambda>p args w. (([], Some (ErrorString ''exit status 1'')), w)),
     os_readdir1 := (\<lambda>p w. (Some (SysError EEOF ''EOF''), w))\<rparr>"

theorem SafePathRemove_safe_witness:
  "list_ex (dir_ev ''/mnt'') (new_events (SafePathRemove removing_host ''/mnt'') start) \<and>
   list_ex is_remove (new_events (SafePathRemove removing_host ''/mnt'') start) \<and>
   guarded is_remove (empty_dir_ev ''/mnt'') (new_events (SafePathRemove removing_host ''/mnt'') start)"
proof -
  have "list_ex (dir_ev ''/mnt'') (new_events (SafePathRemove removing_host ''/mnt'') start)"
    and "list_ex is_remove (new_events (SafePathRemove removing_host ''/mnt'') start)"
    by (simp_all add: new_events_def SafePathRemove_def IsMounted_def IsDirEmpty_def go_defs
        removing_host_def sample_defs is_EOF_def)
  then show ?thesis using SafePathRemove_safe [of "''/mnt''" removing_host start] by blast
qed

text \<open>
  C32: \<open>ListProcMounts\<close> reads the mount table at most eleven times and, when it returns entries, they
  are the parse of a content that two reads in a row agreed on.
\<close>

theorem ListProcMounts_consistent:
  "length (new_events (ListProcMounts h) s) \<le> 11 \<and>
   (\<forall>mps. result (ListProcMounts h) s = Inr mps \<longrightarrow>
      (\<exists>xs c. new_events (ListProcMounts h) s =
         xs @ [ReadFileEv ''/proc/mounts'' (Inr c), ReadFileEv ''/proc/mounts'' (Inr c)] \<and>
         parseProcMounts c = Inr mps))"
proof -
  have "produces (ListProcMounts h) (\<lambda>r es. length es \<le> 11 \<and>
     (\<forall>mps. r = Inr mps \<longrightarrow> (\<exists>xs c. es =
        xs @ [ReadFileEv ''/proc/mounts'' (Inr c), ReadFileEv ''/proc/mounts'' (Inr c)] \<and>
        parseProcMounts c = Inr mps)))"
    unfolding ListProcMounts_def
    by (rule produces_bind [OF ConsistentRead_trace], intro produces_returnI) (auto split: sum.splits)
  then show ?thesis by (rule produces_new)
qed

theorem ListProcMounts_consistent_witness:
  "result (ListProcMounts quiet_host) start = Inr [] \<and>
   (\<exists>xs c. new_events (ListProcMounts quiet_host) start =
      xs @ [ReadFileEv ''/proc/mounts'' (Inr c), ReadFileEv ''/proc/mounts'' (Inr c)] \<and>
      parseProcMounts c = Inr [])"
proof -
  have "result (ListProcMounts quiet_host) start = Inr []"
    by (simp add: result_def ListProcMounts_def ConsistentRead_def go_defs sample_defs
        numeral_eq_Suc parseProcMounts_def Split.simps)
  then show ?thesis using ListProcMounts_consistent [of quiet_host start] by blast
qed

text \<open>
  \<open>IsMounted\<close> answers true for a target that is not a mount point itself when the mount table has
  an entry for a path of which the target is a part, e.g. a longer path: the test is a search for the
  text of the target in the lines \<open>grep\<close> prints.
\<close>

theorem IsMounted_by_substring:
  assumes "exec_combined h ''grep'' [t, ''/proc/mounts''] (world s) = ((out, None), w)"
    and "TrimSpace out = pre @ t @ post" and "t \<noteq> []"
  shows "result (IsMounted h t) s = Inr True"
  using assms by (simp add: result_def IsMounted_def go_defs)

definition other_mount_host :: "unit host" where
  "other_mount_host = quiet_host\<lparr>
     exec_combined := (\<lambda>p args w. ((''/dev/vg/b /mnt/pv-10 ext4 rw 0 0'', None), w))\<rparr>"

theorem IsMounted_by_substring_witness:
  "result (IsMounted other_mount_host ''/mnt/pv-1'') start = Inr True"
proof -
  have "TrimSpace ''/dev/vg/b /mnt/pv-10 ext4 rw 0 0'' = ''/dev/vg/b /mnt/pv-10 ext4 rw 0 0''"
    by (simp add: TrimSpace_def TrimLeftSpace_id TrimRightSpace_id space_len_def rspace_len_def
        ascii_space_def narrow_space_def wide_space_def)
  then have "TrimSpace ''/dev/vg/b /mnt/pv-10 ext4 rw 0 0'' =
      ''/dev/vg/b '' @ ''/mnt/pv-1'' @ ''0 ext4 rw 0 0''" by simp
  then show ?thesis
    using IsMounted_by_substring [of other_mount_host "''/mnt/pv-1''" start
      "''/dev/vg/b /mnt/pv-10 ext4 rw 0 0''" "()" "''/dev/vg/b ''" "''0 ext4 rw 0 0''"]
    by (simp add: other_mount_host_def sample_defs)
qed

end
