(* ===== verification/Csi_Exec.thy ===== *)
theory Csi_Exec
  imports Utils_Mounter
begin

text \<open>
  \<open>pkg/csi/exec.go\<close>: the interface \<open>ExecRunner\<close> as a record of operations, with its two
  implementations, the one that calls the host and the fake one.
\<close>

record ('w, 'z) ExecRunner =
  rn_Remove :: "string \<Rightarrow> ('w, 'z, goerror option) prog"
  rn_Stat :: "string \<Rightarrow> ('w, 'z, goerror + fileinfo option) prog"
  rn_MkdirAll :: "string \<Rightarrow> nat \<Rightarrow> ('w, 'z, goerror option) prog"
  rn_RunCommand :: "string \<Rightarrow> ('w, 'z, goerror + string) prog"
  rn_IsBlockDevice :: "string \<Rightarrow> ('w, 'z, goerror + bool) prog"
  rn_MountBlock :: "string \<Rightarrow> string \<Rightarrow> string list \<Rightarrow> ('w, 'z, goerror option) prog"
  rn_EnsureBlock :: "string \<Rightarrow> ('w, 'z, goerror option) prog"
  rn_CleanupMountPoint :: "string \<Rightarrow> bool \<Rightarrow> ('w, 'z, goerror option) prog"
  rn_ResizeFS :: "string \<Rightarrow> string \<Rightarrow> ('w, 'z, goerror + bool) prog"

definition NewExecRunner :: "'w host \<Rightarrow> ('w, 'z) ExecRunner" where
  "NewExecRunner h = \<lparr>
     rn_Remove = Remove h,
     rn_Stat = (\<lambda>name. do { r \<leftarrow> Stat h name;
        State_Monad.return (case r of Inl err \<Rightarrow> Inl err | Inr fi \<Rightarrow> Inr (Some fi)) }),
     rn_MkdirAll = MkdirAll h,
     rn_RunCommand = Run h,
     rn_IsBlockDevice = IsBlockDevice h,
     rn_MountBlock = utils_MountBlock h,
     rn_EnsureBlock = utils_EnsureBlock h,
     rn_CleanupMountPoint = CleanupMount h,
     rn_ResizeFS = ResizeFs h\<rparr>"

text \<open>The fake runner; \<open>Stat\<close> returns a nil \<open>FileInfo\<close> for names with \<open>snapshot\<close> in them.\<close>

definition NewFakeExecRunner :: "('w, 'z) ExecRunner" where
  "NewFakeExecRunner = \<lparr>
     rn_Remove = (\<lambda>name. State_Monad.return None),
     rn_Stat = (\<lambda>name. State_Monad.return
        (if Contains name ''snapshot'' then Inr None else Inl (SysError ENotExist ''file does not exist''))),
     rn_MkdirAll = (\<lambda>path perm. State_Monad.return None),
     rn_RunCommand = (\<lambda>cmd. State_Monad.return (Inr [])),
     rn_IsBlockDevice = (\<lambda>fullPath. State_Monad.return (Inr True)),
     rn_MountBlock = (\<lambda>source target opts. State_Monad.return None),
     rn_EnsureBlock = (\<lambda>target. State_Monad.return None),
     rn_CleanupMountPoint = (\<lambda>mountPath ext. State_Monad.return None),
     rn_ResizeFS = (\<lambda>devicePath deviceMountPath. State_Monad.return (Inr True))\<rparr>"

end
