(* ===== verification/Lvm_NodeServer.thy ===== *)
theory Lvm_NodeServer
  imports Lvm_Util Csi_Exec Go_Json
begin

text \<open>
  \<open>pkg/csi/lvm/nodeserver.go\<close>: the CSI node service. The state of a run extends the host state by
  the field \<open>isDirect\<close>, which the server keeps between requests; the other fields of the Go
  structure are constant and form the record \<open>nodeServer\<close>. Every handler is one definition; a
  handler that can dereference a nil value returns an \<open>outcome\<close>.
\<close>

section \<open>State and requests\<close>

record 'w nodeState = "'w sys" +
  isDirect :: bool

type_synonym ('w, 'z, 'a) nprog = "(('w, 'z) nodeState_scheme, 'a) state"

record ('w, 'z) nodeServer =
  ns_nodeID :: string
  ns_mounter :: "('w, 'z) Mounter"
  ns_rn :: "('w, 'z) ExecRunner"

record NodeUnpublishVolumeRequest =
  unpub_VolumeId :: string
  unpub_TargetPath :: string

text \<open>\<open>CapacityRange\<close> is a pointer; \<open>None\<close> is nil.\<close>

record NodeExpandVolumeRequest =
  exp_VolumeId :: string
  exp_VolumePath :: string
  exp_RequiredBytes :: "int option"

section \<open>Helpers\<close>

text \<open>The keys and values of the volume attributes.\<close>

abbreviation VgNameTag :: string where "VgNameTag \<equiv> ''vgName''"
abbreviation PvTypeTag :: string where "PvTypeTag \<equiv> ''pvType''"
abbreviation FsTypeTag :: string where "FsTypeTag \<equiv> ''fsType''"
abbreviation LvmTypeTag :: string where "LvmTypeTag \<equiv> ''lvmType''"
abbreviation LocalDisk :: string where "LocalDisk \<equiv> ''localdisk''"
abbreviation CloudDisk :: string where "CloudDisk \<equiv> ''clouddisk''"
abbreviation LinearType :: string where "LinearType \<equiv> ''linear''"
abbreviation StripingType :: string where "StripingType \<equiv> ''striping''"
abbreviation DefaultFs :: string where "DefaultFs \<equiv> ''ext4''"
abbreviation DirectTag :: string where "DirectTag \<equiv> ''direct''"

definition TopologyNodeKey :: string where
  "TopologyNodeKey = ''topology.lvmplugin.csi.kubeservice.cn/hostname''"

definition Gi_bytes :: int where "Gi_bytes = 1024 * 1024 * 1024"
definition Mi_bytes :: int where "Mi_bytes = 1024 * 1024"

text \<open>
  \<open>getPvInfo\<close>: size and unit for the LVM tools, size in bytes, and the volume; all zero
  when the volume cannot be read. A missing capacity entry is the zero quantity.
\<close>

definition pv_info :: "PersistentVolume \<Rightarrow> int \<times> int \<times> string \<times> PersistentVolume option" where
  "pv_info pv =
     (let pvSizeByte = storage_bytes pv;
          pvSize = pvSizeByte;
          pvSizeGB = go_div pvSize (1024 * 1024 * 1024)
      in if pvSizeGB = 0
         then (let pvSizeMB = go_div pvSize (1024 * 1024) in (pvSizeMB, pvSizeByte, ''m'', Some pv))
         else (pvSizeGB, pvSizeByte, ''g'', Some pv))"

definition getPvInfo ::
  "'w host \<Rightarrow> string \<Rightarrow> ('w, 'z, int \<times> int \<times> string \<times> PersistentVolume option) prog" where
  "getPvInfo h volumeID = do {
     r \<leftarrow> GetPV h volumeID;
     State_Monad.return (case r of Inl err \<Rightarrow> (0, 0, [], None) | Inr pv \<Rightarrow> pv_info pv)
   }"

definition addDirectVolume :: "'w host \<Rightarrow> string \<Rightarrow> string \<Rightarrow> string \<Rightarrow> ('w, 'z, goerror option) prog" where
  "addDirectVolume h volumePath device fsType = do {
     let mi = Marshal_MountInfo \<lparr>mi_VolumeType = ''block'', mi_Device = device, mi_FsType = fsType\<rparr>;
     r \<leftarrow> VolumeAdd h volumePath mi;
     case r of
       Some err \<Rightarrow> State_Monad.return (Some (StatusError Internal (''add direct volume failed: '' @ Error (quote h) err)))
     | None \<Rightarrow> State_Monad.return None
   }"

definition createVolume ::
  "'w host \<Rightarrow> string \<Rightarrow> string \<Rightarrow> string \<Rightarrow> string \<Rightarrow> ('w, 'z, goerror option) prog" where
  "createVolume h volumeID vgName pvType lvmType = do {
     (pvSize, _, unit, _) \<leftarrow> getPvInfo h volumeID;
     vg \<leftarrow> (if pvType = LocalDisk then createVG h vgName else State_Monad.return (Inr 0));
     case vg of
       Inl err \<Rightarrow> State_Monad.return (Some err)
     | Inr pvNumber \<Rightarrow> do {
         ck \<leftarrow> Run h (NsenterCmd @ '' vgck '' @ vgName);
         case ck of
           Inl err \<Rightarrow> State_Monad.return (Some err)
         | Inr _ \<Rightarrow>
             if lvmType = StripingType then do {
               r \<leftarrow> Run h (NsenterCmd @ '' lvcreate -i '' @ show_int pvNumber @ '' -n '' @ volumeID @ '' -L '' @
                     show_int pvSize @ unit @ '' '' @ vgName);
               State_Monad.return (err_of r)
             }
             else if lvmType = LinearType then do {
               r \<leftarrow> Run h (NsenterCmd @ '' lvcreate -n '' @ volumeID @ '' -L '' @
                     show_int pvSize @ unit @ '' '' @ vgName);
               State_Monad.return (err_of r)
             }
             else State_Monad.return None
       }
   }"

definition lv_size_cmd :: "string \<Rightarrow> string" where
  "lv_size_cmd devicePath = NsenterCmd @ '' lvdisplay --units B '' @ devicePath @ '' 2>&1 | grep '' @
     [CHR 0x27] @ ''LV Size'' @ [CHR 0x27] @ '' | awk '' @ [CHR 0x27] @ ''{print $3}'' @ [CHR 0x27]"

definition lvextend_cmd :: "int \<Rightarrow> string \<Rightarrow> string \<Rightarrow> string" where
  "lvextend_cmd pvSize unit devicePath =
     NsenterCmd @ '' lvextend -L'' @ show_int pvSize @ unit @ '' '' @ devicePath"

definition resizeVolume ::
  "'w host \<Rightarrow> ('w, 'z) nodeServer \<Rightarrow> string \<Rightarrow> string \<Rightarrow> string \<Rightarrow> ('w, 'z, goerror option) prog" where
  "resizeVolume h ns volumeID vgName targetPath = do {
     (pvSize, pvSizeByte, unit, _) \<leftarrow> getPvInfo h volumeID;
     let devicePath = path_Join [''/dev'', vgName, volumeID];
     s \<leftarrow> Run h (lv_size_cmd devicePath);
     case s of
       Inl err \<Rightarrow> State_Monad.return (Some err)
     | Inr sizeStr \<Rightarrow>
         if sizeStr = [] then State_Monad.return (Some (StatusError Internal ''Get lvm size error''))
         else (case ParseInt (TrimSpace (Split sizeStr ''.'' ! 0)) of
             Inl err \<Rightarrow> State_Monad.return (Some err)
           | Inr sizeInt \<Rightarrow>
               if sizeInt \<ge> pvSizeByte then State_Monad.return None
               else do {
                 x \<leftarrow> Run h (lvextend_cmd pvSize unit devicePath);
                 case x of
                   Inl err \<Rightarrow> State_Monad.return (Some err)
                 | Inr _ \<Rightarrow> do {
                     f \<leftarrow> rn_ResizeFS (ns_rn ns) devicePath targetPath;
                     case f of
                       Inl err \<Rightarrow> State_Monad.return (Some err)
                     | Inr ok \<Rightarrow>
                         if \<not> ok then State_Monad.return (Some (StatusError Internal ''Fail to resize volume fs''))
                         else State_Monad.return None
                   }
               })
   }"

section \<open>Handlers\<close>

definition setDirect :: "bool \<Rightarrow> ('w, 'z, unit) nprog" where
  "setDirect b = State (\<lambda>s. ((), s\<lparr>isDirect := b\<rparr>))"

definition getDirect :: "('w, 'z, bool) nprog" where
  "getDirect = State (\<lambda>s. (isDirect s, s))"

definition ctx_or :: "(string \<rightharpoonup> string) \<Rightarrow> string \<Rightarrow> string \<Rightarrow> string" where
  "ctx_or m k d = (case m k of None \<Rightarrow> d | Some v \<Rightarrow> v)"

definition direct_of :: "(string \<rightharpoonup> string) \<Rightarrow> bool" where
  "direct_of m = (case m DirectTag of
     None \<Rightarrow> False
   | Some val \<Rightarrow> (case ParseBool val of Inl err \<Rightarrow> False | Inr b \<Rightarrow> b))"

definition mount_options :: "NodePublishVolumeRequest \<Rightarrow> string list" where
  "mount_options req = (if pub_Readonly req then [''ro''] else [''rw'']) @ pub_MountFlags req"

text \<open>
  Step 5 of \<open>NodePublishVolume\<close>, after the direct case: check the mount, format, mount, resize.
  In the \<open>else\<close> branch of the failed mount check the source calls \<open>Error()\<close> on the error of
  \<open>os.Stat\<close>, which is nil when the target path exists.
\<close>

definition publish_mount ::
  "'w host \<Rightarrow> ('w, 'z) nodeServer \<Rightarrow> NodePublishVolumeRequest \<Rightarrow> string \<Rightarrow> string \<Rightarrow> string \<Rightarrow> bool \<Rightarrow>
     bool \<Rightarrow> ('w, 'z, goerror + unit) prog" where
  "publish_mount h ns req vgName fsType devicePath volumeNewCreated isMnt = do {
     let targetPath = pub_TargetPath req;
     c \<leftarrow> checkFSType h devicePath;
     case c of
       Inl err \<Rightarrow> State_Monad.return (Inl (StatusError Internal (''check fs type err: '' @ Error (quote h) err)))
     | Inr exitFSType \<Rightarrow> do {
         f \<leftarrow> (if exitFSType = [] then formatDevice h devicePath fsType else State_Monad.return None);
         case f of
           Some err \<Rightarrow> State_Monad.return (Inl (StatusError Internal (''format fstype failed: err='' @ Error (quote h) err)))
         | None \<Rightarrow> do {
             m \<leftarrow> (if \<not> isMnt then m_Mount (ns_mounter ns) devicePath targetPath fsType (mount_options req)
                   else State_Monad.return None);
             case m of
               Some err \<Rightarrow> State_Monad.return (Inl (StatusError Internal (Error (quote h) err)))
             | None \<Rightarrow>
                 if volumeNewCreated = False then do {
                   r \<leftarrow> resizeVolume h ns (pub_VolumeId req) vgName targetPath;
                   case r of
                     Some err \<Rightarrow> State_Monad.return (Inl (StatusError Internal (Error (quote h) err)))
                   | None \<Rightarrow> State_Monad.return (Inr ())
                 }
                 else State_Monad.return (Inr ())
           }
       }
   }"

definition publish_volume ::
  "'w host \<Rightarrow> ('w, 'z) nodeServer \<Rightarrow> NodePublishVolumeRequest \<Rightarrow> string \<Rightarrow> string \<Rightarrow> string \<Rightarrow> bool \<Rightarrow>
     ('w, 'z, (goerror + unit) outcome) prog" where
  "publish_volume h ns req vgName fsType devicePath volumeNewCreated = do {
     let targetPath = pub_TargetPath req;
     mnt \<leftarrow> m_IsMounted (ns_mounter ns) targetPath;
     case mnt of
       Inr isMnt \<Rightarrow> do {
         r \<leftarrow> publish_mount h ns req vgName fsType devicePath volumeNewCreated isMnt;
         State_Monad.return (Done r)
       }
     | Inl _ \<Rightarrow> do {
         st \<leftarrow> Stat h targetPath;
         case st of
           Inr _ \<Rightarrow> State_Monad.return (Panic ''nil pointer dereference'')
         | Inl err \<Rightarrow>
             if IsNotExist err then do {
               mk \<leftarrow> MkdirAll h targetPath 488;
               case mk of
                 Some e \<Rightarrow> State_Monad.return (Done (Inl (StatusError Internal (Error (quote h) e))))
               | None \<Rightarrow> do {
                   r \<leftarrow> publish_mount h ns req vgName fsType devicePath volumeNewCreated False;
                   State_Monad.return (Done r)
                 }
             }
             else State_Monad.return (Done (Inl (StatusError Internal (Error (quote h) err))))
       }
   }"

definition NodePublishVolume ::
  "'w host \<Rightarrow> ('w, 'z nodeState_ext) nodeServer \<Rightarrow> NodePublishVolumeRequest \<Rightarrow>
     ('w, 'z, (goerror + unit) outcome) nprog" where
  "NodePublishVolume h ns req =
     (let volumeID = pub_VolumeId req; targetPath = pub_TargetPath req; ctx = pub_VolumeContext req;
          vgName = ctx_or ctx VgNameTag []
      in if volumeID = [] then
           State_Monad.return (Done (Inl (StatusError InvalidArgument ''NodePublishVolume: Volume ID not provided'')))
         else if targetPath = [] then
           State_Monad.return (Done (Inl (StatusError InvalidArgument ''NodePublishVolume: targetPath is empty'')))
         else if vgName = [] then
           State_Monad.return (Done (Inl (StatusError InvalidArgument ''NodePublishVolume: must set vgName in volumeAttributes'')))
         else do {
           let pvType = ctx_or ctx PvTypeTag CloudDisk;
           let lvmType = ctx_or ctx LvmTypeTag LinearType;
           let fsType = ctx_or ctx FsTypeTag DefaultFs;
           setDirect (direct_of ctx);
           let devicePath = path_Join [''/dev/'', vgName, volumeID];
           st \<leftarrow> Stat h devicePath;
           let volumeNewCreated = (case st of Inl err \<Rightarrow> IsNotExist err | Inr _ \<Rightarrow> False);
           cr \<leftarrow> (if volumeNewCreated then createVolume h volumeID vgName pvType lvmType
                  else State_Monad.return None);
           case cr of
             Some err \<Rightarrow> State_Monad.return (Done (Inl (StatusError Aborted
               (''vgName/pvType/lvmType/volumeID not found, err: '' @ Error (quote h) err))))
           | None \<Rightarrow> do {
               direct \<leftarrow> getDirect;
               if direct then do {
                 a \<leftarrow> addDirectVolume h targetPath devicePath fsType;
                 case a of
                   Some err \<Rightarrow> State_Monad.return (Done (Inl (StatusError Internal
                     (''addDirectVolume failed: '' @ Error (quote h) err))))
                 | None \<Rightarrow> State_Monad.return (Done (Inr ()))
               }
               else publish_volume h ns req vgName fsType devicePath volumeNewCreated
             }
         })"

definition NodeUnpublishVolume ::
  "'w host \<Rightarrow> ('w, 'z nodeState_ext) nodeServer \<Rightarrow> NodeUnpublishVolumeRequest \<Rightarrow>
     ('w, 'z, goerror + unit) nprog" where
  "NodeUnpublishVolume h ns req =
     (let volumeID = unpub_VolumeId req; targetPath = unpub_TargetPath req
      in if volumeID = [] then
           State_Monad.return (Inl (StatusError InvalidArgument ''NodeUnpublishVolume: Volume ID not provided''))
         else if targetPath = [] then
           State_Monad.return (Inl (StatusError Internal ''NodeUnpublishVolume: targetPath is empty''))
         else do {
           direct \<leftarrow> getDirect;
           (if direct then do { VolumeRemove h targetPath; State_Monad.return () } else State_Monad.return ());
           mnt \<leftarrow> m_IsMounted (ns_mounter ns) targetPath;
           case mnt of
             Inl err \<Rightarrow> do {
               st \<leftarrow> Stat h targetPath;
               if (case st of Inl e \<Rightarrow> IsNotExist e | Inr _ \<Rightarrow> False)
               then State_Monad.return (Inl (StatusError NotFound ''TargetPath not found''))
               else State_Monad.return (Inl (StatusError Internal (Error (quote h) err)))
             }
           | Inr isMnt \<Rightarrow>
               if \<not> isMnt then State_Monad.return (Inr ())
               else do {
                 u \<leftarrow> m_Unmount (ns_mounter ns) targetPath;
                 case u of
                   Some err \<Rightarrow> State_Monad.return (Inl (StatusError Internal (Error (quote h) err)))
                 | None \<Rightarrow> State_Monad.return (Inr ())
               }
         })"

definition NodeExpandVolume ::
  "'w host \<Rightarrow> ('w, 'z nodeState_ext) nodeServer \<Rightarrow> NodeExpandVolumeRequest \<Rightarrow>
     ('w, 'z, (goerror + unit) outcome) nprog" where
  "NodeExpandVolume h ns req =
     (let volumeID = exp_VolumeId req; targetPath = exp_VolumePath req
      in if volumeID = [] then
           State_Monad.return (Done (Inl (StatusError InvalidArgument ''NodeExpandVolume: Volume ID not provided'')))
         else if targetPath = [] then
           State_Monad.return (Done (Inl (StatusError InvalidArgument ''NodeExpandVolume: Target path not provided'')))
         else (case exp_RequiredBytes req of
             None \<Rightarrow> State_Monad.return (Panic ''nil pointer dereference'')
           | Some expectSize \<Rightarrow> do {
               direct \<leftarrow> getDirect;
               if direct then State_Monad.return (Done (Inr ()))
               else do {
                 (_, _, _, pv) \<leftarrow> getPvInfo h volumeID;
                 case GetVGNameFromCsiPV h pv of
                   Panic m \<Rightarrow> State_Monad.return (Panic m)
                 | Done vgName \<Rightarrow>
                     if vgName = [] then
                       State_Monad.return (Done (Inl (StatusError Internal
                         (''resizeVolume: Volume '' @ (case pv of None \<Rightarrow> [] | Some p \<Rightarrow> pv_Name p) @ '' with vgname empty''))))
                     else do {
                       r \<leftarrow> resizeVolume h ns volumeID vgName targetPath;
                       case r of
                         Some err \<Rightarrow> State_Monad.return (Done (Inl (StatusError Internal
                           (''NodeExpandVolume: Resize local volume '' @ volumeID @ '' with error: '' @ Error (quote h) err))))
                       | None \<Rightarrow> State_Monad.return (Done (Inr ()))
                     }
               }
             }))"

section \<open>The constructor\<close>

text \<open>\<open>NewNodeServer\<close>; the API client is part of the host, and the server starts with \<open>isDirect\<close> false.\<close>

definition NewNodeServer :: "'w host \<Rightarrow> string \<Rightarrow> ('w, 'z) nodeServer" where
  "NewNodeServer h nodeID = \<lparr>ns_nodeID = nodeID, ns_mounter = NewMounter h, ns_rn = NewExecRunner h\<rparr>"

definition device_of :: "NodePublishVolumeRequest \<Rightarrow> string" where
  "device_of req = path_Join [''/dev/'', ctx_or (pub_VolumeContext req) VgNameTag [], pub_VolumeId req]"

section \<open>Calls of the helpers\<close>

lemma setDirect_only [trace_rules]: "only P (setDirect b)"
  unfolding only_def by (rule producesI) (auto simp: setDirect_def)

lemma getDirect_only [trace_rules]: "only P getDirect"
  unfolding only_def by (rule producesI) (auto simp: getDirect_def)

lemma produces_getPvInfo_bind [produce_rules]:
  assumes "\<And>err. produces (f (0, 0, [], None)) (\<lambda>b es. Q b (GetPVEv vol (Inl err) # es))"
    and "\<And>pv. produces (f (pv_info pv)) (\<lambda>b es. Q b (GetPVEv vol (Inr (storage_bytes pv)) # es))"
  shows "produces (State_Monad.bind (getPvInfo h vol) f) Q"
proof (rule produces_bind)
  show "produces (getPvInfo h vol) (\<lambda>r es. (\<exists>err. r = (0, 0, [], None) \<and> es = [GetPVEv vol (Inl err)]) \<or>
     (\<exists>pv. r = pv_info pv \<and> es = [GetPVEv vol (Inr (storage_bytes pv))]))"
    unfolding getPvInfo_def host_call_defs by (intro produce_rules) (auto split: sum.split)
qed (use assms in auto)

lemma createVolume_calls: "only shell_or_query (createVolume h vol vg pt lt)"
  unfolding createVolume_def getPvInfo_def by (intro trace_rules createVG_calls) auto

section \<open>The field isDirect\<close>

lemma isDirect_frame: "isDirect (s\<lparr>world := w, events := es\<rparr>) = isDirect s"
  by simp

lemmas direct_calls = keeps_calls [where f = isDirect, OF isDirect_frame]

lemma Run_keeps: "keeps isDirect (Run h cmd)"
  unfolding Run_def by (intro trace_rules direct_calls)

lemma createVolume_keeps: "keeps isDirect (createVolume h vol vg pt lt)"
proof -
  have dev: "keeps isDirect (check_devices h ds)" for ds and h :: "'a host"
    by (induction ds) (auto simp: IsFileExisting_def intro!: trace_rules direct_calls Run_keeps)
  show ?thesis
    unfolding createVolume_def getPvInfo_def createVG_def Let_def
    by (intro trace_rules direct_calls Run_keeps dev)
qed

lemma getDirect_known:
  assumes "keeps isDirect m"
  shows "do { setDirect d; a \<leftarrow> m; x \<leftarrow> getDirect; k a x } = do { setDirect d; a \<leftarrow> m; k a d }"
  using keepsD [OF assms]
  by (intro state_ext) (auto simp: setDirect_def getDirect_def split: prod.split)

text \<open>The flag that the handler reads after its first steps is the one it has just set.\<close>

definition publish_prepare ::
  "'w host \<Rightarrow> NodePublishVolumeRequest \<Rightarrow> ('w, 'z, bool \<times> goerror option) prog" where
  "publish_prepare h req = do {
     st \<leftarrow> Stat h (device_of req);
     let new = (case st of Inl err \<Rightarrow> IsNotExist err | Inr _ \<Rightarrow> False);
     cr \<leftarrow> (if new then createVolume h (pub_VolumeId req) (ctx_or (pub_VolumeContext req) VgNameTag [])
              (ctx_or (pub_VolumeContext req) PvTypeTag CloudDisk)
              (ctx_or (pub_VolumeContext req) LvmTypeTag LinearType)
            else State_Monad.return None);
     State_Monad.return (new, cr)
   }"

definition publish_finish ::
  "'w host \<Rightarrow> ('w, 'z) nodeServer \<Rightarrow> NodePublishVolumeRequest \<Rightarrow> bool \<Rightarrow> goerror option \<Rightarrow>
     ('w, 'z, (goerror + unit) outcome) prog" where
  "publish_finish h ns req new cr =
     (let fsType = ctx_or (pub_VolumeContext req) FsTypeTag DefaultFs in
      case cr of
        Some err \<Rightarrow> State_Monad.return (Done (Inl (StatusError Aborted
          (''vgName/pvType/lvmType/volumeID not found, err: '' @ Error (quote h) err))))
      | None \<Rightarrow>
          if direct_of (pub_VolumeContext req) then do {
            a \<leftarrow> addDirectVolume h (pub_TargetPath req) (device_of req) fsType;
            case a of
              Some err \<Rightarrow> State_Monad.return (Done (Inl (StatusError Internal
                (''addDirectVolume failed: '' @ Error (quote h) err))))
            | None \<Rightarrow> State_Monad.return (Done (Inr ()))
          }
          else publish_volume h ns req (ctx_or (pub_VolumeContext req) VgNameTag []) fsType (device_of req) new)"

definition valid_publish :: "NodePublishVolumeRequest \<Rightarrow> bool" where
  "valid_publish req \<longleftrightarrow> pub_VolumeId req \<noteq> [] \<and> pub_TargetPath req \<noteq> [] \<and>
     ctx_or (pub_VolumeContext req) VgNameTag [] \<noteq> []"

lemma publish_prepare_keeps: "keeps isDirect (publish_prepare h req)"
  unfolding publish_prepare_def Let_def by (intro trace_rules direct_calls createVolume_keeps)

lemma NodePublishVolume_eq:
  assumes "valid_publish req"
  shows "NodePublishVolume h ns req = do {
     setDirect (direct_of (pub_VolumeContext req));
     (new, cr) \<leftarrow> publish_prepare h req;
     publish_finish h ns req new cr }"
proof -
  have "NodePublishVolume h ns req = do {
     setDirect (direct_of (pub_VolumeContext req));
     a \<leftarrow> publish_prepare h req;
     direct \<leftarrow> getDirect;
     (case snd a of
        Some err \<Rightarrow> publish_finish h ns req (fst a) (Some err)
      | None \<Rightarrow> if direct then do {
            r \<leftarrow> addDirectVolume h (pub_TargetPath req) (device_of req) (ctx_or (pub_VolumeContext req) FsTypeTag DefaultFs);
            case r of
              Some err \<Rightarrow> State_Monad.return (Done (Inl (StatusError Internal
                (''addDirectVolume failed: '' @ Error (quote h) err))))
            | None \<Rightarrow> State_Monad.return (Done (Inr ()))
          }
          else publish_volume h ns req (ctx_or (pub_VolumeContext req) VgNameTag [])
            (ctx_or (pub_VolumeContext req) FsTypeTag DefaultFs) (device_of req) (fst a)) }"
    using assms
    by (intro state_ext)
       (simp add: NodePublishVolume_def valid_publish_def publish_prepare_def publish_finish_def
          device_of_def Let_def getDirect_def split: prod.split option.split)
  also have "\<dots> = do {
     setDirect (direct_of (pub_VolumeContext req));
     a \<leftarrow> publish_prepare h req;
     publish_finish h ns req (fst a) (snd a) }"
    by (subst getDirect_known [OF publish_prepare_keeps])
       (intro arg_cong2 [where f = State_Monad.bind] refl ext, simp add: publish_finish_def split: option.split)
  finally show ?thesis by (simp add: case_prod_beta')
qed

text \<open>
  The node server as a client of two interfaces: the mounter and the runner. What it relies
  on of the runner is that \<open>ResizeFS\<close> does nothing but resize.
\<close>

locale node_contract = mounter_contract M
  for M :: "('w, 'z nodeState_ext) Mounter" +
  fixes R :: "('w, 'z nodeState_ext) ExecRunner"
  assumes ResizeFS_calls: "only (\<lambda>e. \<exists>r. e = ResizeFSEv d m r) (rn_ResizeFS R d m)"
    and IsMounted_keeps: "keeps isDirect (m_IsMounted M t)"
    and Mount_keeps: "keeps isDirect (m_Mount M src t fs opts)"
    and Unmount_keeps: "keeps isDirect (m_Unmount M t)"
    and ResizeFS_keeps: "keeps isDirect (rn_ResizeFS R d m)"
begin

lemma ResizeFS_only: "(\<And>r. P (ResizeFSEv d m r)) \<Longrightarrow> only P (rn_ResizeFS R d m)"
  by (rule only_mono [OF ResizeFS_calls]) auto

lemma resizeVolume_only:
  assumes "ns_rn ns = R"
    and "\<And>r. P (GetPVEv vol r)"
    and "\<And>out err. P (ExecEv ''sh'' [''-c'', lv_size_cmd (path_Join [''/dev'', vg, vol])] out err)"
    and "\<And>n u out err. P (ExecEv ''sh'' [''-c'', lvextend_cmd n u (path_Join [''/dev'', vg, vol])] out err)"
    and "\<And>r. P (ResizeFSEv (path_Join [''/dev'', vg, vol]) t r)"
  shows "only P (resizeVolume h ns vol vg t)"
  unfolding resizeVolume_def getPvInfo_def Let_def assms(1)
  by (intro trace_rules ResizeFS_only) (auto simp: assms)

lemma publish_mount_formats:
  assumes "ns_mounter ns = M" and "ns_rn ns = R"
  shows "guards is_mkfs (blank_ev dev) (publish_mount h ns req vg fs dev new isMnt)"
  unfolding publish_mount_def Let_def assms(1)
proof (rule guards_test [OF checkFSType_blank], goal_cases)
  case (1 c)
  show ?case
    by (intro trace_rules resizeVolume_only [OF assms(2)] mounter_appends)
       (auto simp: formatDevice_def intro!: trace_rules mounter_appends)
next
  case (2 c)
  then show ?case
    by (intro trace_rules guards_of_only [OF resizeVolume_only [OF assms(2)]] guards_of_only [OF Mount_only])
       (auto simp: HasPrefix_def)
qed

lemma publish_volume_formats:
  assumes "ns_mounter ns = M" and "ns_rn ns = R"
  shows "guards is_mkfs (blank_ev dev) (publish_volume h ns req vg fs dev new)"
  unfolding publish_volume_def Let_def assms(1)
  by (intro trace_rules guards_of_only [OF IsMounted_only] publish_mount_formats [OF assms])
     (auto simp: HasPrefix_def)

end

end
