(* ===== verification/Lvm_Node_Theorems.thy ===== *)
theory Lvm_Node_Theorems
  imports Lvm_NodeServer Sample_Host
begin

text \<open>
  What the node service guarantees: which calls of the host each handler may make, in which
  order, and what a reply to the caller means. The contracts of the mounter and the runner are
  discharged for the implementations that \<open>NewNodeServer\<close> installs.
\<close>

section \<open>The implementations meet the contracts\<close>

lemma mounter_keeps:
  "keeps isDirect (IsMounted h t)" "keeps isDirect (Mount h src t fs opts)" "keeps isDirect (Unmount h t)"
  unfolding IsMounted_def Mount_def Unmount_def Let_def by (intro trace_rules direct_calls)+

interpretation std_node: node_contract "NewMounter h" "NewExecRunner h" for h
  by unfold_locales
     (simp_all add: NewMounter_def NewExecRunner_def mounter_keeps direct_calls only_calls)

lemma NewNodeServer_parts [simp]:
  "ns_mounter (NewNodeServer h i) = NewMounter h" "ns_rn (NewNodeServer h i) = NewExecRunner h"
  "ns_nodeID (NewNodeServer h i) = i"
  by (simp_all add: NewNodeServer_def)

section \<open>Requests with missing arguments\<close>

lemma publish_invalid:
  assumes "\<not> valid_publish req"
  obtains m where "NodePublishVolume h ns req = State_Monad.return (Done (Inl (StatusError InvalidArgument m)))"
proof -
  have "\<exists>m. NodePublishVolume h ns req = State_Monad.return (Done (Inl (StatusError InvalidArgument m)))"
    using assms unfolding valid_publish_def NodePublishVolume_def Let_def
    by (cases "pub_VolumeId req = []"; cases "pub_TargetPath req = []") auto
  with that show thesis by blast
qed

lemma publish_by_parts:
  assumes "\<And>m. X (State_Monad.return (Done (Inl (StatusError InvalidArgument m))))"
    and "valid_publish req \<Longrightarrow> X (do {
       setDirect (direct_of (pub_VolumeContext req));
       (new, cr) \<leftarrow> publish_prepare h req;
       publish_finish h ns req new cr })"
  shows "X (NodePublishVolume h ns req)"
proof (cases "valid_publish req")
  case True
  with assms(2) show ?thesis by (simp add: NodePublishVolume_eq)
next
  case False
  then obtain m where "NodePublishVolume h ns req = State_Monad.return (Done (Inl (StatusError InvalidArgument m)))"
    by (rule publish_invalid)
  with assms(1) show ?thesis by simp
qed

section \<open>Formatting\<close>

lemma setDirect_guards [trace_rules]: "guards bad ok (setDirect b)"
  by (rule guards_of_only) (rule setDirect_only)

lemma shell_or_query_not_mkfs [simp]: "shell_or_query e \<Longrightarrow> \<not> is_mkfs e"
  by (cases e) (auto simp: HasPrefix_def)

lemma publish_formats:
  "guards is_mkfs (blank_ev (device_of req)) (NodePublishVolume h (NewNodeServer h i) req)"
proof (rule publish_by_parts)
  have prep: "only (\<lambda>e. \<not> is_mkfs e) (publish_prepare h req)"
    unfolding publish_prepare_def Let_def
    by (intro trace_rules only_mono [OF createVolume_calls]) auto
  show "guards is_mkfs (blank_ev (device_of req)) (do {
       setDirect (direct_of (pub_VolumeContext req));
       (new, cr) \<leftarrow> publish_prepare h req;
       publish_finish h (NewNodeServer h i) req new cr })"
    unfolding publish_finish_def addDirectVolume_def Let_def
    by (intro trace_rules guards_of_only [OF prep] std_node.publish_volume_formats) simp_all
qed (rule guards_return)

section \<open>Creating logical volumes\<close>

fun missing_ev :: "string \<Rightarrow> event \<Rightarrow> bool" where
  "missing_ev p (StatEv q (Inl err)) \<longleftrightarrow> p = q \<and> IsNotExist err"
| "missing_ev p _ = False"

definition is_lvcreate :: "event \<Rightarrow> bool" where
  "is_lvcreate e = (case shell_of e of None \<Rightarrow> False | Some c \<Rightarrow> HasPrefix c (NsenterCmd @ '' lvcreate ''))"

definition vgck_ok_ev :: "string \<Rightarrow> event \<Rightarrow> bool" where
  "vgck_ok_ev vg e = (\<exists>out. e = ExecEv ''sh'' [''-c'', NsenterCmd @ '' vgck '' @ vg] out None)"

lemma is_lvcreate_shell [simp]:
  "is_lvcreate (ExecEv ''sh'' [''-c'', NsenterCmd @ c] out err) = HasPrefix c '' lvcreate ''"
  by (simp add: is_lvcreate_def NsenterCmd_def HasPrefix_def)

lemma is_lvcreate_exec [simp]: "is_exec p e \<Longrightarrow> p \<noteq> ''sh'' \<Longrightarrow> \<not> is_lvcreate e"
  by (cases e) (auto simp: is_lvcreate_def)

lemma is_lvcreate_other [simp]:
  "\<not> is_lvcreate (StatEv p r)" "\<not> is_lvcreate (GetPVEv v cap)" "\<not> is_lvcreate (MkdirAllEv p x)"
  "\<not> is_lvcreate (ResizeFSEv p q f)" "\<not> is_lvcreate (VolumeAddEv p q x)"
  "c \<noteq> ''sh'' \<Longrightarrow> \<not> is_lvcreate (ExecEv c args out x)"
  by (simp_all add: is_lvcreate_def)

lemma Run_shows:
  "shows_ev (\<lambda>r. \<exists>out. r = Inr out) (\<lambda>e. \<exists>out. e = ExecEv ''sh'' [''-c'', cmd] out None) (Run h cmd)"
  unfolding Run_def host_call_defs shows_ev_def by (intro produce_rules) auto

lemma createVG_no_lvcreate: "only (\<lambda>e. \<not> is_lvcreate e) (createVG h vg)"
proof -
  have dev: "only (\<lambda>e. \<not> is_lvcreate e) (check_devices h ds)" for ds :: "string list" and h :: "'a host"
    by (induction ds) (auto simp: IsFileExisting_def HasPrefix_def intro!: trace_rules)
  show ?thesis
    unfolding createVG_def vg_count_cmd_def Let_def by (intro trace_rules dev) (auto simp: HasPrefix_def)
qed

lemma createVolume_checks_vg: "guards is_lvcreate (vgck_ok_ev vg) (createVolume h vol vg pt lt)"
proof -
  have ck: "produces (Run h (NsenterCmd @ '' vgck '' @ vg))
    (\<lambda>r es. list_all (\<lambda>e. \<not> is_lvcreate e) es \<and> ((\<exists>out. r = Inr out) \<longrightarrow> list_ex (vgck_ok_ev vg) es))" for h :: "'a host"
    unfolding Run_def host_call_defs by (intro produce_rules) (auto simp: HasPrefix_def vgck_ok_ev_def)
  show ?thesis
    unfolding createVolume_def getPvInfo_def
    by (intro guards_if guards_only_bind trace_rules guards_of_only [OF createVG_no_lvcreate]
          guards_test [OF ck] createVG_no_lvcreate)
       (auto intro!: trace_rules)
qed

section \<open>The calls after the volume exists\<close>

text \<open>
  Everything \<open>NodePublishVolume\<close> does once the logical volume is there: check the mount table, look
  at the device, format, mount, read the sizes, extend, resize, or register a direct volume.
\<close>

definition resize_device :: "NodePublishVolumeRequest \<Rightarrow> string" where
  "resize_device req = path_Join [''/dev'', ctx_or (pub_VolumeContext req) ''vgName'' [], pub_VolumeId req]"

fun finish_call :: "NodePublishVolumeRequest \<Rightarrow> event \<Rightarrow> bool" where
  "finish_call req (ExecEv p args out err) \<longleftrightarrow>
     p = ''grep'' \<or> p = ''mount'' \<or>
     p = ''file'' \<and> args = [''-bsL'', device_of req] \<or>
     p = ''blkid'' \<and> args = [''-c'', ''/dev/null'', ''-o'', ''export'', device_of req] \<or>
     p = ''mkfs'' \<and> args = [''-t'', ctx_or (pub_VolumeContext req) ''fsType'' ''ext4'', device_of req] \<or>
     p = ''sh'' \<and> args = [''-c'', lv_size_cmd (resize_device req)] \<or>
     p = ''sh'' \<and> (\<exists>n u. args = [''-c'', lvextend_cmd n u (resize_device req)])"
| "finish_call req (StatEv p r) = (p = pub_TargetPath req)"
| "finish_call req (MkdirAllEv p r) = (p = pub_TargetPath req)"
| "finish_call req (GetPVEv v c) = (v = pub_VolumeId req)"
| "finish_call req (ResizeFSEv d m r) = (d = resize_device req \<and> m = pub_TargetPath req)"
| "finish_call req (VolumeAddEv p mi r) = (p = pub_TargetPath req)"
| "finish_call req _ = False"

lemma finish_call_exec [simp]: "is_exec p e \<Longrightarrow> p = ''grep'' \<or> p = ''mount'' \<Longrightarrow> finish_call req e"
  by (cases e) auto

lemma finish_call_not_lvcreate [simp]: "finish_call req e \<Longrightarrow> \<not> is_lvcreate e"
  by (cases e) (auto simp: lv_size_cmd_def lvextend_cmd_def HasPrefix_def)

context node_contract
begin

lemma publish_mount_calls:
  assumes "ns_mounter ns = M" and "ns_rn ns = R"
  shows "only (finish_call req) (publish_mount h ns req (ctx_or (pub_VolumeContext req) ''vgName'' [])
    (ctx_or (pub_VolumeContext req) ''fsType'' ''ext4'') (device_of req) new isMnt)"
  unfolding publish_mount_def formatDevice_def Let_def assms
  by (intro trace_rules checkFSType_only Mount_only resizeVolume_only [OF assms(2)])
     (auto simp: resize_device_def)

lemma publish_volume_calls:
  assumes "ns_mounter ns = M" and "ns_rn ns = R"
  shows "only (finish_call req) (publish_volume h ns req (ctx_or (pub_VolumeContext req) ''vgName'' [])
    (ctx_or (pub_VolumeContext req) ''fsType'' ''ext4'') (device_of req) new)"
  unfolding publish_volume_def Let_def assms(1)
  by (intro trace_rules IsMounted_only publish_mount_calls [OF assms]) auto

lemma publish_finish_calls:
  assumes "ns_mounter ns = M" and "ns_rn ns = R"
  shows "only (finish_call req) (publish_finish h ns req new cr)"
  unfolding publish_finish_def addDirectVolume_def Let_def
  by (intro trace_rules publish_volume_calls [OF assms]) auto

end

lemma publish_creates:
  fixes h :: "'w host"
  shows "guards is_lvcreate (missing_ev (device_of req)) (NodePublishVolume h (NewNodeServer h i) req)"
  "guards is_lvcreate (vgck_ok_ev (ctx_or (pub_VolumeContext req) ''vgName'' [])) (NodePublishVolume h (NewNodeServer h i) req)"
proof -
  have fin: "guards is_lvcreate ok (publish_finish h (NewNodeServer h i :: ('w, 'z nodeState_ext) nodeServer) req new cr)" for ok new cr
    by (rule guards_of_only, rule only_mono [OF std_node.publish_finish_calls]) auto
  have st: "produces (Stat h d) (\<lambda>r es. list_all (\<lambda>e. \<not> is_lvcreate e) es \<and>
     ((case r of Inl err \<Rightarrow> IsNotExist err | Inr _ \<Rightarrow> False) \<longrightarrow> list_ex (missing_ev d) es))" for d
    unfolding host_call_defs by (intro produce_rules) (auto split: sum.splits)
  have pre: "guards is_lvcreate (missing_ev (device_of req)) (publish_prepare h req)"
    unfolding publish_prepare_def Let_def
    by (rule guards_test [OF st]; intro trace_rules only_mono [OF createVolume_calls]) auto
  have pre': "guards is_lvcreate (vgck_ok_ev (ctx_or (pub_VolumeContext req) ''vgName'' [])) (publish_prepare h req)"
    unfolding publish_prepare_def Let_def by (intro trace_rules createVolume_checks_vg) auto
  show "guards is_lvcreate (missing_ev (device_of req)) (NodePublishVolume h (NewNodeServer h i) req)"
    by (rule publish_by_parts) (intro trace_rules pre fin)+
  show "guards is_lvcreate (vgck_ok_ev (ctx_or (pub_VolumeContext req) ''vgName'' [])) (NodePublishVolume h (NewNodeServer h i) req)"
    by (rule publish_by_parts) (intro trace_rules pre' fin)+
qed

section \<open>What a successful publish means\<close>

text \<open>The target is mounted: the mount table shows it, or \<open>mount\<close> has just succeeded.\<close>

definition published_ev :: "NodePublishVolumeRequest \<Rightarrow> event \<Rightarrow> bool" where
  "published_ev req e \<longleftrightarrow> mounted_ev (pub_TargetPath req) e \<or>
     mount_ok_ev (device_of req) (pub_TargetPath req) (ctx_or (pub_VolumeContext req) ''fsType'' ''ext4'')
       (mount_options req) e"

text \<open>The target is registered as a direct volume for the runtime.\<close>

definition direct_ev :: "NodePublishVolumeRequest \<Rightarrow> event \<Rightarrow> bool" where
  "direct_ev req e \<longleftrightarrow> e = VolumeAddEv (pub_TargetPath req)
     (Marshal_MountInfo \<lparr>mi_VolumeType = ''block'', mi_Device = device_of req,
        mi_FsType = ctx_or (pub_VolumeContext req) ''fsType'' ''ext4''\<rparr>) None"

lemma append_rules:
  "only (\<lambda>_. True) (checkFSType h d)" "only (\<lambda>_. True) (formatDevice h d fs)"
  "only (\<lambda>_. True) (createVolume h vol vg pt lt)" "only (\<lambda>_. True) (publish_prepare h req)"
  unfolding checkFSType_def formatDevice_def publish_prepare_def Let_def
  by (intro trace_rules only_mono [OF createVolume_calls] TrueI)+

context node_contract
begin

lemma resizeVolume_appends: "ns_rn ns = R \<Longrightarrow> only (\<lambda>_. True) (resizeVolume h ns vol vg t)"
  by (rule resizeVolume_only) auto

lemma publish_mount_appends:
  assumes "ns_mounter ns = M" and "ns_rn ns = R"
  shows "only (\<lambda>_. True) (publish_mount h ns req vg fs dev new isMnt)"
  unfolding publish_mount_def Let_def assms(1)
  by (intro trace_rules append_rules mounter_appends resizeVolume_appends [OF assms(2)])

lemma publish_mount_mounts:
  assumes "ns_mounter ns = M" and "ns_rn ns = R"
  shows "shows_ev (\<lambda>r. r = Inr ()) (mount_ok_ev dev (pub_TargetPath req) fs (mount_options req))
    (publish_mount h ns req vg fs dev new False)"
  unfolding publish_mount_def Let_def assms not_False_eq_True if_True
  by (intro trace_rules append_rules shows_test [OF Mount_done])
     (auto intro!: trace_rules resizeVolume_appends [OF assms(2)])

lemma publish_volume_mounts:
  assumes "ns_mounter ns = M" and "ns_rn ns = R"
  shows "shows_ev (\<lambda>r. r = Done (Inr ())) (\<lambda>e. mounted_ev (pub_TargetPath req) e \<or>
      mount_ok_ev dev (pub_TargetPath req) fs (mount_options req) e)
    (publish_volume h ns req vg fs dev new)"
proof -
  have mnt: "shows_ev (\<lambda>r. r = Done (Inr ())) (\<lambda>e. mounted_ev (pub_TargetPath req) e \<or>
      mount_ok_ev dev (pub_TargetPath req) fs (mount_options req) e)
    (do { r \<leftarrow> publish_mount h ns req vg fs dev new False; State_Monad.return (Done r) })" for h
    by (rule shows_mono [where S = "\<lambda>r. r = Done (Inr ())", OF shows_test [OF publish_mount_mounts [OF assms]]])
       (auto intro!: trace_rules)
  have yes: "shows_ev (\<lambda>r. r = Inr True) (\<lambda>e. mounted_ev (pub_TargetPath req) e \<or>
      mount_ok_ev dev (pub_TargetPath req) fs (mount_options req) e) (m_IsMounted M (pub_TargetPath req))"
    by (rule shows_mono [OF IsMounted_yes]) auto
  show ?thesis
    unfolding publish_volume_def Let_def assms(1)
  proof (rule shows_test [OF yes], goal_cases)
    case (1 a)
    then show ?case by (simp only: sum.case) (intro trace_rules publish_mount_appends [OF assms])
  next
    case (2 a)
    show ?case
    proof (cases a)
      case (Inl err)
      show ?thesis unfolding Inl sum.case by (intro trace_rules mnt) auto
    next
      case (Inr isMnt)
      with 2 have "a = Inr False" by simp
      then show ?thesis by (simp only: sum.case mnt)
    qed
  qed
qed

lemma publish_finish_mounts:
  assumes "ns_mounter ns = M" and "ns_rn ns = R" and "\<not> direct_of (pub_VolumeContext req)"
  shows "shows_ev (\<lambda>r. r = Done (Inr ())) (published_ev req) (publish_finish h ns req new cr)"
  unfolding publish_finish_def published_ev_def Let_def
  by (intro trace_rules publish_volume_mounts [OF assms(1,2)]) (auto simp: assms(3))

end

lemma addDirectVolume_shows:
  "shows_ev (\<lambda>r. r = None) (\<lambda>e. e = VolumeAddEv t (Marshal_MountInfo
     \<lparr>mi_VolumeType = ''block'', mi_Device = dev, mi_FsType = fs\<rparr>) None) (addDirectVolume h t dev fs)"
  unfolding addDirectVolume_def host_call_defs Let_def shows_ev_def by (intro produce_rules) auto

lemma publish_finish_direct:
  assumes "direct_of (pub_VolumeContext req)"
  shows "shows_ev (\<lambda>r. r = Done (Inr ())) (direct_ev req) (publish_finish h ns req new cr)"
    and "only (\<lambda>e. \<exists>mi r. e = VolumeAddEv (pub_TargetPath req) mi r) (publish_finish h ns req new cr)"
proof -
  show "shows_ev (\<lambda>r. r = Done (Inr ())) (direct_ev req) (publish_finish h ns req new cr)"
    unfolding publish_finish_def Let_def direct_ev_def
    by (intro trace_rules shows_test [OF addDirectVolume_shows])
       (use assms in \<open>auto intro!: trace_rules\<close>)
  show "only (\<lambda>e. \<exists>mi r. e = VolumeAddEv (pub_TargetPath req) mi r) (publish_finish h ns req new cr)"
    unfolding publish_finish_def addDirectVolume_def Let_def
    by (intro trace_rules) (use assms in auto)
qed

section \<open>Sizes and resizing\<close>

text \<open>The size that a capacity in bytes is given to the LVM tools with, and what that size amounts to.\<close>

definition lvm_size :: "int \<Rightarrow> int \<times> string" where
  "lvm_size b = (if go_div b (1024 * 1024 * 1024) = 0 then (go_div b (1024 * 1024), ''m'')
     else (go_div b (1024 * 1024 * 1024), ''g''))"

definition unit_bytes :: "string \<Rightarrow> int" where
  "unit_bytes u = (if u = ''g'' then 1024 * 1024 * 1024 else 1024 * 1024)"

definition lvm_bytes :: "int \<times> string \<Rightarrow> int" where
  "lvm_bytes x = fst x * unit_bytes (snd x)"

lemma pv_info_size: "pv_info pv = (fst (lvm_size (storage_bytes pv)), storage_bytes pv, snd (lvm_size (storage_bytes pv)), Some pv)"
  by (simp add: pv_info_def lvm_size_def Let_def)

lemma lvm_size_bounds:
  assumes "0 \<le> b"
  shows "lvm_bytes (lvm_size b) \<le> b" and "b < lvm_bytes (lvm_size b) + unit_bytes (snd (lvm_size b))"
  using assms by (auto simp: lvm_size_def lvm_bytes_def unit_bytes_def go_div_nonneg)

definition lv_size_of :: "string \<Rightarrow> goerror + int" where
  "lv_size_of out = ParseInt (TrimSpace (Split out ''.'' ! 0))"

definition is_lvextend :: "event \<Rightarrow> bool" where
  "is_lvextend e = (case shell_of e of None \<Rightarrow> False | Some c \<Rightarrow> HasPrefix c (NsenterCmd @ '' lvextend ''))"

lemma is_lvextend_simps [simp]:
  "is_lvextend (ExecEv ''sh'' [''-c'', lvextend_cmd n u d] out err)"
  "\<not> is_lvextend (ExecEv ''sh'' [''-c'', lv_size_cmd d] out err)"
  "\<not> is_lvextend (GetPVEv v cap)" "\<not> is_lvextend (ResizeFSEv d m r)"
  by (simp_all add: is_lvextend_def lvextend_cmd_def lv_size_cmd_def NsenterCmd_def HasPrefix_def)

text \<open>
  The answer \<open>g\<close> of the API server on the capacity of the volume, the size that the code takes from
  it, and a size \<open>n\<close> of the logical volume that \<open>lvdisplay\<close> reported.
\<close>

definition capacity_of :: "goerror + int \<Rightarrow> int" where
  "capacity_of g = (case g of Inl _ \<Rightarrow> 0 | Inr cap \<Rightarrow> cap)"

definition size_args :: "goerror + int \<Rightarrow> int \<times> string" where
  "size_args g = (case g of Inl _ \<Rightarrow> (0, []) | Inr cap \<Rightarrow> lvm_size cap)"

definition sizes_read :: "string \<Rightarrow> string \<Rightarrow> event list \<Rightarrow> goerror + int \<Rightarrow> int \<Rightarrow> bool" where
  "sizes_read vol dev es g n \<longleftrightarrow> GetPVEv vol g \<in> set es \<and>
     (\<exists>out. ExecEv ''sh'' [''-c'', lv_size_cmd dev] out None \<in> set es \<and> lv_size_of out = Inr n)"

definition extend_cmd :: "goerror + int \<Rightarrow> string \<Rightarrow> string" where
  "extend_cmd g dev = lvextend_cmd (fst (size_args g)) (snd (size_args g)) dev"

lemma size_cmd_not_extend [simp]: "lv_size_cmd d \<noteq> lvextend_cmd n u d'"
  by (simp add: lvextend_cmd_def lv_size_cmd_def)

lemma resizeVolume_trace:
  fixes vg vol :: string
  defines "dev \<equiv> path_Join [''/dev'', vg, vol]"
  shows "produces (resizeVolume h (NewNodeServer h i) vol vg t)
    (\<lambda>r es. list_all (\<lambda>e. is_lvextend e \<longrightarrow> (\<exists>g n. sizes_read vol dev es g n \<and> n < capacity_of g \<and>
         shell_of e = Some (extend_cmd g dev))) es \<and>
       (r = None \<longrightarrow> (\<exists>g n. sizes_read vol dev es g n \<and> (capacity_of g \<le> n \<or>
          (\<exists>out. ExecEv ''sh'' [''-c'', extend_cmd g dev] out None \<in> set es) \<and>
          ResizeFSEv dev t (Inr True) \<in> set es))))"
  unfolding resizeVolume_def host_call_defs Let_def NewNodeServer_parts NewExecRunner_def
    ExecRunner.select_convs dev_def [symmetric]
  by (intro produce_rules)
     (auto simp: pv_info_size sizes_read_def lv_size_of_def extend_cmd_def size_args_def capacity_of_def
        intro: exI [of _ "Inl _"] exI [of _ "Inr _"])

text \<open>The command that creates a volume, from the answer of the API server and the number of stripes.\<close>

definition linear_cmd :: "string \<Rightarrow> string \<Rightarrow> goerror + int \<Rightarrow> string" where
  "linear_cmd vol vg g = NsenterCmd @ '' lvcreate -n '' @ vol @ '' -L '' @
     show_int (fst (size_args g)) @ snd (size_args g) @ '' '' @ vg"

definition striping_cmd :: "string \<Rightarrow> string \<Rightarrow> int \<Rightarrow> goerror + int \<Rightarrow> string" where
  "striping_cmd vol vg k g = NsenterCmd @ '' lvcreate -i '' @ show_int k @ '' -n '' @ vol @ '' -L '' @
     show_int (fst (size_args g)) @ snd (size_args g) @ '' '' @ vg"

definition ran_ok :: "string \<Rightarrow> event list \<Rightarrow> bool" where
  "ran_ok cmd es \<longleftrightarrow> (\<exists>out. ExecEv ''sh'' [''-c'', cmd] out None \<in> set es)"

lemma produces_sizes:
  assumes "\<And>g x. produces (f (fst (size_args g), capacity_of g, snd (size_args g), x)) (\<lambda>b es. Q b (GetPVEv vol g # es))"
  shows "produces (State_Monad.bind (getPvInfo h vol) f) Q"
  using assms [of "Inl _"] assms [of "Inr _"]
  by (intro produces_getPvInfo_bind) (simp_all add: size_args_def capacity_of_def pv_info_size)

lemma createVolume_trace:
  "produces (createVolume h vol vg pt lt) (\<lambda>r es. r = None \<longrightarrow>
     (lt = ''linear'' \<longrightarrow> (\<exists>g. GetPVEv vol g \<in> set es \<and> ran_ok (linear_cmd vol vg g) es)) \<and>
     (lt = ''striping'' \<longrightarrow> (\<exists>g k. GetPVEv vol g \<in> set es \<and> ran_ok (striping_cmd vol vg k g) es \<and>
        (pt \<noteq> ''localdisk'' \<longrightarrow> k = 0))) \<and>
     (lt \<notin> {''linear'', ''striping''} \<longrightarrow> \<not> list_ex is_lvcreate es))"
proof -
  have vg: "produces (if pt = ''localdisk'' then createVG h vg else State_Monad.return (Inr 0))
    (\<lambda>r es. \<not> list_ex is_lvcreate es \<and> (pt \<noteq> ''localdisk'' \<longrightarrow> r = Inr 0))" for h :: "'a host"
    by (intro produces_if produces_weaken [OF produces_of_only [OF createVG_no_lvcreate]])
       (auto simp: list_all_iff list_ex_iff intro: produce_rules)
  show ?thesis
    unfolding createVolume_def
    by (intro produces_sizes produces_prod produces_bind [OF vg] produces_sum produces_Run_bind produces_if produces_returnI;
        (elim conjE Pair_inject)?;
        simp add: linear_cmd_def striping_cmd_def ran_ok_def HasPrefix_def; blast?)
qed

section \<open>Unpublishing, expanding, panics\<close>

lemma unpublish_shows:
  "shows_ev (\<lambda>r. r = Inr ()) (\<lambda>e. unmounted_ev (unpub_TargetPath req) e \<or> umount_ok_ev (unpub_TargetPath req) e)
     (NodeUnpublishVolume h (NewNodeServer h i) req)"
proof -
  have no: "shows_ev (\<lambda>r. r = Inr False) (\<lambda>e. unmounted_ev t e \<or> umount_ok_ev t e) (m_IsMounted (NewMounter h) t)" for t
    by (rule shows_mono [OF std_mounter.IsMounted_no]) auto
  have un: "shows_ev (\<lambda>r. r = None) (\<lambda>e. unmounted_ev t e \<or> umount_ok_ev t e) (m_Unmount (NewMounter h) t)" for t
    by (rule shows_mono [OF std_mounter.Unmount_done]) auto
  have rest: "shows_ev (\<lambda>r. r = Inr ()) (\<lambda>e. unmounted_ev t e \<or> umount_ok_ev t e) (do {
      mnt \<leftarrow> m_IsMounted (NewMounter h) t;
      case mnt of
        Inl err \<Rightarrow> f err
      | Inr isMnt \<Rightarrow> if \<not> isMnt then State_Monad.return (Inr ())
          else do {
            u \<leftarrow> m_Unmount (NewMounter h) t;
            case u of Some err \<Rightarrow> State_Monad.return (Inl (g err)) | None \<Rightarrow> State_Monad.return (Inr ()) } })"
    if "\<And>err. shows_ev (\<lambda>r. r = Inr ()) (\<lambda>e. unmounted_ev t e \<or> umount_ok_ev t e) (f err)" for t f g
  proof (rule shows_test [OF no], goal_cases)
    case (1 a)
    then show ?case by (simp add: only_return)
  next
    case (2 a)
    with that show ?case
      by (cases a) (auto intro!: shows_test [OF un] shows_return only_return split: option.split)
  qed
  show ?thesis
    unfolding NodeUnpublishVolume_def Let_def NewNodeServer_parts
    by (intro shows_if shows_return shows_bind [OF getDirect_only] shows_bind [OF only_if] rest)
       (auto intro!: trace_rules)
qed

fun is_volume_remove :: "event \<Rightarrow> bool" where
  "is_volume_remove (VolumeRemoveEv _ _) = True"
| "is_volume_remove _ = False"

lemma is_volume_remove_exec [simp]: "is_exec p e \<Longrightarrow> \<not> is_volume_remove e"
  by (cases e) auto

definition panic_trace :: "string \<Rightarrow> event list \<Rightarrow> bool" where
  "panic_trace t es \<longleftrightarrow> (\<exists>xs out err fi. TrimSpace out \<noteq> [] \<and>
     es = xs @ [ExecEv ''grep'' [t, ''/proc/mounts''] out (Some err), StatEv t (Inr fi)])"

lemma publish_volume_panics:
  fixes h :: "'w host" and i :: string
  defines "ns \<equiv> NewNodeServer h i :: ('w, 'z nodeState_ext) nodeServer"
  assumes "pub_TargetPath req \<noteq> []"
  shows "produces (publish_volume h ns req vg fs dev new)
     (\<lambda>r es. panics r \<longrightarrow> panic_trace (pub_TargetPath req) es)"
proof -
  have pm: "produces (do { r \<leftarrow> publish_mount h ns req vg fs dev new m; State_Monad.return (Done r) })
      (\<lambda>r es. panics r \<longrightarrow> Q r es)" for m Q
    unfolding ns_def
    by (rule produces_bind [OF produces_of_only [OF std_node.publish_mount_appends]])
       (auto intro: produce_rules)
  have mnt: "produces (m_IsMounted (NewMounter h) (pub_TargetPath req)) (\<lambda>r es. \<forall>m. r = Inl m \<longrightarrow>
     (\<exists>out err. TrimSpace out \<noteq> [] \<and> es = [ExecEv ''grep'' [pub_TargetPath req, ''/proc/mounts''] out (Some err)]))"
    using assms(2) unfolding NewMounter_def Mounter.select_convs IsMounted_def host_call_defs Let_def
    by (intro produce_rules) auto
  show ?thesis
    unfolding publish_volume_def Let_def ns_def NewNodeServer_parts
    apply (rule produces_bind [OF mnt])
    unfolding ns_def [symmetric] host_call_defs
    by (intro produce_rules pm) (auto simp: panic_trace_def)
qed

lemma panic_trace_after:
  "produces m (\<lambda>r es. panics r \<longrightarrow> panic_trace t es) \<Longrightarrow>
   produces m (\<lambda>r es. panics r \<longrightarrow> panic_trace t (xs @ ys @ es))"
  by (erule produces_weaken) (auto simp: panic_trace_def intro: exI [of _ "xs @ ys @ _"])

lemma publish_panic:
  "produces (NodePublishVolume h (NewNodeServer h i) req)
     (\<lambda>r es. panics r \<longrightarrow> panic_trace (pub_TargetPath req) es)"
proof (rule publish_by_parts)
  assume valid: "valid_publish req"
  have add: "only (\<lambda>_. True) (addDirectVolume h t dev fs)" for h :: "'c host" and t dev fs
    unfolding addDirectVolume_def Let_def by (intro trace_rules TrueI)
  have target: "pub_TargetPath req \<noteq> []"
    using valid by (simp add: valid_publish_def)
  have fin: "produces (publish_finish h (NewNodeServer h i :: ('c, 'd nodeState_ext) nodeServer) req new cr)
     (\<lambda>r es. panics r \<longrightarrow> panic_trace (pub_TargetPath req) es)" for new cr and h :: "'c host"
    unfolding publish_finish_def Let_def
    by (intro produces_option produces_if publish_volume_panics target
          produces_bind [OF produces_of_only [OF add]]) (auto intro: produce_rules)
  show "produces (do {
       setDirect (direct_of (pub_VolumeContext req));
       (new, cr) \<leftarrow> publish_prepare h req;
       publish_finish h (NewNodeServer h i) req new cr }) (\<lambda>r es. panics r \<longrightarrow> panic_trace (pub_TargetPath req) es)"
    by (intro produces_prod produces_bind [OF produces_of_only [OF setDirect_only [of "\<lambda>_. True"]]]
          produces_bind [OF produces_of_only [OF append_rules(4)]])
       (rule panic_trace_after, rule fin)
qed (auto intro: produce_rules)

context node_contract
begin

lemma resizeVolume_keeps:
  assumes "ns_rn ns = R"
  shows "keeps isDirect (resizeVolume h ns vol vg t)"
  unfolding resizeVolume_def getPvInfo_def Let_def assms
  by (intro trace_rules direct_calls Run_keeps ResizeFS_keeps)

lemma publish_finish_keeps:
  assumes "ns_mounter ns = M" and "ns_rn ns = R"
  shows "keeps isDirect (publish_finish h ns req new cr)"
  unfolding publish_finish_def publish_volume_def publish_mount_def addDirectVolume_def checkFSType_def
    formatDevice_def Let_def assms(1)
  by (intro trace_rules direct_calls IsMounted_keeps Mount_keeps resizeVolume_keeps [OF assms(2)])

end

lemma publish_sets_flag:
  fixes h :: "'w host" and s :: "('w, 'z) nodeState_scheme"
  assumes "valid_publish req"
  shows "isDirect (snd (run_state (NodePublishVolume h (NewNodeServer h i) req) s)) = direct_of (pub_VolumeContext req)"
proof -
  let ?m = "do { (new, cr) \<leftarrow> publish_prepare h req; publish_finish h (NewNodeServer h i) req new cr }"
  have "keeps isDirect ?m"
    by (intro trace_rules publish_prepare_keeps std_node.publish_finish_keeps) simp_all
  then have "isDirect (snd (run_state ?m (s\<lparr>isDirect := d\<rparr>))) = isDirect (s\<lparr>isDirect := d\<rparr>)" for d
    unfolding keeps_def by (rule spec)
  then show ?thesis
    by (simp add: NodePublishVolume_eq [OF assms] setDirect_def)
qed

lemma unpublish_removes:
  assumes "unpub_VolumeId u \<noteq> []" and "unpub_TargetPath u \<noteq> []"
  shows "list_ex is_volume_remove (new_events (NodeUnpublishVolume h (NewNodeServer h i) u) s) \<longleftrightarrow> isDirect s"
proof -
  let ?rest = "do {
    mnt \<leftarrow> m_IsMounted (NewMounter h) (unpub_TargetPath u);
    case mnt of
      Inl err \<Rightarrow> do {
        st \<leftarrow> Stat h (unpub_TargetPath u);
        if (case st of Inl e \<Rightarrow> IsNotExist e | Inr _ \<Rightarrow> False)
        then State_Monad.return (Inl (StatusError NotFound ''TargetPath not found''))
        else State_Monad.return (Inl (StatusError Internal (Error (quote h) err)))
      }
    | Inr isMnt \<Rightarrow>
        if \<not> isMnt then State_Monad.return (Inr ())
        else do {
          x \<leftarrow> m_Unmount (NewMounter h) (unpub_TargetPath u);
          case x of
            Some err \<Rightarrow> State_Monad.return (Inl (StatusError Internal (Error (quote h) err)))
          | None \<Rightarrow> State_Monad.return (Inr ())
        } }"
  have rest: "only (\<lambda>e. \<not> is_volume_remove e) ?rest"
    by (intro trace_rules std_mounter.IsMounted_only std_mounter.Unmount_only) auto
  have head: "run_state (NodeUnpublishVolume h (NewNodeServer h i) u) s =
      run_state (do { (if isDirect s then do { VolumeRemove h (unpub_TargetPath u); State_Monad.return () }
        else State_Monad.return ()); ?rest }) s"
    using assms unfolding NodeUnpublishVolume_def Let_def NewNodeServer_parts
    by (simp add: getDirect_def)
  have call: "produces (if d then do { VolumeRemove h t; State_Monad.return () } else State_Monad.return ())
      (\<lambda>_ es. list_ex is_volume_remove es = d)" for d t
    unfolding host_call_defs by (intro produce_rules) auto
  have none: "list_all (\<lambda>e. \<not> P e) es \<Longrightarrow> \<not> list_ex P es" for P :: "event \<Rightarrow> bool" and es
    by (simp add: list_all_iff list_ex_iff)
  have "produces (do { (if d then do { VolumeRemove h (unpub_TargetPath u); State_Monad.return () }
        else State_Monad.return ()); ?rest }) (\<lambda>r es. list_ex is_volume_remove es = d)" for d
    by (rule produces_bind [OF call], rule produces_weaken [OF produces_of_only [OF rest]])
       (auto dest: none)
  from produces_new [OF this, of "isDirect s" s] show ?thesis
    by (simp add: new_events_def head)
qed

lemma GetVG_panics [simp]:
  "GetVGNameFromCsiPV h None = Panic ''nil pointer dereference''"
  "GetVGNameFromCsiPV h (Some pv) \<noteq> Panic m"
  by (auto simp: GetVGNameFromCsiPV_def GetAllocatedInfoFromPVAnnotation_def Let_def split: option.split sum.split)

section \<open>Theorems\<close>

text \<open>A volume, a request and a host on which publishing formats and mounts an existing blank volume.\<close>

definition nstart :: "unit nodeState" where
  "nstart = \<lparr>world = (), events = [], isDirect = False\<rparr>"

definition sample_req :: NodePublishVolumeRequest where
  "sample_req = \<lparr>pub_VolumeId = ''v'', pub_TargetPath = ''/t'', pub_VolumeContext = [''vgName'' \<mapsto> ''g''],
     pub_Readonly = False, pub_MountFlags = []\<rparr>"

definition blank_host :: "unit host" where
  "blank_host = quiet_host\<lparr>exec_combined := (\<lambda>p args w.
     ((if p = ''file'' then ''data'' else if p = ''sh'' then ''5.0B'' else [], None), w))\<rparr>"

lemma blank_host_simps:
  "exec_combined blank_host p args w = ((if p = ''file'' then ''data'' else if p = ''sh'' then ''5.0B'' else [], None), w)"
  "os_stat blank_host = os_stat quiet_host" "get_pv blank_host = get_pv quiet_host"
  "os_mkdirall blank_host = os_mkdirall quiet_host" "resize_fs blank_host = resize_fs quiet_host"
  "volume_add blank_host = volume_add quiet_host" "volume_remove blank_host = volume_remove quiet_host"
  by (simp_all add: blank_host_def)

lemma quiet_host_simps:
  "os_stat quiet_host p w = (Inr \<lparr>fi_IsDir = True, fi_Dev = 0\<rparr>, w)" "get_pv quiet_host n w = (Inr some_pv, w)"
  "os_mkdirall quiet_host p m w = (None, w)" "resize_fs quiet_host d t w = (Inr True, w)"
  "volume_add quiet_host p mi w = (None, w)" "volume_remove quiet_host p w = (None, w)"
  by (simp_all add: quiet_host_def)

lemma sample_values:
  "path_Join [''/dev/'', ''g'', ''v''] = ''/dev/g/v''" "path_Join [''/dev'', ''g'', ''v''] = ''/dev/g/v''"
  "TrimSpace ''data'' = ''data''" "TrimSpace [] = []" "Split ''5.0B'' ''.'' ! 0 = ''5''" "TrimSpace ''5'' = ''5''"
  "ParseInt ''5'' = Inr 5" "pv_info some_pv = (0, 0, ''m'', Some some_pv)"
  by (simp_all add: path_eval trim_eval ParseInt_def parse_int64_def ParseUint_def is_digit_def digit_val_def
      pv_info_def some_pv_def storage_bytes_def go_div_nonneg)

lemmas node_eval = result_def new_events_def NodePublishVolume_def NodeUnpublishVolume_def NodeExpandVolume_def
  ctx_or_def direct_of_def setDirect_def getDirect_def publish_volume_def publish_mount_def checkFSType_def
  formatDevice_def resizeVolume_def getPvInfo_def addDirectVolume_def Run_def host_call_defs NewMounter_def NewExecRunner_def
  IsMounted_def Mount_def Unmount_def Let_def mount_options_def quiet_host_simps sample_values

text \<open>
  C11: Publishing a volume never formats a device that holds data: before every run of a \<open>mkfs\<close>
  program the device of the request has been shown blank, by \<open>file\<close> printing \<open>data\<close> or by \<open>blkid\<close>
  reporting an empty type. This holds on every host, from every state.
\<close>

theorem publish_formats_only_blank:
  "guarded is_mkfs (blank_ev (device_of req)) (new_events (NodePublishVolume h (NewNodeServer h i) req) s)"
  by (rule guards_new) (rule publish_formats)

text \<open>
  C12: Publishing creates a logical volume only after \<open>stat\<close> has reported that its device does not
  exist and after \<open>vgck\<close> has accepted the volume group.
\<close>

theorem publish_creates_only_missing:
  "guarded is_lvcreate (missing_ev (device_of req)) (new_events (NodePublishVolume h (NewNodeServer h i) req) s) \<and>
   guarded is_lvcreate (vgck_ok_ev (ctx_or (pub_VolumeContext req) ''vgName'' []))
     (new_events (NodePublishVolume h (NewNodeServer h i) req) s)"
  using guards_new [OF publish_creates(1)] guards_new [OF publish_creates(2)] by blast

text \<open>
  C13: When \<open>NodePublishVolume\<close> reports success for a volume that is not direct, the target is mounted: in
  this run the mount table showed it, or \<open>mount\<close> of the volume's device on the target, with the file
  system type and the options of the request, has succeeded.
\<close>

theorem publish_success_mounted:
  assumes "\<not> direct_of (pub_VolumeContext req)"
    and "result (NodePublishVolume h (NewNodeServer h i) req) s = Done (Inr ())"
  shows "list_ex (published_ev req) (new_events (NodePublishVolume h (NewNodeServer h i) req) s)"
proof (rule shows_new [where S = "\<lambda>r. r = Done (Inr ())"])
  show "shows_ev (\<lambda>r. r = Done (Inr ())) (published_ev req) (NodePublishVolume h (NewNodeServer h i) req)"
    by (rule publish_by_parts)
       (intro trace_rules append_rules std_node.publish_finish_mounts [OF _ _ assms(1)]; simp)+
qed (fact assms(2))

theorem publish_success_mounted_witness:
  "result (NodePublishVolume blank_host (NewNodeServer blank_host ''n'') sample_req) nstart = Done (Inr ()) \<and>
   list_ex (published_ev sample_req)
     (new_events (NodePublishVolume blank_host (NewNodeServer blank_host ''n'') sample_req) nstart)"
proof -
  have "result (NodePublishVolume blank_host (NewNodeServer blank_host ''n'') sample_req) nstart = Done (Inr ())"
    by (simp add: node_eval blank_host_simps sample_req_def nstart_def)
  moreover have "\<not> direct_of (pub_VolumeContext sample_req)"
    by (simp add: sample_req_def direct_of_def)
  ultimately show ?thesis using publish_success_mounted [of sample_req blank_host "''n''" nstart] by blast
qed

text \<open>
  C14: A direct volume is never formatted and never mounted by the node, and success means that its
  device has been registered for the runtime under the target path.
\<close>

theorem publish_direct_registers:
  assumes "direct_of (pub_VolumeContext req)"
  shows "list_all (\<lambda>e. \<not> is_mkfs e \<and> \<not> is_exec ''mount'' e)
      (new_events (NodePublishVolume h (NewNodeServer h i) req) s) \<and>
    (result (NodePublishVolume h (NewNodeServer h i) req) s = Done (Inr ()) \<longrightarrow>
      list_ex (direct_ev req) (new_events (NodePublishVolume h (NewNodeServer h i) req) s))"
proof -
  have quiet: "shell_or_query e \<Longrightarrow> \<not> is_exec ''mount'' e" for e by (cases e) auto
  have prep: "only (\<lambda>e. \<not> is_mkfs e \<and> \<not> is_exec ''mount'' e) (publish_prepare h req)"
    unfolding publish_prepare_def Let_def
    by (intro trace_rules only_mono [OF createVolume_calls]) (auto simp: quiet)
  have "only (\<lambda>e. \<not> is_mkfs e \<and> \<not> is_exec ''mount'' e) (NodePublishVolume h (NewNodeServer h i) req)"
    by (rule publish_by_parts, rule only_return)
       (intro trace_rules prep only_mono [OF publish_finish_direct(2) [OF assms]], auto)
  moreover have "shows_ev (\<lambda>r. r = Done (Inr ())) (direct_ev req) (NodePublishVolume h (NewNodeServer h i) req)"
    by (rule publish_by_parts)
       (intro trace_rules append_rules publish_finish_direct(1) [OF assms]; simp)+
  ultimately show ?thesis using only_new shows_new by blast
qed

definition direct_req :: NodePublishVolumeRequest where
  "direct_req = sample_req\<lparr>pub_VolumeContext := [''vgName'' \<mapsto> ''g'', ''direct'' \<mapsto> ''true'']\<rparr>"

theorem publish_direct_registers_witness:
  "result (NodePublishVolume blank_host (NewNodeServer blank_host ''n'') direct_req) nstart = Done (Inr ()) \<and>
   list_ex (direct_ev direct_req)
     (new_events (NodePublishVolume blank_host (NewNodeServer blank_host ''n'') direct_req) nstart)"
proof -
  have d: "direct_of (pub_VolumeContext direct_req)"
    by (simp add: direct_of_def direct_req_def ParseBool_def)
  moreover have "result (NodePublishVolume blank_host (NewNodeServer blank_host ''n'') direct_req) nstart = Done (Inr ())"
    by (simp add: node_eval blank_host_simps direct_req_def sample_req_def nstart_def ParseBool_def)
  ultimately show ?thesis using publish_direct_registers [OF d, of blank_host "''n''" nstart] by blast
qed

text \<open>
  A publish request without a volume id, a target path or a volume group is refused with
  \<open>InvalidArgument\<close>, makes no call and leaves the whole state as it was.
\<close>

theorem publish_rejects_incomplete:
  assumes "\<not> valid_publish req"
  shows "\<exists>m. run_state (NodePublishVolume h ns req) s = (Done (Inl (StatusError InvalidArgument m)), s)"
proof -
  obtain m where "NodePublishVolume h ns req = State_Monad.return (Done (Inl (StatusError InvalidArgument m)))"
    by (rule publish_invalid [OF assms])
  then show ?thesis by simp
qed

theorem publish_rejects_incomplete_witness:
  "\<exists>m. run_state (NodePublishVolume blank_host (NewNodeServer blank_host ''n'')
     (sample_req\<lparr>pub_VolumeContext := Map.empty\<rparr>)) nstart = (Done (Inl (StatusError InvalidArgument m)), nstart)"
  by (rule publish_rejects_incomplete) (simp add: valid_publish_def ctx_or_def)

text \<open>
  C25: \<open>NodePublishVolume\<close> panics only in one situation: the search of the mount table for the target
  failed with output, and \<open>stat\<close> of the target then succeeded. The handler takes the error of that
  \<open>stat\<close>, which is nil, for the error of the mount check.
\<close>

theorem publish_panics_only_if:
  assumes "panics (result (NodePublishVolume h (NewNodeServer h i) req) s)"
  shows "panic_trace (pub_TargetPath req) (new_events (NodePublishVolume h (NewNodeServer h i) req) s)"
  using produces_new [OF publish_panic] assms by blast

definition broken_grep_host :: "unit host" where
  "broken_grep_host = quiet_host\<lparr>exec_combined := (\<lambda>p args w. ((''data'', Some (ErrorString ''exit status 2'')), w))\<rparr>"

theorem publish_panics_only_if_witness:
  "panics (result (NodePublishVolume broken_grep_host (NewNodeServer broken_grep_host ''n'') sample_req) nstart) \<and>
   panic_trace ''/t'' (new_events (NodePublishVolume broken_grep_host (NewNodeServer broken_grep_host ''n'') sample_req) nstart)"
proof -
  have p: "panics (result (NodePublishVolume broken_grep_host (NewNodeServer broken_grep_host ''n'') sample_req) nstart)"
    by (simp add: node_eval broken_grep_host_def sample_req_def nstart_def)
  moreover have "pub_TargetPath sample_req = ''/t''" by (simp add: sample_req_def)
  ultimately show ?thesis using publish_panics_only_if [OF p] by simp
qed

text \<open>
  C15: \<open>resizeVolume\<close> extends a logical volume only when the size that \<open>lvdisplay\<close> reported is below the
  capacity that the API server answered, and to the size computed from that capacity; when it reports
  success, the reported size was at least that capacity or both \<open>lvextend\<close> and the file system resize succeeded. The capacity
  counts as zero when the API server cannot be read.
\<close>

theorem resize_only_grows:
  fixes vg vol t i :: string and h :: "'w host" and s :: "('w, 'z) sys_scheme"
  defines "dev \<equiv> path_Join [''/dev'', vg, vol]" and "m \<equiv> resizeVolume h (NewNodeServer h i) vol vg t"
  shows "list_all (\<lambda>e. is_lvextend e \<longrightarrow> (\<exists>g n. sizes_read vol dev (new_events m s) g n \<and> n < capacity_of g \<and>
       shell_of e = Some (extend_cmd g dev))) (new_events m s) \<and>
     (result m s = None \<longrightarrow> (\<exists>g n. sizes_read vol dev (new_events m s) g n \<and> (capacity_of g \<le> n \<or>
        (\<exists>out. ExecEv ''sh'' [''-c'', extend_cmd g dev] out None \<in> set (new_events m s)) \<and>
        ResizeFSEv dev t (Inr True) \<in> set (new_events m s))))"
  unfolding dev_def m_def by (rule produces_new [OF resizeVolume_trace])

theorem resize_only_grows_witness:
  "result (resizeVolume blank_host (NewNodeServer blank_host ''n'') ''v'' ''g'' ''/t'') start = None \<and>
   (\<exists>g n. sizes_read ''v'' (path_Join [''/dev'', ''g'', ''v''])
     (new_events (resizeVolume blank_host (NewNodeServer blank_host ''n'') ''v'' ''g'' ''/t'') start) g n)"
proof -
  have "result (resizeVolume blank_host (NewNodeServer blank_host ''n'') ''v'' ''g'' ''/t'') start = None"
    by (simp add: node_eval blank_host_simps start_def)
  then show ?thesis using resize_only_grows [of "''v''" "''g''" blank_host "''n''" "''/t''" start] by blast
qed

text \<open>
  The size requested for a persistent volume, in gibibytes when it has at least one and in mebibytes
  otherwise, never exceeds the capacity and is less than one unit below it: capacities that are not
  a multiple of the unit are rounded down.
\<close>

theorem requested_size_bounds:
  assumes "0 \<le> storage_bytes pv"
  shows "case pv_info pv of (n, b, u, _) \<Rightarrow> b = storage_bytes pv \<and> u = (if b < 1024 * 1024 * 1024 then ''m'' else ''g'') \<and>
     n * unit_bytes u \<le> b \<and> b < (n + 1) * unit_bytes u"
proof -
  have "snd (lvm_size (storage_bytes pv)) = (if storage_bytes pv < 1024 * 1024 * 1024 then ''m'' else ''g'')"
    using assms by (auto simp: lvm_size_def go_div_nonneg div_eq_0_iff)
  then show ?thesis
    using lvm_size_bounds [OF assms] by (auto simp: pv_info_size lvm_bytes_def algebra_simps)
qed

theorem requested_size_bounds_witness:
  "case pv_info (some_pv\<lparr>pv_Capacity := [''storage'' \<mapsto> 1610612736]\<rparr>) of (n, b, u, _) \<Rightarrow>
     b = 1610612736 \<and> u = ''g'' \<and> n * unit_bytes u \<le> b \<and> b < (n + 1) * unit_bytes u"
  using requested_size_bounds [of "some_pv\<lparr>pv_Capacity := [''storage'' \<mapsto> 1610612736]\<rparr>"]
  by (auto simp: storage_bytes_def split: prod.splits)

text \<open>
  C24: A capacity of \<open>k\<close> gibibytes and a remainder makes \<open>resizeVolume\<close> run \<open>lvextend\<close> on a volume that
  already has \<open>k\<close> gibibytes, with the size it already has: the remainder is never allocated, and every
  later call tries again.
\<close>

theorem resize_repeats_rounded_size:
  assumes "get_pv h vol (world s) = (Inr pv, w1)" and "storage_bytes pv = k * (1024 * 1024 * 1024) + r"
    and "1 \<le> k" and "0 < r" and "r < 1024 * 1024 * 1024"
    and "exec_combined h ''sh'' [''-c'', lv_size_cmd (path_Join [''/dev'', vg, vol])] w1 = ((out, None), w2)"
    and "out \<noteq> []" and "lv_size_of out = Inr (k * (1024 * 1024 * 1024))"
  shows "list_ex (\<lambda>e. shell_of e = Some (lvextend_cmd k ''g'' (path_Join [''/dev'', vg, vol])))
      (new_events (resizeVolume h (NewNodeServer h i) vol vg t) s) \<and>
    lvm_bytes (k, ''g'') = k * (1024 * 1024 * 1024)"
proof -
  have "lvm_size (storage_bytes pv) = (k, ''g'')"
    using assms(2-5) by (simp add: lvm_size_def go_div_nonneg)
  then show ?thesis
    using assms
    by (auto simp: new_events_def resizeVolume_def getPvInfo_def pv_info_size Run_def host_call_defs NewExecRunner_def
        lv_size_of_def lvm_bytes_def unit_bytes_def Let_def split: prod.split option.split sum.split)
qed

definition one_and_a_half :: "unit host" where
  "one_and_a_half = quiet_host\<lparr>
     get_pv := (\<lambda>n w. (Inr (some_pv\<lparr>pv_Capacity := [''storage'' \<mapsto> 1610612736]\<rparr>), w)),
     exec_combined := (\<lambda>p args w. ((''1073741824.0'', None), w))\<rparr>"

theorem resize_repeats_rounded_size_witness:
  "list_ex (\<lambda>e. shell_of e = Some (lvextend_cmd 1 ''g'' (path_Join [''/dev'', ''g'', ''v''])))
     (new_events (resizeVolume one_and_a_half (NewNodeServer one_and_a_half ''n'') ''v'' ''g'' ''/t'') start)"
proof -
  have "lv_size_of ''1073741824.0'' = Inr (1 * (1024 * 1024 * 1024))"
    by (simp add: lv_size_of_def Split.simps trim_eval ParseInt_def parse_int64_def ParseUint_def
        is_digit_def digit_val_def)
  then show ?thesis
    using resize_repeats_rounded_size [of one_and_a_half "''v''" start
      "some_pv\<lparr>pv_Capacity := [''storage'' \<mapsto> 1610612736]\<rparr>" "()" 1 "512 * 1024 * 1024" "''g''" "''1073741824.0''" "()" "''n''" "''/t''"]
    by (simp add: one_and_a_half_def storage_bytes_def start_def)
qed

text \<open>
  When \<open>NodeUnpublishVolume\<close> reports success, the mount table has shown the target unmounted or
  \<open>umount\<close> of the target has succeeded.
\<close>

theorem unpublish_success_unmounted:
  assumes "result (NodeUnpublishVolume h (NewNodeServer h i) u) s = Inr ()"
  shows "list_ex (\<lambda>e. unmounted_ev (unpub_TargetPath u) e \<or> umount_ok_ev (unpub_TargetPath u) e)
    (new_events (NodeUnpublishVolume h (NewNodeServer h i) u) s)"
  by (rule shows_new [OF unpublish_shows]) (fact assms)

definition sample_unpub :: NodeUnpublishVolumeRequest where
  "sample_unpub = \<lparr>unpub_VolumeId = ''w'', unpub_TargetPath = ''/u''\<rparr>"

theorem unpublish_success_unmounted_witness:
  "result (NodeUnpublishVolume blank_host (NewNodeServer blank_host ''n'') sample_unpub) nstart = Inr () \<and>
   list_ex (\<lambda>e. unmounted_ev ''/u'' e \<or> umount_ok_ev ''/u'' e)
     (new_events (NodeUnpublishVolume blank_host (NewNodeServer blank_host ''n'') sample_unpub) nstart)"
proof -
  have r: "result (NodeUnpublishVolume blank_host (NewNodeServer blank_host ''n'') sample_unpub) nstart = Inr ()"
    by (simp add: node_eval blank_host_simps sample_unpub_def nstart_def)
  moreover have "unpub_TargetPath sample_unpub = ''/u''" by (simp add: sample_unpub_def)
  ultimately show ?thesis using unpublish_success_unmounted [OF r] by simp
qed

text \<open>
  Whether unpublishing removes a direct-volume registration depends on the request published last
  and not on the volume: after publishing an ordinary volume, unpublishing any direct volume leaves
  its registration behind, and after publishing a direct one, unpublishing any volume calls \<open>Remove\<close>.
\<close>

theorem unpublish_follows_last_publish:
  assumes "valid_publish req" and "unpub_VolumeId u \<noteq> []" and "unpub_TargetPath u \<noteq> []"
  shows "list_ex is_volume_remove (new_events (NodeUnpublishVolume h (NewNodeServer h i) u)
      (snd (run_state (NodePublishVolume h (NewNodeServer h i) req) s))) \<longleftrightarrow> direct_of (pub_VolumeContext req)"
  by (simp only: unpublish_removes [OF assms(2,3)] publish_sets_flag [OF assms(1)])

theorem unpublish_follows_last_publish_witness:
  "\<not> list_ex is_volume_remove (new_events (NodeUnpublishVolume blank_host (NewNodeServer blank_host ''n'') sample_unpub)
      (snd (run_state (NodePublishVolume blank_host (NewNodeServer blank_host ''n'') sample_req) nstart))) \<and>
   list_ex is_volume_remove (new_events (NodeUnpublishVolume blank_host (NewNodeServer blank_host ''n'') sample_unpub)
      (snd (run_state (NodePublishVolume blank_host (NewNodeServer blank_host ''n'') direct_req) nstart)))"
  by (subst unpublish_follows_last_publish, simp_all add: valid_publish_def sample_req_def sample_unpub_def ctx_or_def
        direct_of_def)
     (subst unpublish_follows_last_publish, simp_all add: valid_publish_def direct_req_def sample_req_def ctx_or_def
        direct_of_def ParseBool_def)

text \<open>
  C26: \<open>NodeExpandVolume\<close> panics exactly when a complete request has no capacity range, or, for a server whose
  last volume was not direct, when the volume cannot be read from the API server.
\<close>

theorem expand_panics_iff:
  "panics (result (NodeExpandVolume h ns req) s) \<longleftrightarrow>
     exp_VolumeId req \<noteq> [] \<and> exp_VolumePath req \<noteq> [] \<and>
     (exp_RequiredBytes req = None \<or>
      \<not> isDirect s \<and> (\<exists>err. fst (get_pv h (exp_VolumeId req) (world s)) = Inl err))"
  by (auto simp: result_def NodeExpandVolume_def Let_def getDirect_def getPvInfo_def host_call_defs pv_info_size
      split: prod.splits option.splits sum.splits outcome.splits)




text \<open>
  C17: When \<open>createVolume\<close> succeeds for the type \<open>linear\<close>, the \<open>lvcreate\<close> command for the volume, with the size
  computed from the answer of the API server (0 if that failed), has succeeded; the same for \<open>striping\<close>,
  with 0 stripes unless the volume group is on local disks. For any other type it also reports
  success, but creates nothing.
\<close>

theorem create_success:
  assumes "result (createVolume h vol vg pt lt) s = None"
  shows "(lt = ''linear'' \<longrightarrow> (\<exists>g. GetPVEv vol g \<in> set (new_events (createVolume h vol vg pt lt) s) \<and>
       ran_ok (linear_cmd vol vg g) (new_events (createVolume h vol vg pt lt) s))) \<and>
     (lt = ''striping'' \<longrightarrow> (\<exists>g k. GetPVEv vol g \<in> set (new_events (createVolume h vol vg pt lt) s) \<and>
       ran_ok (striping_cmd vol vg k g) (new_events (createVolume h vol vg pt lt) s) \<and> (pt \<noteq> ''localdisk'' \<longrightarrow> k = 0))) \<and>
     (lt \<notin> {''linear'', ''striping''} \<longrightarrow> \<not> list_ex is_lvcreate (new_events (createVolume h vol vg pt lt) s))"
  using produces_new [OF createVolume_trace [of h vol vg pt lt], of s] assms by blast

theorem create_success_witness:
  "result (createVolume blank_host ''v'' ''g'' ''clouddisk'' ''mirror'') start = None \<and>
   \<not> list_ex is_lvcreate (new_events (createVolume blank_host ''v'' ''g'' ''clouddisk'' ''mirror'') start)"
proof -
  have r: "result (createVolume blank_host ''v'' ''g'' ''clouddisk'' ''mirror'') start = None"
    by (simp add: createVolume_def node_eval blank_host_simps start_def)
  then show ?thesis using create_success [OF r] by simp
qed

end
