(* ===== verification/Node_Spec.thy ===== *)
theory Node_Spec
  imports Host_IO
begin

text \<open>
  An abstract specification of the node service: what a storage driver may do to the volumes of a
  node. The abstract node knows the logical volumes with their sizes, the file system on each device with an identity
  (so that a device that is formatted again has another one), and the device mounted on each path. Its moves are a new
  volume, a file system on a device that has none, a mount, an unmount, an extension. The logic \<open>ensures\<close> states
  what a program does to the view of the world as such a node; theory \<open>Lvm_Lifecycle\<close> shows with it that the handlers
  implement the specification.
\<close>

named_theorems view_rules "rules that run a program call by call on the view of its world"

section \<open>The abstract node\<close>

record node =
  lv_size :: "string \<rightharpoonup> int"
  fs_on :: "string \<rightharpoonup> string \<times> nat"
  mounted_on :: "string \<rightharpoonup> string"
  made :: nat

text \<open>A new file system on a device; \<open>format_fs\<close> counts the file systems to give it an identity of its own.\<close>

definition formatted :: "string \<Rightarrow> string \<Rightarrow> node \<Rightarrow> node \<Rightarrow> bool" where
  "formatted d f n n' \<longleftrightarrow> (\<exists>k m. n' = n\<lparr>fs_on := (fs_on n)(d \<mapsto> (f, k)), made := m\<rparr>)"

definition format_fs :: "string \<Rightarrow> string \<Rightarrow> node \<Rightarrow> node" where
  "format_fs d f n = n\<lparr>fs_on := (fs_on n)(d \<mapsto> (f, made n)), made := Suc (made n)\<rparr>"

lemma format_fs_formatted [simp]: "formatted d f n (format_fs d f n)"
  by (auto simp: formatted_def format_fs_def)

lemma formatted_fields:
  assumes "formatted d f n n'"
  shows "lv_size n' = lv_size n" "mounted_on n' = mounted_on n" "fs_on n' d \<noteq> None" "x \<noteq> d \<Longrightarrow> fs_on n' x = fs_on n x"
  using assms by (auto simp: formatted_def)

inductive node_move :: "node \<Rightarrow> node \<Rightarrow> bool" where
  create: "lv_size n d = None \<Longrightarrow> node_move n (n\<lparr>lv_size := (lv_size n)(d \<mapsto> sz)\<rparr>)"
| format: "fs_on n d = None \<Longrightarrow> lv_size n d \<noteq> None \<Longrightarrow> formatted d f n n' \<Longrightarrow> node_move n n'"
| mount: "mounted_on n t = None \<Longrightarrow> fs_on n d \<noteq> None \<Longrightarrow> node_move n (n\<lparr>mounted_on := (mounted_on n)(t \<mapsto> d)\<rparr>)"
| unmount: "node_move n (n\<lparr>mounted_on := (mounted_on n)(t := None)\<rparr>)"
| extend: "lv_size n d = Some a \<Longrightarrow> a \<le> b \<Longrightarrow> node_move n (n\<lparr>lv_size := (lv_size n)(d \<mapsto> b)\<rparr>)"

definition moves :: "node \<Rightarrow> node \<Rightarrow> bool" where
  "moves = node_move\<^sup>*\<^sup>*"

lemma moves_refl [simp, intro]: "moves n n"
  by (simp add: moves_def)

lemma moves_trans [trans]: "moves a b \<Longrightarrow> moves b c \<Longrightarrow> moves a c"
  by (simp add: moves_def)

lemma moves_step: "moves a b \<Longrightarrow> node_move b c \<Longrightarrow> moves a c"
  by (simp add: moves_def)

text \<open>
  What no move changes: a file system stays the one it is, a volume stays and does not shrink, and file systems are
  on volumes.
\<close>

definition keeps_data :: "node \<Rightarrow> node \<Rightarrow> bool" where
  "keeps_data n n' \<longleftrightarrow> (\<forall>d x. fs_on n d = Some x \<longrightarrow> fs_on n' d = Some x) \<and>
     (\<forall>d a. lv_size n d = Some a \<longrightarrow> (\<exists>b. lv_size n' d = Some b \<and> a \<le> b))"

lemma move_keeps_data: "node_move n n' \<Longrightarrow> keeps_data n n'"
  by (induction rule: node_move.induct) (auto simp: keeps_data_def formatted_def)

lemma keeps_data_trans: "keeps_data a b \<Longrightarrow> keeps_data b c \<Longrightarrow> keeps_data a c"
  unfolding keeps_data_def by (metis order_trans)

lemma moves_keep_data: "moves n n' \<Longrightarrow> keeps_data n n'"
  unfolding moves_def
proof (induction rule: rtranclp_induct)
  case base
  show ?case by (auto simp: keeps_data_def)
next
  case (step b c)
  then show ?case using move_keeps_data keeps_data_trans by blast
qed

text \<open>Well-formed nodes: file systems are on volumes, and what is mounted has a file system.\<close>

definition node_ok :: "node \<Rightarrow> bool" where
  "node_ok n \<longleftrightarrow> (\<forall>d. fs_on n d \<noteq> None \<longrightarrow> lv_size n d \<noteq> None) \<and>
     (\<forall>t d. mounted_on n t = Some d \<longrightarrow> fs_on n d \<noteq> None)"

lemma move_ok: "node_move n n' \<Longrightarrow> node_ok n \<Longrightarrow> node_ok n'"
  by (induction rule: node_move.induct) (auto simp: node_ok_def formatted_def split: if_splits)

lemma moves_ok: "moves n n' \<Longrightarrow> node_ok n \<Longrightarrow> node_ok n'"
  unfolding moves_def by (induction rule: rtranclp_induct) (auto dest: move_ok)

text \<open>A change that concerns one mount point and one device only.\<close>

definition within :: "string \<Rightarrow> string \<Rightarrow> node \<Rightarrow> node \<Rightarrow> bool" where
  "within t d n n' \<longleftrightarrow> moves n n' \<and> (\<forall>x. x \<noteq> t \<longrightarrow> mounted_on n' x = mounted_on n x) \<and>
     (\<forall>x. x \<noteq> d \<longrightarrow> fs_on n' x = fs_on n x \<and> lv_size n' x = lv_size n x)"

lemma within_refl [simp, intro]: "within t d n n"
  by (simp add: within_def)

lemma within_trans [trans]: "within t d a b \<Longrightarrow> within t d b c \<Longrightarrow> within t d a c"
  unfolding within_def by (metis moves_trans)

lemma within_create: "lv_size n d = None \<Longrightarrow> within t d n (n\<lparr>lv_size := (lv_size n)(d \<mapsto> sz)\<rparr>)"
  by (auto simp: within_def intro: moves_step node_move.create)

lemma within_format: "fs_on n d = None \<Longrightarrow> lv_size n d \<noteq> None \<Longrightarrow> formatted d f n n' \<Longrightarrow> within t d n n'"
  by (auto simp: within_def formatted_fields intro: moves_step node_move.format)

lemma within_mount:
  "mounted_on n t = None \<Longrightarrow> fs_on n d' \<noteq> None \<Longrightarrow> within t d n (n\<lparr>mounted_on := (mounted_on n)(t \<mapsto> d')\<rparr>)"
  by (auto simp: within_def intro: moves_step node_move.mount)

lemma within_unmount: "within t d n (n\<lparr>mounted_on := (mounted_on n)(t := None)\<rparr>)"
  by (auto simp: within_def intro: moves_step node_move.unmount)

lemma within_extend: "lv_size n d = Some a \<Longrightarrow> a \<le> b \<Longrightarrow> within t d n (n\<lparr>lv_size := (lv_size n)(d \<mapsto> b)\<rparr>)"
  by (auto simp: within_def intro: moves_step node_move.extend)

lemma within_moves: "within t d n n' \<Longrightarrow> moves n n'"
  by (simp add: within_def)

section \<open>Reasoning about the view\<close>

text \<open>\<open>ensures v n m Q\<close>: from every state whose world is viewed as \<open>n\<close>, \<open>m\<close> ends with a result and a view that satisfy \<open>Q\<close>.\<close>

definition ensures :: "('w \<Rightarrow> node) \<Rightarrow> node \<Rightarrow> ('w, 'z, 'a) prog \<Rightarrow> ('a \<Rightarrow> node \<Rightarrow> bool) \<Rightarrow> bool" where
  "ensures v n m Q \<longleftrightarrow> (\<forall>s. v (world s) = n \<longrightarrow> Q (fst (run_state m s)) (v (world (snd (run_state m s)))))"

lemma ensures_weaken: "ensures v n m R \<Longrightarrow> (\<And>a n'. R a n' \<Longrightarrow> Q a n') \<Longrightarrow> ensures v n m Q"
  unfolding ensures_def by blast

lemma ensures_return [view_rules]: "Q a n \<Longrightarrow> ensures v n (State_Monad.return a) Q"
  by (simp add: ensures_def)

lemma ensures_bind: "ensures v n m (\<lambda>a n'. ensures v n' (f a) Q) \<Longrightarrow> ensures v n (State_Monad.bind m f) Q"
  unfolding ensures_def by (auto split: prod.split)

lemma ensures_syscall:
  "(\<And>w a w'. v w = n \<Longrightarrow> f w = (a, w') \<Longrightarrow> Q a (v w')) \<Longrightarrow> ensures v n (syscall f ev) Q"
  unfolding ensures_def by (auto split: prod.split)

text \<open>A call that does not change the view.\<close>

definition quiet :: "('w \<Rightarrow> node) \<Rightarrow> ('w \<Rightarrow> 'a \<times> 'w) \<Rightarrow> bool" where
  "quiet v f \<longleftrightarrow> (\<forall>w. v (snd (f w)) = v w)"

lemma ensures_quiet:
  assumes "quiet v f" and "\<And>w a w'. v w = n \<Longrightarrow> f w = (a, w') \<Longrightarrow> Q a n"
  shows "ensures v n (syscall f ev) Q"
  using assms by (intro ensures_syscall) (metis quiet_def snd_conv)

lemma ensures_seq:
  "ensures v n m R \<Longrightarrow> (\<And>a n'. R a n' \<Longrightarrow> ensures v n' (f a) Q) \<Longrightarrow> ensures v n (State_Monad.bind m f) Q"
  by (rule ensures_bind) (rule ensures_weaken)

lemma ensures_if [view_rules]:
  "(b \<Longrightarrow> ensures v n m Q) \<Longrightarrow> (\<not> b \<Longrightarrow> ensures v n m' Q) \<Longrightarrow> ensures v n (if b then m else m') Q"
  by simp

lemma ensures_sum [view_rules]:
  "(\<And>e. r = Inl e \<Longrightarrow> ensures v n (f e) Q) \<Longrightarrow> (\<And>x. r = Inr x \<Longrightarrow> ensures v n (g x) Q) \<Longrightarrow>
     ensures v n (case r of Inl e \<Rightarrow> f e | Inr x \<Rightarrow> g x) Q"
  by (cases r) auto

lemma ensures_option [view_rules]:
  "(r = None \<Longrightarrow> ensures v n m Q) \<Longrightarrow> (\<And>x. r = Some x \<Longrightarrow> ensures v n (g x) Q) \<Longrightarrow>
     ensures v n (case r of None \<Rightarrow> m | Some x \<Rightarrow> g x) Q"
  by (cases r) auto

lemma ensures_prod [view_rules]:
  "(\<And>x y. r = (x, y) \<Longrightarrow> ensures v n (f x y) Q) \<Longrightarrow> ensures v n (case r of (x, y) \<Rightarrow> f x y) Q"
  by (cases r) auto

lemma ensures_outcome [view_rules]:
  "(\<And>x. r = Done x \<Longrightarrow> ensures v n (f x) Q) \<Longrightarrow> (\<And>m. r = Panic m \<Longrightarrow> ensures v n (g m) Q) \<Longrightarrow>
     ensures v n (case r of Done x \<Rightarrow> f x | Panic m \<Rightarrow> g m) Q"
  by (cases r) auto

lemma ensures_quiet_bind:
  assumes "quiet v g" and "\<And>w a w'. v w = n \<Longrightarrow> g w = (a, w') \<Longrightarrow> ensures v n (f a) Q"
  shows "ensures v n (State_Monad.bind (syscall g ev) f) Q"
  using assms by (intro ensures_bind ensures_quiet)

text \<open>
  A command with an effect: it fails and changes nothing, or it changes the view as the relation says, whether it
  reports an error or not.
\<close>

definition effect :: "(node \<Rightarrow> node \<Rightarrow> bool) \<Rightarrow> ('w \<Rightarrow> node) \<Rightarrow> ('w \<Rightarrow> (string \<times> goerror option) \<times> 'w) \<Rightarrow> bool" where
  "effect R v f \<longleftrightarrow> (\<forall>w out err w'. f w = ((out, err), w') \<longrightarrow> v w' = v w \<and> err \<noteq> None \<or> R (v w) (v w'))"

lemma ensures_effect:
  assumes "effect R v (exec_combined h p args)"
    and "\<And>out err n'. n' = n \<and> err \<noteq> None \<or> R n n' \<Longrightarrow> Q (out, err) n'"
  shows "ensures v n (CombinedOutput h p args) Q"
  unfolding CombinedOutput_def
proof (rule ensures_syscall)
  fix w a w' assume "v w = n" and "exec_combined h p args w = (a, w')"
  with assms show "Q a (v w')" unfolding effect_def by (cases a) auto
qed

end
