(* ===== verification/Lvm_Report.thy ===== *)
theory Lvm_Report
  imports Go_Json_Decode
begin

text \<open>
  The JSON reports of \<open>vgs\<close>, \<open>lvs\<close> and \<open>pvs\<close>: the structures \<open>vgsOutput\<close>, \<open>lvsOutput\<close> and \<open>pvsOutput\<close> of
  \<open>pkg/csi/lvm/vg.go\<close> with their tags, as decoders. A report is a list of sections, each a list of
  rows. Floating point is left to the record \<open>floats\<close>: \<open>strconv.ParseFloat\<close> with 64 bits and the division by 100,
  on a \<open>float64\<close> that is carried as its 64 bits.
\<close>

section \<open>Rows\<close>

record vg_row =
  vgr_Name :: string
  vgr_UUID :: string
  vgr_Size :: uint64
  vgr_Free :: uint64
  vgr_ExtentSize :: uint64
  vgr_ExtentCount :: uint64
  vgr_FreeExtentCount :: uint64
  vgr_Tags :: string

record lv_row =
  lvr_Name :: string
  lvr_VgName :: string
  lvr_Path :: string
  lvr_Size :: uint64
  lvr_Tags :: string
  lvr_Origin :: string
  lvr_SnapUsage :: float64

record pv_row =
  pvr_Name :: string
  pvr_VgName :: string

type_synonym 'r report = "'r list list"

record floats =
  parse_float :: "string \<Rightarrow> num_error + float64"
  div_100 :: "float64 \<Rightarrow> float64"

definition zero_vg :: vg_row where
  "zero_vg = \<lparr>vgr_Name = [], vgr_UUID = [], vgr_Size = 0, vgr_Free = 0, vgr_ExtentSize = 0, vgr_ExtentCount = 0,
     vgr_FreeExtentCount = 0, vgr_Tags = []\<rparr>"

definition zero_lv :: lv_row where
  "zero_lv = \<lparr>lvr_Name = [], lvr_VgName = [], lvr_Path = [], lvr_Size = 0, lvr_Tags = [], lvr_Origin = [], lvr_SnapUsage = 0\<rparr>"

definition zero_pv :: pv_row where
  "zero_pv = \<lparr>pvr_Name = [], pvr_VgName = []\<rparr>"

section \<open>Types in error messages\<close>

text \<open>The text of an anonymous structure type: its fields with their types and tags.\<close>

definition tagged :: "string \<Rightarrow> string \<Rightarrow> string \<Rightarrow> string" where
  "tagged name ty tag = name @ '' '' @ ty @ '' '' @ [CHR 0x22] @ ''json:'' @ [CHR 0x5C, CHR 0x22] @ tag @
     [CHR 0x5C, CHR 0x22, CHR 0x22]"

definition struct_type :: "string list \<Rightarrow> string" where
  "struct_type fs = ''struct { '' @ Join fs ''; '' @ '' }''"

definition vg_type :: string where
  "vg_type = struct_type [tagged ''Name'' ''string'' ''vg_name'', tagged ''UUID'' ''string'' ''vg_uuid'',
     tagged ''VgSize'' ''uint64'' ''vg_size,string'', tagged ''VgFree'' ''uint64'' ''vg_free,string'',
     tagged ''VgExtentSize'' ''uint64'' ''vg_extent_size,string'', tagged ''VgExtentCount'' ''uint64'' ''vg_extent_count,string'',
     tagged ''VgFreeExtentCount'' ''uint64'' ''vg_free_count,string'', tagged ''VgTags'' ''string'' ''vg_tags'']"

definition lv_type :: string where
  "lv_type = struct_type [tagged ''Name'' ''string'' ''lv_name'', tagged ''VgName'' ''string'' ''vg_name'',
     tagged ''LvPath'' ''string'' ''lv_path'', tagged ''LvSize'' ''uint64'' ''lv_size,string'',
     tagged ''LvTags'' ''string'' ''lv_tags'', tagged ''LvOrigin'' ''string'' ''origin'',
     tagged ''LvSnapUsage'' ''float64'' ''snap_percent,string'']"

definition pv_type :: string where
  "pv_type = struct_type [tagged ''Name'' ''string'' ''pv_name'', tagged ''VgName'' ''string'' ''vg_name'']"

section \<open>Decoders\<close>

definition vg_fields :: "(string \<Rightarrow> string) \<Rightarrow> vg_row json_field list" where
  "vg_fields q =
     [(''vg_name'', field_dec vgr_Name (\<lambda>x r. r\<lparr>vgr_Name := x\<rparr>) dec_string),
      (''vg_uuid'', field_dec vgr_UUID (\<lambda>x r. r\<lparr>vgr_UUID := x\<rparr>) dec_string),
      (''vg_size'', field_dec vgr_Size (\<lambda>x r. r\<lparr>vgr_Size := x\<rparr>) (dec_quoted q ''uint64'' parse_uint64)),
      (''vg_free'', field_dec vgr_Free (\<lambda>x r. r\<lparr>vgr_Free := x\<rparr>) (dec_quoted q ''uint64'' parse_uint64)),
      (''vg_extent_size'', field_dec vgr_ExtentSize (\<lambda>x r. r\<lparr>vgr_ExtentSize := x\<rparr>) (dec_quoted q ''uint64'' parse_uint64)),
      (''vg_extent_count'', field_dec vgr_ExtentCount (\<lambda>x r. r\<lparr>vgr_ExtentCount := x\<rparr>) (dec_quoted q ''uint64'' parse_uint64)),
      (''vg_free_count'', field_dec vgr_FreeExtentCount (\<lambda>x r. r\<lparr>vgr_FreeExtentCount := x\<rparr>) (dec_quoted q ''uint64'' parse_uint64)),
      (''vg_tags'', field_dec vgr_Tags (\<lambda>x r. r\<lparr>vgr_Tags := x\<rparr>) dec_string)]"

definition lv_fields :: "floats \<Rightarrow> (string \<Rightarrow> string) \<Rightarrow> lv_row json_field list" where
  "lv_fields fl q =
     [(''lv_name'', field_dec lvr_Name (\<lambda>x r. r\<lparr>lvr_Name := x\<rparr>) dec_string),
      (''vg_name'', field_dec lvr_VgName (\<lambda>x r. r\<lparr>lvr_VgName := x\<rparr>) dec_string),
      (''lv_path'', field_dec lvr_Path (\<lambda>x r. r\<lparr>lvr_Path := x\<rparr>) dec_string),
      (''lv_size'', field_dec lvr_Size (\<lambda>x r. r\<lparr>lvr_Size := x\<rparr>) (dec_quoted q ''uint64'' parse_uint64)),
      (''lv_tags'', field_dec lvr_Tags (\<lambda>x r. r\<lparr>lvr_Tags := x\<rparr>) dec_string),
      (''origin'', field_dec lvr_Origin (\<lambda>x r. r\<lparr>lvr_Origin := x\<rparr>) dec_string),
      (''snap_percent'', field_dec lvr_SnapUsage (\<lambda>x r. r\<lparr>lvr_SnapUsage := x\<rparr>) (dec_quoted q ''float64'' (parse_float fl)))]"

definition pv_fields :: "pv_row json_field list" where
  "pv_fields =
     [(''pv_name'', field_dec pvr_Name (\<lambda>x r. r\<lparr>pvr_Name := x\<rparr>) dec_string),
      (''vg_name'', field_dec pvr_VgName (\<lambda>x r. r\<lparr>pvr_VgName := x\<rparr>) dec_string)]"

text \<open>
  The structure around the rows: \<open>Report\<close> is a slice of structures with one slice of rows. A structure
  with one field is modelled by that field.
\<close>

definition report_decoder :: "string \<Rightarrow> string \<Rightarrow> string \<Rightarrow> string \<Rightarrow> 'r json_field list \<Rightarrow> 'r \<Rightarrow> 'r slice slice decoder" where
  "report_decoder st kind go_name row_type fs zero =
     (let section = struct_type [tagged go_name (''[]'' @ row_type) kind]
      in dec_struct st (''lvm.'' @ st)
           [(''report'', dec_slice (''[]'' @ section)
               (dec_struct [] section
                  [(kind, dec_slice (''[]'' @ row_type) (dec_struct [] row_type fs) zero)]) ([], 0))])"

definition Unmarshal_report :: "(string \<Rightarrow> string) \<Rightarrow> 'r slice slice decoder \<Rightarrow> string \<Rightarrow> goerror option \<times> 'r report" where
  "Unmarshal_report q d s = map_prod id (\<lambda>sl. map slice_list (slice_list sl)) (Unmarshal q d ([], 0) s)"

definition Unmarshal_vgs :: "(string \<Rightarrow> string) \<Rightarrow> string \<Rightarrow> goerror option \<times> vg_row report" where
  "Unmarshal_vgs q = Unmarshal_report q (report_decoder ''vgsOutput'' ''vg'' ''Vg'' vg_type (vg_fields q) zero_vg)"

definition Unmarshal_lvs :: "floats \<Rightarrow> (string \<Rightarrow> string) \<Rightarrow> string \<Rightarrow> goerror option \<times> lv_row report" where
  "Unmarshal_lvs fl q = Unmarshal_report q (report_decoder ''lvsOutput'' ''lv'' ''Lv'' lv_type (lv_fields fl q) zero_lv)"

definition Unmarshal_pvs :: "(string \<Rightarrow> string) \<Rightarrow> string \<Rightarrow> goerror option \<times> pv_row report" where
  "Unmarshal_pvs q = Unmarshal_report q (report_decoder ''pvsOutput'' ''pv'' ''Pv'' pv_type pv_fields zero_pv)"

section \<open>Reports and their rows\<close>

text \<open>
  The value of a report: an object with one key whose sections hold the rows, each row an object. The
  rows are what the decoder of a row makes of them, if it saves no error.
\<close>

definition report_json :: "string \<Rightarrow> json list list \<Rightarrow> json" where
  "report_json kind secs = JObj [(''report'', JArr (map (\<lambda>rows. JObj [(kind, JArr rows)]) secs))]"

lemma dec_elems_map:
  "list_all2 (\<lambda>j x. d ctx j zero None = (x, None, None)) js xs \<Longrightarrow>
     dec_elems d zero ctx js [] None = ((xs, length xs), None, None)"
  by (induction js xs rule: list_all2_induct) simp_all

lemma dec_slice_map:
  "list_all2 (\<lambda>j x. d ctx j zero None = (x, None, None)) js xs \<Longrightarrow>
     dec_slice ty d zero ctx (JArr js) ([], 0) None = ((xs, length xs), None, None)"
  using dec_elems_map [of d ctx zero js xs] by (cases js) (auto simp: dec_slice_def)

lemma dec_one_field:
  "d (st, snd ctx @ [k]) j r None = (x, None, None) \<Longrightarrow>
     dec_struct st ty [(k, d)] ctx (JObj [(k, j)]) r None = (x, None, None)"
  by (simp add: dec_struct_def find_field_def)

lemma report_decoded:
  assumes "list_all2 (list_all2 (\<lambda>j x. \<forall>ctx. dec_struct [] row_type fs ctx j zero None = (x, None, None))) secs rows"
  shows "decode_value (report_decoder st kind go_name row_type fs zero) ([], 0) (report_json kind secs) =
    (None, map (\<lambda>r. (r, length r)) rows, length rows)"
proof -
  let ?row = "dec_slice (''[]'' @ row_type) (dec_struct [] row_type fs) zero"
  let ?ty = "struct_type [tagged go_name (''[]'' @ row_type) kind]"
  have row: "?row ctx (JArr js) ([], 0) None = ((xs, length xs), None, None)"
    if "list_all2 (\<lambda>j x. \<forall>ctx. dec_struct [] row_type fs ctx j zero None = (x, None, None)) js xs" for ctx js xs
    by (rule dec_slice_map, rule list_all2_mono [OF that]) blast
  have "dec_slice (''[]'' @ ?ty) (dec_struct [] ?ty [(kind, ?row)]) ([], 0) ctx
      (JArr (map (\<lambda>rows. JObj [(kind, JArr rows)]) secs)) ([], 0) None =
    ((map (\<lambda>r. (r, length r)) rows, length (map (\<lambda>r. (r, length r)) rows)), None, None)" for ctx
    by (rule dec_slice_map, unfold list_all2_map1 list_all2_map2, rule list_all2_mono [OF assms])
       (rule dec_one_field, erule row)
  then show ?thesis
    unfolding decode_value_def report_decoder_def report_json_def Let_def
    by (simp add: dec_one_field)
qed

lemma report_depth:
  assumes "list_all (list_all (\<lambda>j. json_depth j \<le> 1)) secs"
  shows "json_depth (report_json kind secs) \<le> maxNestingDepth"
proof -
  have m: "foldr max (map f xs) 0 \<le> n" if "list_all (\<lambda>x. f x \<le> n) xs" for f :: "'b \<Rightarrow> nat" and xs n
    using that by (induction xs) auto
  have "json_depth (JArr js) \<le> 2" if "list_all (\<lambda>j. json_depth j \<le> 1) js" for js
    using m [of json_depth 1 js] that by simp
  then have "list_all (\<lambda>js. json_depth (JObj [(kind, JArr js)]) \<le> 3) secs"
    using assms by (auto simp: list_all_iff)
  then have "json_depth (JArr (map (\<lambda>js. JObj [(kind, JArr js)]) secs)) \<le> 4"
    using m [of "\<lambda>js. json_depth (JObj [(kind, JArr js)])" 3 secs] by (simp add: o_def)
  then show ?thesis by (simp add: report_json_def maxNestingDepth_def)
qed

text \<open>
  The contract between a kind of row and its decoder: the value of a row is flat, and the decoder of
  the structure makes the row of it. Then every text of a report of such rows, with any white space, is decoded
  to the rows.
\<close>

locale report_format =
  fixes row_type :: string and fs :: "'r json_field list" and zero :: 'r
    and row_json :: "'x \<Rightarrow> json" and row_of :: "'x \<Rightarrow> 'r"
  assumes flat: "json_depth (row_json x) \<le> 1"
    and decoded: "dec_struct [] row_type fs ctx (row_json x) zero None = (row_of x, None, None)"
begin

lemma read:
  assumes "json_text (report_json kind (map (map row_json) rows)) s" "blank a" "blank b"
  shows "Unmarshal_report q (report_decoder st kind go_name row_type fs zero) (a @ s @ b) = (None, map (map row_of) rows)"
proof -
  have "list_all (list_all (\<lambda>j. json_depth j \<le> 1)) (map (map row_json) rows)"
    using flat by (simp add: list_all_iff)
  note j = json_parse_text [OF assms report_depth [OF this]]
  have "list_all2 (list_all2 (\<lambda>j x. \<forall>ctx. dec_struct [] row_type fs ctx j zero None = (x, None, None)))
      (map (map row_json) rows) (map (map row_of) rows)"
    by (simp add: list_all2_map1 list_all2_map2 list_all2_refl decoded)
  from report_decoded [OF this] show ?thesis
    by (simp add: Unmarshal_report_def Unmarshal_def j slice_list_def o_def)
qed

end

section \<open>Rows as the tools print them\<close>

lemma valid_show_nat [simp]: "valid_utf8 (show_nat n)"
  by (rule valid_utf8_ascii_all)
     (auto simp: list_all_iff is_digit_def code_of_def dest!: show_nat_digits)

definition vg_json :: "vg_row \<Rightarrow> json" where
  "vg_json r = JObj [(''vg_name'', JStr (vgr_Name r)), (''vg_uuid'', JStr (vgr_UUID r)),
     (''vg_size'', JStr (show_nat (unat (vgr_Size r)))), (''vg_free'', JStr (show_nat (unat (vgr_Free r)))),
     (''vg_extent_size'', JStr (show_nat (unat (vgr_ExtentSize r)))),
     (''vg_extent_count'', JStr (show_nat (unat (vgr_ExtentCount r)))),
     (''vg_free_count'', JStr (show_nat (unat (vgr_FreeExtentCount r)))), (''vg_tags'', JStr (vgr_Tags r))]"

definition pv_json :: "pv_row \<Rightarrow> json" where
  "pv_json r = JObj [(''pv_name'', JStr (pvr_Name r)), (''vg_name'', JStr (pvr_VgName r))]"

text \<open>A row of \<open>lvs\<close> with the columns that \<open>LookupLogicalVolume\<close> asks for.\<close>

definition lv_json :: "lv_row \<Rightarrow> json" where
  "lv_json r = JObj [(''lv_name'', JStr (lvr_Name r)), (''lv_size'', JStr (show_nat (unat (lvr_Size r)))),
     (''vg_name'', JStr (lvr_VgName r)), (''origin'', JStr (lvr_Origin r))]"

lemma store_show:
  "store_quoted q ty parse_uint64 ctx (show_nat (unat (w :: uint64))) old sv = (w, sv, None)"
proof -
  obtain c t where ct: "show_nat (unat w) = c # t" by (cases "show_nat (unat w)") auto
  have "is_digit c" using show_nat_digits [of c "unat w"] ct by simp
  then have c: "json_digit c" "c \<noteq> CHR ''n''" "c \<noteq> CHR ''t''" "c \<noteq> CHR ''f''" "c \<noteq> CHR 0x22"
    by (auto simp: is_digit_def json_digit_def between_def code_of_def)
  have "unat w < 18446744073709551616" using unsigned_less [of w] by simp
  then have "parse_uint64 (show_nat (unat w)) = Inr w"
    using parse_digits_show by (simp add: parse_uint64_def ParseUint_def)
  with c show ?thesis by (simp add: store_quoted_def ct)
qed

lemma vg_json_decoded: "dec_struct [] ty (vg_fields q) ctx (vg_json r) zero_vg None = (r, None, None)"
  by (simp add: dec_struct_def vg_json_def vg_fields_def find_field_def field_dec_def dec_string_def dec_quoted_def
      store_show zero_vg_def)

lemma pv_json_decoded: "dec_struct [] ty pv_fields ctx (pv_json r) zero_pv None = (r, None, None)"
  by (simp add: dec_struct_def pv_json_def pv_fields_def find_field_def field_dec_def dec_string_def zero_pv_def)

lemma lv_json_decoded:
  "dec_struct [] ty (lv_fields fl q) ctx (lv_json r) zero_lv None =
     (r\<lparr>lvr_Path := [], lvr_Tags := [], lvr_SnapUsage := 0\<rparr>, None, None)"
  by (simp add: dec_struct_def lv_json_def lv_fields_def find_field_def field_dec_def dec_string_def dec_quoted_def
      store_show zero_lv_def)

interpretation vgs: report_format vg_type "vg_fields q" zero_vg vg_json "\<lambda>r. r" for q
  by unfold_locales (simp_all add: vg_json_decoded, simp add: vg_json_def)

interpretation pvs: report_format pv_type pv_fields zero_pv pv_json "\<lambda>r. r"
  by unfold_locales (simp_all add: pv_json_decoded, simp add: pv_json_def)

interpretation lvs: report_format lv_type "lv_fields fl q" zero_lv lv_json
    "\<lambda>r. r\<lparr>lvr_Path := [], lvr_Tags := [], lvr_SnapUsage := 0\<rparr>" for fl q
  by unfold_locales (simp_all add: lv_json_decoded, simp add: lv_json_def)

theorem vgs_report_read:
  assumes "json_text (report_json ''vg'' (map (map vg_json) rows)) s" "blank a" "blank b"
  shows "Unmarshal_vgs q (a @ s @ b) = (None, rows)"
  using vgs.read [OF assms] by (simp add: Unmarshal_vgs_def)

theorem pvs_report_read:
  assumes "json_text (report_json ''pv'' (map (map pv_json) rows)) s" "blank a" "blank b"
  shows "Unmarshal_pvs q (a @ s @ b) = (None, rows)"
  using pvs.read [OF assms] by (simp add: Unmarshal_pvs_def)

theorem lvs_report_read:
  assumes "json_text (report_json ''lv'' (map (map lv_json) rows)) s" "blank a" "blank b"
  shows "Unmarshal_lvs fl q (a @ s @ b) =
    (None, map (map (\<lambda>r. r\<lparr>lvr_Path := [], lvr_Tags := [], lvr_SnapUsage := 0\<rparr>)) rows)"
  using lvs.read [OF assms] by (simp add: Unmarshal_lvs_def)

end
