(* ===== verification/Lvm_VG.thy ===== *)
theory Lvm_VG
  imports Utils_Util Lvm_Report Sample_Host
begin

text \<open>
  \<open>pkg/csi/lvm/vg.go\<close>: the LVM library: physical volumes, volume groups and logical volumes through the
  command line tools and their JSON reports. A report is decoded by \<open>Lvm_Report\<close>, which gives the rows it
  has filled in and an error, and both may be present. The operations that read the usage of a snapshot
  take the floating point operations \<open>floats\<close> as an argument.
\<close>

section \<open>Errors\<close>

definition isInsufficientSpace :: "goerror \<Rightarrow> bool" where
  "isInsufficientSpace err = Contains (Error (\<lambda>s. s) err) ''insufficient free space''"

definition ErrNoSpace :: goerror where
  "ErrNoSpace = ErrorString ''lvm: not enough free space''"
definition ErrPhysicalVolumeNotFound :: goerror where
  "ErrPhysicalVolumeNotFound = ErrorString ''lvm: physical volume not found''"
definition ErrVolumeGroupNotFound :: goerror where
  "ErrVolumeGroupNotFound = ErrorString ''lvm: volume group not found''"
definition ErrLogicalVolumeNotFound :: goerror where
  "ErrLogicalVolumeNotFound = ErrorString ''lvm: logical volume not found''"
definition ErrInvalidVGName :: goerror where
  "ErrInvalidVGName = ErrorString ''lvm: Name contains invalid character, valid set includes: [A-Za-z0-9_+.-]''"
definition ErrInvalidLVName :: goerror where
  "ErrInvalidLVName = ErrorString ''lvm: Name contains invalid character, valid set includes: [A-Za-z0-9_+.-]''"
definition ErrTagInvalidLength :: goerror where
  "ErrTagInvalidLength = ErrorString ''lvm: Tag length must be between 1 and 1024 characters''"
definition ErrTagHasInvalidChars :: goerror where
  "ErrTagHasInvalidChars = ErrorString (''lvm: Tag must consist of only [A-Za-z0-9_+.-] and cannot start with a '' @
     [CHR 0x27] @ ''-'' @ [CHR 0x27])"

text \<open>
  The loops over the lines of an error text: does some line satisfy the test? The errors that reach
  them are built by \<open>run\<close> from text, so their message does not depend on quoting.
\<close>

fun some_line :: "(string \<Rightarrow> bool) \<Rightarrow> string list \<Rightarrow> bool" where
  "some_line p [] = False"
| "some_line p (line # lines) = (if p line then True else some_line p lines)"

definition err_lines :: "goerror \<Rightarrow> string list" where
  "err_lines err = Split (Error (\<lambda>s. s) err) [CHR 0x0A]"

definition IsLogicalVolumeNotFound :: "goerror \<Rightarrow> bool" where
  "IsLogicalVolumeNotFound err = some_line (\<lambda>line. HasPrefix line ''Failed to find logical volume'') (err_lines err)"

definition isPhysicalVolumeNotFound :: "goerror \<Rightarrow> bool" where
  "isPhysicalVolumeNotFound err = some_line (\<lambda>line. HasPrefix line ''Failed to find device'') (err_lines err)"

definition isNoPhysicalVolumeLabel :: "goerror \<Rightarrow> bool" where
  "isNoPhysicalVolumeLabel err = some_line (\<lambda>line. HasPrefix line ''No physical volume label read from'') (err_lines err)"

definition IsPhysicalVolumeNotFound :: "goerror \<Rightarrow> bool" where
  "IsPhysicalVolumeNotFound err \<longleftrightarrow> isPhysicalVolumeNotFound err \<or> isNoPhysicalVolumeLabel err"

definition IsVolumeGroupNotFound :: "goerror \<Rightarrow> bool" where
  "IsVolumeGroupNotFound err =
     some_line (\<lambda>line. HasPrefix line ''Volume group'' \<and> Contains line ''not found'') (err_lines err)"

section \<open>Names and tags\<close>

text \<open>The regular expression \<open>^[A-Za-z0-9_+.][A-Za-z0-9_+.-]*$\<close>.\<close>

definition name_char :: "char \<Rightarrow> bool" where
  "name_char c \<longleftrightarrow> is_alnum c \<or> c = CHR ''_'' \<or> c = CHR ''+'' \<or> c = CHR ''.''"

fun name_MatchString :: "string \<Rightarrow> bool" where
  "name_MatchString [] = False"
| "name_MatchString (c # cs) \<longleftrightarrow> name_char c \<and> list_all (\<lambda>c. name_char c \<or> c = CHR ''-'') cs"

definition ValidateLogicalVolumeName :: "string \<Rightarrow> goerror option" where
  "ValidateLogicalVolumeName name = (if \<not> name_MatchString name then Some ErrInvalidLVName else None)"

definition ValidateVolumeGroupName :: "string \<Rightarrow> goerror option" where
  "ValidateVolumeGroupName name = (if \<not> name_MatchString name then Some ErrInvalidVGName else None)"

definition ValidateTag :: "string \<Rightarrow> goerror option" where
  "ValidateTag tag =
     (if length tag > 1024 then Some ErrTagInvalidLength
      else if \<not> name_MatchString tag then Some ErrTagHasInvalidChars
      else None)"

section \<open>Running a command\<close>

fun drop_warnings :: "string list \<Rightarrow> string list \<Rightarrow> string list" where
  "drop_warnings [] acc = acc"
| "drop_warnings (line0 # lines) acc =
     (let line = TrimSpace line0
      in if HasPrefix line ''WARNING'' then drop_warnings lines acc
         else if HasPrefix line ''File descriptor'' then drop_warnings lines acc
         else drop_warnings lines (acc @ [line]))"

definition ignoreWarnings :: "string \<Rightarrow> string" where
  "ignoreWarnings str = TrimSpace (Join (drop_warnings (Split str [CHR 0x0A]) []) [CHR 0x0A])"

definition lvm_command :: "string \<Rightarrow> bool \<Rightarrow> string list \<Rightarrow> string" where
  "lvm_command cmd json extraArgs =
     Join ([utils_NsenterCmd @ '' '' @ cmd] @
       (if json then [''--reportformat=json'', ''--units=b'', ''--nosuffix''] else []) @ extraArgs) '' ''"

definition unmarshal_error :: "'w host \<Rightarrow> goerror \<Rightarrow> goerror" where
  "unmarshal_error h e = ErrorString (''unmarshal error: '' @ Error (quote h) e)"

text \<open>\<open>run\<close> without a result to decode (\<open>v = nil\<close>), and with one.\<close>

definition run :: "'w host \<Rightarrow> string \<Rightarrow> string list \<Rightarrow> ('w, 'z, goerror option) prog" where
  "run h cmd extraArgs = do {
     (stdout, stderr, err) \<leftarrow> RunSplit h ''sh'' [''-c'', lvm_command cmd False extraArgs];
     State_Monad.return (case err of Some _ \<Rightarrow> Some (ErrorString (ignoreWarnings stderr)) | None \<Rightarrow> None)
   }"

definition run_json ::
  "(string \<Rightarrow> goerror option \<times> 'r report) \<Rightarrow> 'w host \<Rightarrow> string \<Rightarrow> string list \<Rightarrow>
     ('w, 'z, goerror option \<times> 'r report) prog" where
  "run_json dec h cmd extraArgs = do {
     (stdout, stderr, err) \<leftarrow> RunSplit h ''sh'' [''-c'', lvm_command cmd True extraArgs];
     State_Monad.return (case err of
         Some _ \<Rightarrow> (Some (ErrorString (ignoreWarnings stderr)), [])
       | None \<Rightarrow> (case dec stdout of
             (Some e, rows) \<Rightarrow> (Some (unmarshal_error h e), rows)
           | (None, rows) \<Rightarrow> (None, rows)))
   }"

section \<open>Physical volumes\<close>

record PhysicalVolume =
  dev :: string

definition pv_Remove :: "'w host \<Rightarrow> PhysicalVolume \<Rightarrow> ('w, 'z, goerror option) prog" where
  "pv_Remove h pv = run h ''pvremove'' [dev pv]"

definition pv_Check :: "'w host \<Rightarrow> PhysicalVolume \<Rightarrow> ('w, 'z, goerror option) prog" where
  "pv_Check h pv = run h ''pvck'' [dev pv]"

definition CreatePhysicalVolume :: "'w host \<Rightarrow> string \<Rightarrow> bool \<Rightarrow> ('w, 'z, goerror + PhysicalVolume) prog" where
  "CreatePhysicalVolume h d force = do {
     err \<leftarrow> (if force then run h ''pvcreate'' [d, ''--force''] else run h ''pvcreate'' [d]);
     State_Monad.return (case err of
         Some e \<Rightarrow> Inl (ErrorString (''lvm: CreatePhysicalVolume: '' @ Error (quote h) e))
       | None \<Rightarrow> Inr \<lparr>dev = d\<rparr>)
   }"

definition ListPhysicalVolumes :: "'w host \<Rightarrow> ('w, 'z, goerror + PhysicalVolume list) prog" where
  "ListPhysicalVolumes h = do {
     (err, rows) \<leftarrow> run_json (Unmarshal_pvs (quote h)) h ''pvs'' [];
     State_Monad.return (case err of
         Some e \<Rightarrow> Inl e
       | None \<Rightarrow> Inr (map (\<lambda>pv. \<lparr>dev = pvr_Name pv\<rparr>) (concat rows)))
   }"

definition LookupPhysicalVolume :: "'w host \<Rightarrow> string \<Rightarrow> ('w, 'z, goerror + PhysicalVolume) prog" where
  "LookupPhysicalVolume h name = do {
     (err, rows) \<leftarrow> run_json (Unmarshal_pvs (quote h)) h ''pvs'' [''--options=pv_name'', name];
     State_Monad.return (case err of
         Some e \<Rightarrow> if IsPhysicalVolumeNotFound e then Inl ErrPhysicalVolumeNotFound else Inl e
       | None \<Rightarrow> (case first_row rows of
             Some pv \<Rightarrow> Inr \<lparr>dev = pvr_Name pv\<rparr>
           | None \<Rightarrow> Inl ErrPhysicalVolumeNotFound))
   }"

text \<open>\<open>PVScan\<close> and \<open>VGScan\<close>: the argument is left out when it is empty.\<close>

definition PVScan :: "'w host \<Rightarrow> string \<Rightarrow> ('w, 'z, goerror option) prog" where
  "PVScan h d = run h ''pvscan'' ([''--cache''] @ (if d \<noteq> [] then [d] else []))"

definition VGScan :: "'w host \<Rightarrow> string \<Rightarrow> ('w, 'z, goerror option) prog" where
  "VGScan h name = run h ''vgscan'' ([''--cache''] @ (if name \<noteq> [] then [name] else []))"

section \<open>Volume groups\<close>

record VolumeGroup =
  vg_name :: string

definition vg_Check :: "'w host \<Rightarrow> VolumeGroup \<Rightarrow> ('w, 'z, goerror option) prog" where
  "vg_Check h vg = run h ''vgck'' [vg_name vg]"

definition vg_Remove :: "'w host \<Rightarrow> VolumeGroup \<Rightarrow> ('w, 'z, goerror option) prog" where
  "vg_Remove h vg = run h ''vgremove'' [''-f'', vg_name vg]"

text \<open>The body that the five size queries share: the first row of the report, or not found.\<close>

definition vg_query ::
  "'w host \<Rightarrow> string \<Rightarrow> string \<Rightarrow> (vg_row \<Rightarrow> 'a) \<Rightarrow> ('w, 'z, goerror + 'a) prog" where
  "vg_query h opt name sel = do {
     (err, rows) \<leftarrow> run_json (Unmarshal_vgs (quote h)) h ''vgs'' [opt, name];
     State_Monad.return (case err of
         Some e \<Rightarrow> if IsVolumeGroupNotFound e then Inl ErrVolumeGroupNotFound else Inl e
       | None \<Rightarrow> (case first_row rows of
             Some row \<Rightarrow> Inr (sel row)
           | None \<Rightarrow> Inl ErrVolumeGroupNotFound))
   }"

definition BytesTotal :: "'w host \<Rightarrow> VolumeGroup \<Rightarrow> ('w, 'z, goerror + uint64) prog" where
  "BytesTotal h vg = vg_query h ''--options=vg_size'' (vg_name vg) vgr_Size"

definition BytesFree :: "'w host \<Rightarrow> VolumeGroup \<Rightarrow> ('w, 'z, goerror + uint64) prog" where
  "BytesFree h vg = vg_query h ''--options=vg_free'' (vg_name vg) vgr_Free"

definition ExtentSize :: "'w host \<Rightarrow> VolumeGroup \<Rightarrow> ('w, 'z, goerror + uint64) prog" where
  "ExtentSize h vg = vg_query h ''--options=vg_extent_size'' (vg_name vg) vgr_ExtentSize"

definition ExtentCount :: "'w host \<Rightarrow> VolumeGroup \<Rightarrow> ('w, 'z, goerror + uint64) prog" where
  "ExtentCount h vg = vg_query h ''--options=vg_extent_count'' (vg_name vg) vgr_ExtentCount"

definition ExtentFreeCount :: "'w host \<Rightarrow> VolumeGroup \<Rightarrow> ('w, 'z, goerror + uint64) prog" where
  "ExtentFreeCount h vg = vg_query h ''--options=vg_free_count'' (vg_name vg) vgr_FreeExtentCount"

definition LookupVolumeGroup :: "'w host \<Rightarrow> string \<Rightarrow> ('w, 'z, goerror + VolumeGroup) prog" where
  "LookupVolumeGroup h name = vg_query h ''--options=vg_name'' name (\<lambda>row. \<lparr>vg_name = vgr_Name row\<rparr>)"

definition ListVolumeGroupNames :: "'w host \<Rightarrow> ('w, 'z, goerror + string list) prog" where
  "ListVolumeGroupNames h = do {
     (err, rows) \<leftarrow> run_json (Unmarshal_vgs (quote h)) h ''vgs'' [];
     State_Monad.return (case err of Some e \<Rightarrow> Inl e | None \<Rightarrow> Inr (map vgr_Name (concat rows)))
   }"

definition ListVolumeGroupUUIDs :: "'w host \<Rightarrow> ('w, 'z, goerror + string list) prog" where
  "ListVolumeGroupUUIDs h = do {
     (err, rows) \<leftarrow> run_json (Unmarshal_vgs (quote h)) h ''vgs'' [''--options=vg_uuid''];
     State_Monad.return (case err of Some e \<Rightarrow> Inl e | None \<Rightarrow> Inr (map vgr_UUID (concat rows)))
   }"

definition ListPhysicalVolumeNames :: "'w host \<Rightarrow> VolumeGroup \<Rightarrow> ('w, 'z, goerror + string list) prog" where
  "ListPhysicalVolumeNames h vg = do {
     (err, rows) \<leftarrow> run_json (Unmarshal_pvs (quote h)) h ''pvs'' [''--options=pv_name,vg_name''];
     State_Monad.return (case err of
         Some e \<Rightarrow> Inl e
       | None \<Rightarrow> Inr (map pvr_Name (filter (\<lambda>pv. pvr_VgName pv = vg_name vg) (concat rows))))
   }"

text \<open>The loop over the tags: the first invalid tag ends it, empty tags are skipped.\<close>

fun tag_args :: "string list \<Rightarrow> goerror + string list" where
  "tag_args [] = Inr []"
| "tag_args (tag # tags) =
     (if tag = [] then tag_args tags
      else (case ValidateTag tag of
              Some err \<Rightarrow> Inl err
            | None \<Rightarrow> (case tag_args tags of Inl err \<Rightarrow> Inl err | Inr args \<Rightarrow> Inr ((''--add-tag='' @ tag) # args))))"

definition CreateVolumeGroup ::
  "'w host \<Rightarrow> string \<Rightarrow> PhysicalVolume list \<Rightarrow> string list \<Rightarrow> bool \<Rightarrow> ('w, 'z, goerror + VolumeGroup) prog" where
  "CreateVolumeGroup h name pvs tags force =
     (case ValidateVolumeGroupName name of
        Some err \<Rightarrow> State_Monad.return (Inl err)
      | None \<Rightarrow>
          (case tag_args tags of
             Inl err \<Rightarrow> State_Monad.return (Inl err)
           | Inr args \<Rightarrow> do {
               r \<leftarrow> run h ''vgcreate'' (args @ [name] @ map dev pvs @ (if force then [''--force''] else []));
               case r of
                 Some err \<Rightarrow> State_Monad.return (Inl err)
               | None \<Rightarrow> do {
                   PVScan h [];
                   VGScan h [];
                   State_Monad.return (Inr \<lparr>vg_name = name\<rparr>)
                 }
             }))"

section \<open>Logical volumes\<close>

record LogicalVolume =
  lv_name :: string
  lv_sizeInBytes :: uint64
  lv_vg :: VolumeGroup
  lv_originLvName :: string
  lv_usageInPercent :: float64

definition CreateLogicalVolume ::
  "'w host \<Rightarrow> VolumeGroup \<Rightarrow> string \<Rightarrow> uint64 \<Rightarrow> string list \<Rightarrow> ('w, 'z, goerror + LogicalVolume) prog" where
  "CreateLogicalVolume h vg name sizeInBytes tags =
     (case ValidateLogicalVolumeName name of
        Some err \<Rightarrow> State_Monad.return (Inl err)
      | None \<Rightarrow>
          (case tag_args tags of
             Inl err \<Rightarrow> State_Monad.return (Inl err)
           | Inr args \<Rightarrow> do {
               r \<leftarrow> run h ''lvcreate'' (args @ [''--size='' @ show_int (uint sizeInBytes) @ ''b''] @
                     [''--name='' @ name] @ [vg_name vg]);
               case r of
                 Some err \<Rightarrow> State_Monad.return (Inl (if isInsufficientSpace err then ErrNoSpace else err))
               | None \<Rightarrow> State_Monad.return (Inr \<lparr>lv_name = name, lv_sizeInBytes = sizeInBytes, lv_vg = vg,
                   lv_originLvName = [], lv_usageInPercent = 0\<rparr>)
             }))"

text \<open>
  The row that the loop stops at. For a snapshot a second report is read; its error is ignored and
  its first row is taken without a check.
\<close>

definition is_lv :: "VolumeGroup \<Rightarrow> string \<Rightarrow> lv_row \<Rightarrow> bool" where
  "is_lv vg name lv \<longleftrightarrow> lvr_VgName lv = vg_name vg \<and> lvr_Name lv = name"

definition first_usage :: "lv_row report \<Rightarrow> float64 outcome" where
  "first_usage rows = (case rows of
       [] \<Rightarrow> Panic ''index out of range''
     | lvs # _ \<Rightarrow> (case lvs of [] \<Rightarrow> Panic ''index out of range'' | lv # _ \<Rightarrow> Done (lvr_SnapUsage lv)))"

definition snap_usage :: "floats \<Rightarrow> 'w host \<Rightarrow> lv_row \<Rightarrow> ('w, 'z, float64 outcome) prog" where
  "snap_usage fl h lv =
     (if lvr_Origin lv \<noteq> [] then do {
        (_, tmpResult) \<leftarrow> run_json (Unmarshal_lvs fl (quote h)) h ''lvs''
           [''--options=lv_name,lv_size,vg_name,origin,snap_percent'', lvr_VgName lv @ ''/'' @ lvr_Name lv];
        State_Monad.return (first_usage tmpResult)
      }
      else State_Monad.return (Done 0))"

definition LookupLogicalVolume ::
  "floats \<Rightarrow> 'w host \<Rightarrow> VolumeGroup \<Rightarrow> string \<Rightarrow> ('w, 'z, (goerror + LogicalVolume) outcome) prog" where
  "LookupLogicalVolume fl h vg name = do {
     (err, rows) \<leftarrow> run_json (Unmarshal_lvs fl (quote h)) h ''lvs'' [''--options=lv_name,lv_size,vg_name,origin'', vg_name vg];
     case err of
       Some e \<Rightarrow> State_Monad.return (Done (Inl (if IsLogicalVolumeNotFound e then ErrLogicalVolumeNotFound else e)))
     | None \<Rightarrow>
         (case find (is_lv vg name) (concat rows) of
            None \<Rightarrow> State_Monad.return (Done (Inl ErrLogicalVolumeNotFound))
          | Some lv \<Rightarrow> do {
              usage \<leftarrow> snap_usage fl h lv;
              case usage of
                Panic m \<Rightarrow> State_Monad.return (Panic m)
              | Done u \<Rightarrow> State_Monad.return (Done (Inr \<lparr>lv_name = lvr_Name lv, lv_sizeInBytes = lvr_Size lv, lv_vg = vg,
                  lv_originLvName = lvr_Origin lv, lv_usageInPercent = div_100 fl u\<rparr>))
            })
   }"

definition ListLogicalVolumeNames :: "floats \<Rightarrow> 'w host \<Rightarrow> VolumeGroup \<Rightarrow> ('w, 'z, goerror + string list) prog" where
  "ListLogicalVolumeNames fl h vg = do {
     (err, rows) \<leftarrow> run_json (Unmarshal_lvs fl (quote h)) h ''lvs'' [''--options=lv_name,vg_name'', vg_name vg];
     State_Monad.return (case err of
         Some e \<Rightarrow> Inl e
       | None \<Rightarrow> Inr (map lvr_Name (filter (\<lambda>lv. lvr_VgName lv = vg_name vg) (concat rows))))
   }"

definition lv_full_name :: "LogicalVolume \<Rightarrow> string" where
  "lv_full_name lv = vg_name (lv_vg lv) @ ''/'' @ lv_name lv"

definition lv_Path :: "floats \<Rightarrow> 'w host \<Rightarrow> LogicalVolume \<Rightarrow> ('w, 'z, goerror + string) prog" where
  "lv_Path fl h lv = do {
     (err, rows) \<leftarrow> run_json (Unmarshal_lvs fl (quote h)) h ''lvs'' [''--options=lv_path'', lv_full_name lv];
     State_Monad.return (case err of
         Some e \<Rightarrow> if IsLogicalVolumeNotFound e then Inl ErrLogicalVolumeNotFound else Inl e
       | None \<Rightarrow> (case first_row rows of
             Some row \<Rightarrow> Inr (lvr_Path row)
           | None \<Rightarrow> Inl ErrLogicalVolumeNotFound))
   }"

definition lv_IsSnapshot :: "LogicalVolume \<Rightarrow> bool" where
  "lv_IsSnapshot lv \<longleftrightarrow> lv_originLvName lv \<noteq> []"

definition lv_Remove :: "'w host \<Rightarrow> LogicalVolume \<Rightarrow> ('w, 'z, goerror option) prog" where
  "lv_Remove h lv = run h ''lvremove'' [''-f'', lv_full_name lv]"

definition lv_Expand :: "'w host \<Rightarrow> LogicalVolume \<Rightarrow> uint64 \<Rightarrow> ('w, 'z, goerror option) prog" where
  "lv_Expand h lv sz = do {
     (out, err) \<leftarrow> CombinedOutput h ''sh'' [''-c'', Join [utils_NsenterCmd, ''lvextend'',
        ''--size=+'' @ show_int (uint sz) @ ''b'', lv_full_name lv] '' ''];
     State_Monad.return err
   }"

section \<open>Error texts\<close>

lemma some_line_iff: "some_line p ls \<longleftrightarrow> (\<exists>l \<in> set ls. p l)"
  by (induction ls) auto

definition kept_line :: "string \<Rightarrow> bool" where
  "kept_line l \<longleftrightarrow> \<not> HasPrefix l ''WARNING'' \<and> \<not> HasPrefix l ''File descriptor''"

lemma drop_warnings_filter: "drop_warnings ls acc = acc @ filter kept_line (map TrimSpace ls)"
  by (induction ls arbitrary: acc) (auto simp: kept_line_def Let_def)

lemma newline_not_space [simp]:
  "\<not> narrow_space c (CHR 0x0A)" "\<not> wide_space c (CHR 0x0A) e" "\<not> wide_space c d (CHR 0x0A)"
  "\<not> narrow_space (CHR 0x0A) d" "\<not> wide_space (CHR 0x0A) d e"
  by (simp_all add: narrow_space_def wide_space_def)

lemma space_len_newline:
  assumes "u \<noteq> []" and "space_len u = 0"
  shows "space_len (u @ CHR 0x0A # v) = 0"
proof -
  obtain c t where u: "u = c # t" using assms(1) by (cases u) auto
  show ?thesis
    using assms u by (cases t; cases "tl t") (simp_all add: space_len_def split: list.split if_splits)
qed

lemma rspace_len_newline:
  assumes "u \<noteq> []" and "rspace_len u = 0"
  shows "rspace_len (u @ CHR 0x0A # v) = 0"
proof -
  obtain c t where u: "u = c # t" using assms(1) by (cases u) auto
  show ?thesis
    using assms u by (cases t; cases "tl t") (simp_all add: rspace_len_def split: list.split if_splits)
qed

lemma set_TrimSpace: "set (TrimSpace s) \<subseteq> set s"
proof -
  have l: "set (TrimLeftSpace s) \<subseteq> set s" for s
  proof (induction s rule: TrimLeftSpace.induct)
    case (1 s)
    show ?case
    proof (cases "s = [] \<or> space_len s = 0")
      case True
      then show ?thesis by (simp add: TrimLeftSpace.simps [of s])
    next
      case False
      then have "TrimLeftSpace s = TrimLeftSpace (drop (space_len s) s)"
        by (simp add: TrimLeftSpace.simps [of s])
      then show ?thesis using 1 [OF False] set_drop_subset [of "space_len s" s] by simp
    qed
  qed
  obtain w where "rev (TrimLeftSpace s) = w @ TrimRightSpace (rev (TrimLeftSpace s))"
    using TrimRightSpace_suffix by blast
  then have "set (TrimRightSpace (rev (TrimLeftSpace s))) \<subseteq> set (TrimLeftSpace s)"
    by (metis Un_upper2 set_append set_rev)
  with l [of s] show ?thesis by (auto simp: TrimSpace_def)
qed

lemma TrimLeftSpace_newline: "TrimLeftSpace (CHR 0x0A # s) = TrimLeftSpace s"
  by (subst TrimLeftSpace.simps) simp

lemma TrimRightSpace_newline: "TrimRightSpace (CHR 0x0A # s) = TrimRightSpace s"
  by (subst TrimRightSpace.simps) (simp add: rspace_len_def ascii_space_def)

lemma TrimLeftSpace_lines:
  "\<forall>l \<in> set ls. space_len l = 0 \<Longrightarrow> TrimLeftSpace (Join ls [CHR 0x0A]) = Join (dropWhile (\<lambda>l. l = []) ls) [CHR 0x0A]"
proof (induction ls)
  case (Cons l ls)
  show ?case
  proof (cases ls)
    case Nil
    with Cons.prems show ?thesis by (auto simp: TrimLeftSpace_id)
  next
    case ls: (Cons l' ls')
    then show ?thesis
      using Cons by (cases "l = []") (auto simp: Join_Cons TrimLeftSpace_newline TrimLeftSpace_id space_len_newline)
  qed
qed (simp add: TrimLeftSpace_id)

lemma TrimRightSpace_lines:
  "\<forall>l \<in> set ls. rspace_len l = 0 \<Longrightarrow> TrimRightSpace (Join ls [CHR 0x0A]) = Join (dropWhile (\<lambda>l. l = []) ls) [CHR 0x0A]"
proof (induction ls)
  case (Cons l ls)
  show ?case
  proof (cases ls)
    case Nil
    with Cons.prems show ?thesis by (auto simp: TrimRightSpace_id)
  next
    case ls: (Cons l' ls')
    then show ?thesis
      using Cons by (cases "l = []") (auto simp: Join_Cons TrimRightSpace_newline TrimRightSpace_id rspace_len_newline)
  qed
qed (simp add: TrimRightSpace_id rspace_len_def)

lemma Join_snoc: "Join (xs @ [x]) [c] = (if xs = [] then x else Join xs [c] @ c # x)"
  by (induction xs) (auto simp: Join_Cons)

lemma rev_Join: "rev (Join ls [c]) = Join (rev (map rev ls)) [c]"
  by (induction ls) (auto simp: Join_Cons Join_snoc)

definition strip_lines :: "string list \<Rightarrow> string list" where
  "strip_lines ls = rev (dropWhile (\<lambda>l. l = []) (rev (dropWhile (\<lambda>l. l = []) ls)))"

lemma TrimSpace_lines:
  assumes "\<forall>l \<in> set ls. TrimSpace l = l"
  shows "TrimSpace (Join ls [CHR 0x0A]) = Join (strip_lines ls) [CHR 0x0A]"
proof -
  have trimmed: "space_len l = 0" "rspace_len (rev l) = 0" if "l \<in> set ls" for l
    using TrimSpace_ends [of l] assms that by auto
  have "TrimRightSpace (rev (Join xs [CHR 0x0A])) = rev (Join (rev (dropWhile (\<lambda>l. l = []) (rev xs))) [CHR 0x0A])"
    if "set xs \<subseteq> set ls" for xs
  proof -
    have "TrimRightSpace (Join (rev (map rev xs)) [CHR 0x0A]) = Join (dropWhile (\<lambda>l. l = []) (rev (map rev xs))) [CHR 0x0A]"
      using that trimmed by (intro TrimRightSpace_lines) auto
    then show ?thesis
      by (simp add: rev_Join rev_map dropWhile_map o_def)
  qed
  from this [of "dropWhile (\<lambda>l. l = []) ls"] show ?thesis
    using trimmed by (simp add: TrimSpace_def TrimLeftSpace_lines strip_lines_def set_dropWhileD subsetI)
qed

lemma set_strip_lines: "l \<noteq> [] \<Longrightarrow> l \<in> set (strip_lines ls) \<longleftrightarrow> l \<in> set ls"
proof -
  assume l: "l \<noteq> []"
  have "l \<in> set (dropWhile (\<lambda>x. x = []) xs) \<longleftrightarrow> l \<in> set xs" for xs
    using l by (induction xs) auto
  then show ?thesis by (simp add: strip_lines_def)
qed

lemma ignoreWarnings_lines:
  assumes "\<not> p []"
  shows "some_line p (err_lines (ErrorString (ignoreWarnings str))) \<longleftrightarrow>
    (\<exists>line \<in> set (Split str [CHR 0x0A]). kept_line (TrimSpace line) \<and> p (TrimSpace line))"
proof -
  let ?ls = "filter kept_line (map TrimSpace (Split str [CHR 0x0A]))"
  have msg: "ignoreWarnings str = Join (strip_lines ?ls) [CHR 0x0A]"
    by (simp add: ignoreWarnings_def drop_warnings_filter) (subst TrimSpace_lines, auto)
  have nl: "CHR 0x0A \<notin> set l" if "l \<in> set (strip_lines ?ls)" for l
  proof (cases "l = []")
    case False
    with that have "l \<in> set ?ls" by (simp only: set_strip_lines not_False_eq_True)
    then obtain x where "x \<in> set (Split str [CHR 0x0A])" "l = TrimSpace x" by auto
    then show ?thesis using set_Split_char set_TrimSpace by blast
  qed simp
  have "(\<exists>l \<in> set (Split (ignoreWarnings str) [CHR 0x0A]). p l) \<longleftrightarrow> (\<exists>l \<in> set (strip_lines ?ls). p l)"
  proof (cases "strip_lines ?ls = []")
    case True
    then show ?thesis using assms by (simp add: msg Split_char_none)
  next
    case False
    then show ?thesis using nl by (simp add: msg Split_Join_char)
  qed
  also have "\<dots> \<longleftrightarrow> (\<exists>l \<in> set ?ls. p l)"
    using assms set_strip_lines by metis
  finally show ?thesis by (auto simp: err_lines_def some_line_iff)
qed

section \<open>The classifiers of errors\<close>

text \<open>
  A classifier looks for a line of the error text that satisfies a test which fails on the empty
  line and on the lines that \<open>ignoreWarnings\<close> drops. Then it finds in the error of \<open>run\<close> exactly what the
  command has printed on its standard error.
\<close>

locale line_classifier =
  fixes classify :: "goerror \<Rightarrow> bool" and test :: "string \<Rightarrow> bool"
  assumes classify_lines: "classify err = some_line test (err_lines err)"
    and test_Nil: "\<not> test []"
    and test_kept: "test l \<Longrightarrow> kept_line l"
begin

lemma classify_stderr:
  "classify (ErrorString (ignoreWarnings stderr)) \<longleftrightarrow> (\<exists>line \<in> set (Split stderr [CHR 0x0A]). test (TrimSpace line))"
  unfolding classify_lines using ignoreWarnings_lines [of test, OF test_Nil] test_kept by blast

end

interpretation lv_missing: line_classifier IsLogicalVolumeNotFound "\<lambda>l. HasPrefix l ''Failed to find logical volume''"
  by unfold_locales (auto simp: IsLogicalVolumeNotFound_def kept_line_def HasPrefix_iff)

interpretation pv_missing: line_classifier isPhysicalVolumeNotFound "\<lambda>l. HasPrefix l ''Failed to find device''"
  by unfold_locales (auto simp: isPhysicalVolumeNotFound_def kept_line_def HasPrefix_iff)

interpretation pv_no_label: line_classifier isNoPhysicalVolumeLabel "\<lambda>l. HasPrefix l ''No physical volume label read from''"
  by unfold_locales (auto simp: isNoPhysicalVolumeLabel_def kept_line_def HasPrefix_iff)

interpretation vg_missing: line_classifier IsVolumeGroupNotFound
    "\<lambda>l. HasPrefix l ''Volume group'' \<and> Contains l ''not found''"
  by unfold_locales (auto simp: IsVolumeGroupNotFound_def kept_line_def HasPrefix_iff)

section \<open>What the operations run\<close>

lemma produces_run_bind [produce_rules]:
  assumes "\<And>out serr. produces (f None) (\<lambda>b es. Q b (ExecSplitEv ''sh'' [''-c'', lvm_command cmd False args] out serr None # es))"
    and "\<And>out serr e. produces (f (Some (ErrorString (ignoreWarnings serr))))
      (\<lambda>b es. Q b (ExecSplitEv ''sh'' [''-c'', lvm_command cmd False args] out serr (Some e) # es))"
  shows "produces (State_Monad.bind (run h cmd args) f) Q"
proof (rule produces_bind)
  show "produces (run h cmd args) (\<lambda>r es. \<exists>out serr err. es = [ExecSplitEv ''sh'' [''-c'', lvm_command cmd False args] out serr err] \<and>
     r = (case err of Some _ \<Rightarrow> Some (ErrorString (ignoreWarnings serr)) | None \<Rightarrow> None))"
    unfolding run_def host_call_defs by (intro produce_rules) auto
qed (use assms in \<open>auto split: option.splits\<close>)

lemma produces_run_json_bind [produce_rules]:
  assumes "\<And>out serr e rows. dec out = (e, rows) \<Longrightarrow>
      produces (f (map_option (unmarshal_error h) e, rows))
      (\<lambda>b es. Q b (ExecSplitEv ''sh'' [''-c'', lvm_command cmd True args] out serr None # es))"
    and "\<And>out serr e. produces (f (Some (ErrorString (ignoreWarnings serr)), []))
      (\<lambda>b es. Q b (ExecSplitEv ''sh'' [''-c'', lvm_command cmd True args] out serr (Some e) # es))"
  shows "produces (State_Monad.bind (run_json dec h cmd args) f) Q"
proof (rule produces_bind)
  show "produces (run_json dec h cmd args) (\<lambda>r es.
      (\<exists>out serr. es = [ExecSplitEv ''sh'' [''-c'', lvm_command cmd True args] out serr None] \<and>
         r = (map_option (unmarshal_error h) (fst (dec out)), snd (dec out))) \<or>
      (\<exists>out serr e. es = [ExecSplitEv ''sh'' [''-c'', lvm_command cmd True args] out serr (Some e)] \<and>
         r = (Some (ErrorString (ignoreWarnings serr)), [])))"
    unfolding run_json_def host_call_defs by (intro produce_rules) (auto split: option.split prod.split)
next
  fix a es
  assume "(\<exists>out serr. es = [ExecSplitEv ''sh'' [''-c'', lvm_command cmd True args] out serr None] \<and>
         a = (map_option (unmarshal_error h) (fst (dec out)), snd (dec out))) \<or>
      (\<exists>out serr e. es = [ExecSplitEv ''sh'' [''-c'', lvm_command cmd True args] out serr (Some e)] \<and>
         a = (Some (ErrorString (ignoreWarnings serr)), []))"
  then show "produces (f a) (\<lambda>b es'. Q b (es @ es'))"
    using assms(1) [OF prod.collapse [symmetric]] assms(2) by auto
qed

section \<open>Validated arguments\<close>

text \<open>The arguments that the tags add, and when all tags are acceptable.\<close>

definition tags_ok :: "string list \<Rightarrow> bool" where
  "tags_ok tags \<longleftrightarrow> list_all (\<lambda>t. t = [] \<or> length t \<le> 1024 \<and> name_MatchString t) tags"

definition tag_options :: "string list \<Rightarrow> string list" where
  "tag_options tags = map (\<lambda>t. ''--add-tag='' @ t) (filter (\<lambda>t. t \<noteq> []) tags)"

lemma tag_args_cases:
  "(tags_ok tags \<longrightarrow> tag_args tags = Inr (tag_options tags)) \<and>
   (\<not> tags_ok tags \<longrightarrow> tag_args tags \<in> {Inl ErrTagInvalidLength, Inl ErrTagHasInvalidChars})"
  by (induction tags) (auto simp: tags_ok_def tag_options_def ValidateTag_def)

text \<open>Characters that mean something to the shell.\<close>

definition shell_special :: string where
  "shell_special = '' |&;<>()$`*?[]#~={}!/'' @ [CHR 0x22, CHR 0x27, CHR 0x5C, CHR 0x09, CHR 0x0A]"

lemma name_chars_inert: "name_MatchString t \<Longrightarrow> c \<in> set t \<Longrightarrow> c \<notin> set shell_special"
  by (cases t) (auto simp: name_char_def is_alnum_def list_all_iff shell_special_def Let_def)

lemma name_no_dash: "name_MatchString t \<Longrightarrow> \<not> HasPrefix t ''-''"
  by (cases t) (auto simp: name_char_def is_alnum_def HasPrefix_iff)

section \<open>Theorems\<close>

definition lvcreate_args :: "VolumeGroup \<Rightarrow> string \<Rightarrow> uint64 \<Rightarrow> string list \<Rightarrow> string list" where
  "lvcreate_args vg name sz tags =
     tag_options tags @ [''--size='' @ show_int (uint sz) @ ''b'', ''--name='' @ name, vg_name vg]"

text \<open>
  C20: \<open>CreateLogicalVolume\<close> runs nothing unless the name and every non-empty tag match \<open>[A-Za-z0-9_+.][A-Za-z0-9_+.-]*\<close>
  (tags of at most 1024 bytes); then it runs exactly one \<open>lvcreate\<close>, and the name and the tags bring no
  character into the shell command that the shell would interpret and no leading dash.
\<close>

theorem create_lv_validated:
  "(if name_MatchString name \<and> tags_ok tags
    then (\<exists>out serr err. new_events (CreateLogicalVolume h vg name sz tags) s =
        [ExecSplitEv ''sh'' [''-c'', lvm_command ''lvcreate'' False (lvcreate_args vg name sz tags)] out serr err] \<and>
        (err = None \<longleftrightarrow> (\<exists>lv. result (CreateLogicalVolume h vg name sz tags) s = Inr lv))) \<and>
      (\<forall>t \<in> set (name # filter (\<lambda>t. t \<noteq> []) tags). set t \<inter> set shell_special = {} \<and> \<not> HasPrefix t ''-'')
    else new_events (CreateLogicalVolume h vg name sz tags) s = [] \<and>
      result (CreateLogicalVolume h vg name sz tags) s \<in>
        {Inl ErrInvalidLVName, Inl ErrTagInvalidLength, Inl ErrTagHasInvalidChars})"
proof (cases "name_MatchString name \<and> tags_ok tags")
  case True
  have p: "produces (CreateLogicalVolume h vg name sz tags) (\<lambda>r es. \<exists>out serr err. es =
      [ExecSplitEv ''sh'' [''-c'', lvm_command ''lvcreate'' False (lvcreate_args vg name sz tags)] out serr err] \<and>
      (err = None \<longleftrightarrow> (\<exists>lv. r = Inr lv)))"
    using True tag_args_cases [of tags]
    unfolding CreateLogicalVolume_def ValidateLogicalVolumeName_def lvcreate_args_def
    by (simp, intro produce_rules) auto
  have "\<forall>t \<in> set (name # filter (\<lambda>t. t \<noteq> []) tags). set t \<inter> set shell_special = {} \<and> \<not> HasPrefix t ''-''"
    using True name_chars_inert name_no_dash by (auto simp: tags_ok_def list_all_iff)
  with produces_new [OF p, of s] show ?thesis unfolding if_P [OF True] by blast
next
  case False
  then show ?thesis
    using tag_args_cases [of tags]
    by (auto simp: result_def new_events_def CreateLogicalVolume_def ValidateLogicalVolumeName_def split: sum.split)
qed

theorem create_lv_validated_witness:
  "set ''lv-1'' \<inter> set shell_special = {} \<and>
   (\<exists>lv. result (CreateLogicalVolume quiet_host \<lparr>vg_name = ''vg''\<rparr> ''lv-1'' 4096 []) start = Inr lv)"
proof -
  have ok: "name_MatchString ''lv-1'' \<and> tags_ok []"
    by (simp add: name_char_def is_alnum_def tags_ok_def)
  have r: "\<exists>lv. result (CreateLogicalVolume quiet_host \<lparr>vg_name = ''vg''\<rparr> ''lv-1'' 4096 []) start = Inr lv"
    using ok by (simp add: result_def CreateLogicalVolume_def ValidateLogicalVolumeName_def run_def host_call_defs sample_defs
        del: name_MatchString.simps)
  show ?thesis
    using create_lv_validated [of "''lv-1''" "[]" quiet_host "\<lparr>vg_name = ''vg''\<rparr>" 4096 start] ok r
    by (simp del: name_MatchString.simps)
qed

text \<open>
  A size of zero does not allocate all free space, as the documentation of \<open>CreateLogicalVolume\<close> and of \<open>MaxSize\<close>
  says: the command asks \<open>lvcreate\<close> for \<open>--size=0b\<close>.
\<close>

theorem create_lv_zero_size:
  assumes "name_MatchString name" and "tags_ok tags"
  shows "\<exists>out serr err. new_events (CreateLogicalVolume h vg name 0 tags) s =
    [ExecSplitEv ''sh'' [''-c'', lvm_command ''lvcreate'' False (tag_options tags @ [''--size=0b'', ''--name='' @ name, vg_name vg])]
      out serr err]"
proof -
  have "show_int 0 = ''0''" by code_simp
  then show ?thesis
    using assms tag_args_cases [of tags]
    by (simp add: new_events_def CreateLogicalVolume_def ValidateLogicalVolumeName_def run_def host_call_defs
        split: prod.split option.split)
qed

theorem create_lv_zero_size_witness:
  "\<exists>out serr err. new_events (CreateLogicalVolume quiet_host \<lparr>vg_name = ''vg''\<rparr> ''a'' 0 []) start =
    [ExecSplitEv ''sh'' [''-c'', lvm_command ''lvcreate'' False (tag_options [] @ [''--size=0b'', ''--name='' @ ''a'', vg_name \<lparr>vg_name = ''vg''\<rparr>])]
      out serr err]"
  by (rule create_lv_zero_size) (simp_all add: name_char_def is_alnum_def tags_ok_def)

text \<open>
  A size query of a volume group (\<open>BytesTotal\<close>, \<open>BytesFree\<close>, \<open>ExtentSize\<close>, \<open>ExtentCount\<close>, \<open>ExtentFreeCount\<close>,
  \<open>LookupVolumeGroup\<close>) runs one \<open>vgs\<close>. If that fails, the answer is "volume group not found" when some line of its
  standard error, apart from white space, starts with "Volume group" and contains "not found", whatever
  warnings surround it, and otherwise the error text; if it succeeds, the answer is the first row of
  the report, or "not found" for a report without rows.
\<close>

theorem vg_query_answer:
  assumes "exec_split h ''sh'' [''-c'', lvm_command ''vgs'' True [opt, name]] (world s) = ((out, serr, err), w)"
  shows "result (vg_query h opt name sel) s =
    (case err of
       Some _ \<Rightarrow>
         if \<exists>line \<in> set (Split serr [CHR 0x0A]). HasPrefix (TrimSpace line) ''Volume group'' \<and> Contains (TrimSpace line) ''not found''
         then Inl ErrVolumeGroupNotFound else Inl (ErrorString (ignoreWarnings serr))
     | None \<Rightarrow>
         (case Unmarshal_vgs (quote h) out of
            (Some e, _) \<Rightarrow> Inl (if IsVolumeGroupNotFound (unmarshal_error h e) then ErrVolumeGroupNotFound else unmarshal_error h e)
          | (None, rows) \<Rightarrow> (case first_row rows of None \<Rightarrow> Inl ErrVolumeGroupNotFound | Some row \<Rightarrow> Inr (sel row))))"
  using assms vg_missing.classify_stderr [of serr]
  by (auto simp: result_def vg_query_def run_json_def host_call_defs split: option.split prod.split)

definition no_vg_host :: "unit host" where
  "no_vg_host = quiet_host\<lparr>exec_split := (\<lambda>p args w. (([], ''WARNING: x'' @ [CHR 0x0A] @ '' Volume group vg not found'',
     Some (ErrorString ''exit status 5'')), w))\<rparr>"

theorem vg_query_answer_witness:
  "result (vg_query no_vg_host ''--options=vg_size'' ''vg'' vgr_Size) start = Inl ErrVolumeGroupNotFound"
proof -
  have x: "exec_split no_vg_host ''sh'' [''-c'', lvm_command ''vgs'' True [''--options=vg_size'', ''vg'']] (world start) =
     (([], ''WARNING: x'' @ [CHR 0x0A] @ '' Volume group vg not found'', Some (ErrorString ''exit status 5'')), ())"
    by (simp add: no_vg_host_def start_def)
  have "Split (''WARNING: x'' @ [CHR 0x0A] @ '' Volume group vg not found'') [CHR 0x0A] =
      [''WARNING: x'', '' Volume group vg not found'']"
    by (simp add: Split.simps)
  moreover have "TrimSpace '' Volume group vg not found'' = ''Volume group vg not found''"
    by (simp add: trim_eval TrimLeftSpace.simps)
  ultimately show ?thesis using vg_query_answer [OF x, of vgr_Size] by (simp add: HasPrefix_def)
qed

text \<open>The five size queries with the column of the report that each asks for.\<close>

definition size_queries :: "(('w host \<Rightarrow> VolumeGroup \<Rightarrow> ('w, 'z, goerror + uint64) prog) \<times> string) list" where
  "size_queries = [(BytesTotal, ''vg_size''), (BytesFree, ''vg_free''), (ExtentSize, ''vg_extent_size''),
     (ExtentCount, ''vg_extent_count''), (ExtentFreeCount, ''vg_free_count'')]"

definition size_json :: "string \<Rightarrow> uint64 \<Rightarrow> json" where
  "size_json col n = JObj [(col, JStr (show_nat (unat n)))]"

lemma first_row_map: "first_row (map (map f) rows) = map_option f (first_row rows)"
  by (induction rows rule: first_row.induct) simp_all

text \<open>
  A column of the report: \<open>put\<close> is the row that the decoder makes of a number in the column, \<open>sel\<close> reads the number from it.
\<close>

locale size_column =
  fixes col :: string and sel :: "vg_row \<Rightarrow> uint64" and put :: "uint64 \<Rightarrow> vg_row"
  assumes row: "dec_struct [] vg_type (vg_fields q) ctx (size_json col n) zero_vg None = (put n, None, None)"
    and sel_put: "sel (put n) = n"

sublocale size_column \<subseteq> rows: report_format vg_type "vg_fields q" zero_vg "size_json col" put for q
  by unfold_locales (simp_all add: row, simp add: size_json_def)

context size_column
begin

lemma query:
  assumes "exec_split h ''sh'' [''-c'', lvm_command ''vgs'' True [''--options='' @ col, name]] (world s) = ((a @ t @ b, serr, None), w)"
    and "json_text (report_json ''vg'' (map (map (size_json col)) sizes)) t" "blank a" "blank b"
  shows "result (vg_query h (''--options='' @ col) name sel) s =
    (case concat sizes of [] \<Rightarrow> Inl ErrVolumeGroupNotFound | n # _ \<Rightarrow> Inr n)"
proof -
  have "Unmarshal_vgs (quote h) (a @ t @ b) = (None, map (map put) sizes)"
    unfolding Unmarshal_vgs_def by (rule rows.read [OF assms(2-4)])
  then have "result (vg_query h (''--options='' @ col) name sel) s =
      (case first_row sizes of None \<Rightarrow> Inl ErrVolumeGroupNotFound | Some n \<Rightarrow> Inr n)"
    using assms(1)
    by (simp add: result_def vg_query_def run_json_def host_call_defs first_row_map sel_put split: option.split)
  then show ?thesis by (cases "concat sizes") (simp_all only: first_row_concat list.simps option.simps)
qed

end

lemmas size_row_defs = dec_struct_def size_json_def vg_fields_def find_field_def field_dec_def dec_quoted_def store_show

interpretation vg_size: size_column "''vg_size''" vgr_Size "\<lambda>n. zero_vg\<lparr>vgr_Size := n\<rparr>"
  by unfold_locales (simp_all add: size_row_defs)
interpretation vg_free: size_column "''vg_free''" vgr_Free "\<lambda>n. zero_vg\<lparr>vgr_Free := n\<rparr>"
  by unfold_locales (simp_all add: size_row_defs)
interpretation vg_extent_size: size_column "''vg_extent_size''" vgr_ExtentSize "\<lambda>n. zero_vg\<lparr>vgr_ExtentSize := n\<rparr>"
  by unfold_locales (simp_all add: size_row_defs)
interpretation vg_extent_count: size_column "''vg_extent_count''" vgr_ExtentCount "\<lambda>n. zero_vg\<lparr>vgr_ExtentCount := n\<rparr>"
  by unfold_locales (simp_all add: size_row_defs)
interpretation vg_free_count: size_column "''vg_free_count''" vgr_FreeExtentCount "\<lambda>n. zero_vg\<lparr>vgr_FreeExtentCount := n\<rparr>"
  by unfold_locales (simp_all add: size_row_defs)

text \<open>
  C19: A size query of a volume group returns the number in the first row of the report of \<open>vgs\<close>, for every JSON text
  of that report: any white space, any escapes in its strings, any number of sections and rows, and every
  64-bit number. A report without rows is "not found".
\<close>

theorem size_queries_read:
  assumes "(query, col) \<in> set size_queries"
    and "exec_split h ''sh'' [''-c'', lvm_command ''vgs'' True [''--options='' @ col, vg_name vg]] (world s) = ((a @ t @ b, serr, None), w)"
    and "json_text (report_json ''vg'' (map (map (size_json col)) sizes)) t" and "blank a" and "blank b"
  shows "result (query h vg) s = (case concat sizes of [] \<Rightarrow> Inl ErrVolumeGroupNotFound | n # _ \<Rightarrow> Inr n)"
  using assms vg_size.query vg_free.query vg_extent_size.query vg_extent_count.query vg_free_count.query
  unfolding size_queries_def
  by (auto simp: BytesTotal_def BytesFree_def ExtentSize_def ExtentCount_def ExtentFreeCount_def)

definition size_host :: "'w host" where
  "size_host = quiet_host\<lparr>exec_split := (\<lambda>p args w.
     (([CHR 0x0A] @ compact (report_json ''vg'' [[size_json ''vg_size'' 4096]]) @ [CHR 0x0A], [], None), w))\<rparr>"

theorem size_queries_read_witness: "result (BytesTotal size_host \<lparr>vg_name = ''vg''\<rparr>) start = Inr 4096"
proof -
  have "json_text (report_json ''vg'' (map (map (size_json ''vg_size'')) [[4096]]))
      (compact (report_json ''vg'' [[size_json ''vg_size'' 4096]]))"
    by (simp only: list.map, rule compact_text) (simp add: report_json_def size_json_def valid_utf8_ascii code_of_def)
  with size_queries_read [of BytesTotal "''vg_size''" size_host "\<lparr>vg_name = ''vg''\<rparr>" start "[CHR 0x0A]" _ "[CHR 0x0A]" "[]" "()" "[[4096]]"]
  show ?thesis by (simp add: size_queries_def size_host_def json_space_def start_def)
qed

text \<open>The two reports that \<open>LookupLogicalVolume\<close> reads.\<close>

definition lookup_cmd :: "VolumeGroup \<Rightarrow> string" where
  "lookup_cmd vg = lvm_command ''lvs'' True [''--options=lv_name,lv_size,vg_name,origin'', vg_name vg]"

definition usage_cmd :: "VolumeGroup \<Rightarrow> string \<Rightarrow> string" where
  "usage_cmd vg name = lvm_command ''lvs'' True
     [''--options=lv_name,lv_size,vg_name,origin,snap_percent'', vg_name vg @ ''/'' @ name]"

definition read_ok :: "string \<Rightarrow> event list \<Rightarrow> string \<Rightarrow> bool" where
  "read_ok cmd es out \<longleftrightarrow> (\<exists>serr. ExecSplitEv ''sh'' [''-c'', cmd] out serr None \<in> set es)"

lemma find_is_lv: "find (is_lv vg name) rows = Some lv \<Longrightarrow> lvr_VgName lv = vg_name vg \<and> lvr_Name lv = name \<and> lv \<in> set rows"
  by (auto simp: find_Some_iff is_lv_def)

lemma snap_usage_trace:
  "produces (snap_usage fl h lv) (\<lambda>u es.
     (lvr_Origin lv = [] \<longrightarrow> u = Done 0) \<and>
     (panics u \<longrightarrow> lvr_Origin lv \<noteq> [] \<and> (\<exists>out serr err. es =
        [ExecSplitEv ''sh'' [''-c'', usage_cmd \<lparr>vg_name = lvr_VgName lv\<rparr> (lvr_Name lv)] out serr err] \<and>
        (err = None \<longrightarrow> panics (first_usage (snd (Unmarshal_lvs fl (quote h) out)))))))"
  unfolding snap_usage_def
  by (intro produce_rules) (auto simp: usage_cmd_def)

definition found_row :: "floats \<Rightarrow> (string \<Rightarrow> string) \<Rightarrow> VolumeGroup \<Rightarrow> string \<Rightarrow> event list \<Rightarrow> lv_row \<Rightarrow> bool" where
  "found_row fl q vg name es row \<longleftrightarrow> (\<exists>out rows. read_ok (lookup_cmd vg) es out \<and> Unmarshal_lvs fl q out = (None, rows) \<and>
     find (is_lv vg name) (concat rows) = Some row)"

definition lookup_post :: "floats \<Rightarrow> (string \<Rightarrow> string) \<Rightarrow> VolumeGroup \<Rightarrow> string \<Rightarrow> (goerror + LogicalVolume) outcome \<Rightarrow> event list \<Rightarrow> bool" where
  "lookup_post fl q vg name r es \<longleftrightarrow>
     (\<forall>lv. r = Done (Inr lv) \<longrightarrow> (\<exists>row. found_row fl q vg name es row \<and> lv_name lv = name \<and> lv_vg lv = vg \<and>
        lv_sizeInBytes lv = lvr_Size row \<and> lv_originLvName lv = lvr_Origin row)) \<and>
     (panics r \<longrightarrow> (\<exists>row out serr err. found_row fl q vg name es row \<and> lvr_Origin row \<noteq> [] \<and>
        last es = ExecSplitEv ''sh'' [''-c'', usage_cmd vg name] out serr err \<and>
        (err = None \<longrightarrow> panics (first_usage (snd (Unmarshal_lvs fl q out))))))"

lemma LookupLogicalVolume_trace: "produces (LookupLogicalVolume fl h vg name) (lookup_post fl (quote h) vg name)"
proof -
  have usage: "produces (do {
        usage \<leftarrow> snap_usage fl h lv;
        case usage of
          Panic m \<Rightarrow> State_Monad.return (Panic m)
        | Done u \<Rightarrow> State_Monad.return (Done (Inr \<lparr>lv_name = lvr_Name lv, lv_sizeInBytes = lvr_Size lv, lv_vg = vg,
            lv_originLvName = lvr_Origin lv, lv_usageInPercent = div_100 fl u\<rparr>)) })
      (\<lambda>r es. lookup_post fl (quote h) vg name r (ExecSplitEv ''sh'' [''-c'', lookup_cmd vg] out serr None # es))"
    if row: "Unmarshal_lvs fl (quote h) out = (None, rows)" "find (is_lv vg name) (concat rows) = Some lv" for lv out serr rows
  proof -
    have lv: "lvr_Name lv = name" "\<lparr>vg_name = lvr_VgName lv\<rparr> = vg"
      using find_is_lv [OF row(2)] by simp_all
    have found: "found_row fl (quote h) vg name (ExecSplitEv ''sh'' [''-c'', lookup_cmd vg] out serr None # es) lv" for es
      using row by (auto simp: found_row_def read_ok_def)
    show ?thesis
    proof (rule produces_bind [OF snap_usage_trace], unfold lv, goal_cases)
      case (1 u es)
      then show ?case
        using found [of "es"] by (cases u) (auto simp: lookup_post_def intro!: produces_returnI)
    qed
  qed
  show ?thesis
    unfolding LookupLogicalVolume_def
    by (intro produces_run_json_bind produces_prod produces_option usage [unfolded lookup_cmd_def])
       (auto simp: lookup_post_def intro: produces_returnI)
qed

text \<open>
  A logical volume that \<open>LookupLogicalVolume\<close> returns has the requested name and group, and its size and origin are
  those of the first row of the \<open>lvs\<close> report with that name and group. The function panics only for a
  snapshot whose second report, read for its usage, failed or had no first row: the error of that
  command is ignored and its first element is taken without a check.
\<close>

theorem lookup_lv_faithful:
  "lookup_post fl (quote h) vg name (result (LookupLogicalVolume fl h vg name) s) (new_events (LookupLogicalVolume fl h vg name) s)"
  by (rule produces_new [OF LookupLogicalVolume_trace])

text \<open>
  \<open>LookupLogicalVolume\<close> does panic on a snapshot when the second \<open>lvs\<close> fails.
\<close>

theorem lookup_lv_panics:
  assumes "exec_split h ''sh'' [''-c'', lookup_cmd vg] (world s) = ((out, serr, None), w)"
    and "Unmarshal_lvs fl (quote h) out = (None, rows)" and "find (is_lv vg name) (concat rows) = Some row" and "lvr_Origin row \<noteq> []"
    and "exec_split h ''sh'' [''-c'', usage_cmd vg name] w = ((out', serr', Some err), w')"
  shows "result (LookupLogicalVolume fl h vg name) s = Panic ''index out of range''"
  using assms find_is_lv [OF assms(3)]
  by (simp add: result_def LookupLogicalVolume_def snap_usage_def run_json_def host_call_defs lookup_cmd_def usage_cmd_def
      first_usage_def)

definition snapshot_row :: lv_row where
  "snapshot_row = \<lparr>lvr_Name = ''snap'', lvr_VgName = ''vg'', lvr_Path = [], lvr_Size = 1, lvr_Tags = [],
     lvr_Origin = ''lv'', lvr_SnapUsage = 0\<rparr>"

definition snapshot_host :: "bool host" where
  "snapshot_host = quiet_host\<lparr>exec_split := (\<lambda>p args w.
     ((compact (report_json ''lv'' [[lv_json snapshot_row]]), [], if w then Some (ErrorString []) else None), True))\<rparr>"

theorem lookup_lv_panics_witness:
  "result (LookupLogicalVolume \<lparr>parse_float = (\<lambda>_. Inr 0), div_100 = id\<rparr> snapshot_host \<lparr>vg_name = ''vg''\<rparr> ''snap'')
     \<lparr>world = False, events = []\<rparr> = Panic ''index out of range''"
proof -
  have tx: "json_text (report_json ''lv'' (map (map lv_json) [[snapshot_row]])) (compact (report_json ''lv'' [[lv_json snapshot_row]]))"
    by (simp only: list.map, rule compact_text)
       (simp add: report_json_def lv_json_def snapshot_row_def valid_utf8_ascii code_of_def)
  have "Unmarshal_lvs \<lparr>parse_float = (\<lambda>_. Inr 0), div_100 = id\<rparr> (quote snapshot_host)
      (compact (report_json ''lv'' [[lv_json snapshot_row]])) = (None, [[snapshot_row]])"
    using lvs_report_read [OF tx, of "[]" "[]"] by (simp add: snapshot_row_def)
  then show ?thesis
    by (rule lookup_lv_panics [rotated, where serr = "[]" and row = snapshot_row
          and out' = "compact (report_json ''lv'' [[lv_json snapshot_row]])" and serr' = "[]" and err = "ErrorString []" and w' = True])
       (simp_all add: snapshot_host_def snapshot_row_def is_lv_def)
qed

definition vgcreate_args :: "string \<Rightarrow> PhysicalVolume list \<Rightarrow> string list \<Rightarrow> bool \<Rightarrow> string list" where
  "vgcreate_args name pvs tags force =
     tag_options tags @ [name] @ map dev pvs @ (if force then [''--force''] else [])"

text \<open>
  \<open>CreateVolumeGroup\<close> with a valid name and valid tags succeeds exactly when its \<open>vgcreate\<close> does: the two cache
  scans that follow run only then, and their failure is ignored. With an invalid name or tag nothing runs.
\<close>

theorem create_vg_outcome:
  assumes "exec_split h ''sh'' [''-c'', lvm_command ''vgcreate'' False (vgcreate_args name pvs tags force)] (world s) = ((out, serr, err), w)"
  shows "if name_MatchString name \<and> tags_ok tags
    then result (CreateVolumeGroup h name pvs tags force) s =
        (case err of None \<Rightarrow> Inr \<lparr>vg_name = name\<rparr> | Some _ \<Rightarrow> Inl (ErrorString (ignoreWarnings serr))) \<and>
      length (new_events (CreateVolumeGroup h name pvs tags force) s) = (if err = None then 3 else 1)
    else new_events (CreateVolumeGroup h name pvs tags force) s = [] \<and>
      (\<forall>vg. result (CreateVolumeGroup h name pvs tags force) s \<noteq> Inr vg)"
proof (cases "name_MatchString name \<and> tags_ok tags")
  case True
  then have "tag_args tags = Inr (tag_options tags)" using tag_args_cases by blast
  then show ?thesis
    using True assms
    by (cases err)
       (simp_all add: result_def new_events_def CreateVolumeGroup_def ValidateVolumeGroupName_def vgcreate_args_def run_def
          PVScan_def VGScan_def host_call_defs split: prod.split)
next
  case False
  then show ?thesis
    using tag_args_cases [of tags]
    by (auto simp: result_def new_events_def CreateVolumeGroup_def ValidateVolumeGroupName_def split: sum.split)
qed

theorem create_vg_outcome_witness:
  "result (CreateVolumeGroup quiet_host ''vg'' [\<lparr>dev = ''/dev/vdb''\<rparr>] [] False) start = Inr \<lparr>vg_name = ''vg''\<rparr>"
proof -
  have x: "exec_split quiet_host ''sh'' [''-c'', lvm_command ''vgcreate'' False (vgcreate_args ''vg'' [\<lparr>dev = ''/dev/vdb''\<rparr>] [] False)]
      (world start) = (([], [], None), ())"
    by (simp add: sample_defs)
  show ?thesis
    using create_vg_outcome [OF x] by (simp add: name_char_def is_alnum_def tags_ok_def)
qed

end
