(* ===== verification/Lvm_Lifecycle.thy ===== *)
theory Lvm_Lifecycle
  imports Node_Spec Lvm_Node_Theorems Lvm_VG
begin

text \<open>
  The node service implements the specification of theory \<open>Node_Spec\<close>. A host follows the laws of the
  tools if its answers and effects are those of such a node, where every command may fail; the handlers then make only moves of the
  abstract node, on the volume and the target path of the request alone.
\<close>

section \<open>The laws of the tools\<close>

text \<open>
  \<open>v\<close> is the view of a world as a node. \<open>N\<close> is a set of volumes, each with its group, whose names the shell and the tools take as they are (such as
  the names that \<open>name_MatchString\<close> admits, the check of \<open>vg.go\<close>), and \<open>T\<close> is a set of target paths of which the mount table shows
  whether they are mounted when it is searched for their text. The laws speak of commands for these volumes and targets only.
\<close>

type_synonym volume_name = "string \<times> string"

definition devs :: "volume_name set \<Rightarrow> string set" where
  "devs N = (\<lambda>(vg, vol). path_Join [''/dev'', vg, vol]) ` N"

lemma devs_in [intro, simp]: "(vg, vol) \<in> N \<Longrightarrow> path_Join [''/dev'', vg, vol] \<in> devs N"
  unfolding devs_def by force

definition cur_pv_cmd :: "string \<Rightarrow> string" where
  "cur_pv_cmd vgName = NsenterCmd @ '' vgdisplay '' @ vgName @ '' | grep '' @ [CHR 0x27] @ ''Cur PV'' @ [CHR 0x27] @
     '' | grep -v grep | awk '' @ [CHR 0x27] @ ''{print $3}'' @ [CHR 0x27]"

definition vg_queries :: "string \<Rightarrow> string list" where
  "vg_queries vg = [NsenterCmd @ '' vgck '' @ vg, vg_count_cmd vg, cur_pv_cmd vg]"

definition create_cmd :: "int option \<Rightarrow> string \<Rightarrow> int \<Rightarrow> string \<Rightarrow> string \<Rightarrow> string" where
  "create_cmd stripes vol sz u vg = NsenterCmd @ '' lvcreate'' @ (case stripes of None \<Rightarrow> [] | Some k \<Rightarrow> '' -i '' @ show_int k) @
     '' -n '' @ vol @ '' -L '' @ show_int sz @ u @ '' '' @ vg"

text \<open>Mount options that do not ask for another kind of mount.\<close>

definition plain_opt :: "string \<Rightarrow> bool" where
  "plain_opt opt \<longleftrightarrow> CHR '','' \<notin> set opt \<and> opt \<notin> {''bind'', ''rbind'', ''move'', ''remount''}"

definition query_laws :: "'w host \<Rightarrow> ('w \<Rightarrow> node) \<Rightarrow> volume_name set \<Rightarrow> bool" where
  "query_laws h v N \<longleftrightarrow>
     (\<forall>p. quiet v (os_stat h p)) \<and> (\<forall>p m. quiet v (os_mkdirall h p m)) \<and> (\<forall>n. quiet v (get_pv h n)) \<and>
     (\<forall>d m. quiet v (resize_fs h d m)) \<and> (\<forall>p mi. quiet v (volume_add h p mi)) \<and> (\<forall>p. quiet v (volume_remove h p)) \<and>
     (\<forall>t. quiet v (exec_combined h ''grep'' [t, ''/proc/mounts''])) \<and>
     (\<forall>d. quiet v (exec_combined h ''file'' [''-bsL'', d])) \<and>
     (\<forall>d. quiet v (exec_combined h ''blkid'' [''-c'', ''/dev/null'', ''-o'', ''export'', d])) \<and>
     (\<forall>vg cmd. vg \<in> fst ` N \<longrightarrow> cmd \<in> set (vg_queries vg) \<longrightarrow> quiet v (exec_combined h ''sh'' [''-c'', cmd])) \<and>
     (\<forall>vg vol. (vg, vol) \<in> N \<longrightarrow>
        quiet v (exec_combined h ''sh'' [''-c'', lv_size_cmd (path_Join [''/dev'', vg, vol])]))"

text \<open>What answers mean: \<open>stat\<close>, \<open>file\<close>, \<open>blkid\<close> and \<open>grep\<close>.\<close>

definition answer_laws :: "'w host \<Rightarrow> ('w \<Rightarrow> node) \<Rightarrow> string set \<Rightarrow> bool" where
  "answer_laws h v T \<longleftrightarrow>
     (\<forall>p w e w'. os_stat h p w = (Inl e, w') \<longrightarrow> IsNotExist e \<longrightarrow> mounted_on (v w) p = None) \<and>
     (\<forall>d w out w'. exec_combined h ''file'' [''-bsL'', d] w = ((out, None), w') \<longrightarrow> TrimSpace out = ''data'' \<longrightarrow>
        fs_on (v w) d = None) \<and>
     (\<forall>d w out w'. exec_combined h ''blkid'' [''-c'', ''/dev/null'', ''-o'', ''export'', d] w = ((out, None), w') \<longrightarrow>
        blkid_type (Split out [CHR 0x0A]) = Inr [] \<longrightarrow> fs_on (v w) d = None) \<and>
     (\<forall>t \<in> T. \<forall>w out err w'. exec_combined h ''grep'' [t, ''/proc/mounts''] w = ((out, err), w') \<longrightarrow>
        (err = None \<longrightarrow> (Contains (TrimSpace out) t \<longleftrightarrow> mounted_on (v w) t \<noteq> None)) \<and>
        (err \<noteq> None \<longrightarrow> TrimSpace out = [] \<longrightarrow> mounted_on (v w) t = None))"

text \<open>What commands do.\<close>

definition effect_laws :: "'w host \<Rightarrow> ('w \<Rightarrow> node) \<Rightarrow> volume_name set \<Rightarrow> string set \<Rightarrow> bool" where
  "effect_laws h v N T \<longleftrightarrow>
     (\<forall>f d. d \<in> devs N \<longrightarrow> effect (\<lambda>n n'. lv_size n d \<noteq> None \<and> formatted d f n n') v (exec_combined h ''mkfs'' [''-t'', f, d])) \<and>
     (\<forall>f opts d t. list_all plain_opt opts \<longrightarrow> d \<in> devs N \<longrightarrow> t \<in> T \<longrightarrow>
        effect (\<lambda>n n'. fs_on n d \<noteq> None \<and> n' = n\<lparr>mounted_on := (mounted_on n)(t \<mapsto> d)\<rparr>) v
          (exec_combined h ''mount'' [''-t'', f, ''-o'', Join opts '','', d, t])) \<and>
     (\<forall>t \<in> T. effect (\<lambda>n n'. n' = n\<lparr>mounted_on := (mounted_on n)(t := None)\<rparr>) v (exec_combined h ''umount'' [t])) \<and>
     (\<forall>vg vol k sz u. (vg, vol) \<in> N \<longrightarrow> u \<in> {[], ''m'', ''g''} \<longrightarrow>
        effect (\<lambda>n n'. let d = path_Join [''/dev'', vg, vol] in
            lv_size n d = None \<and> (\<exists>b. n' = n\<lparr>lv_size := (lv_size n)(d \<mapsto> b)\<rparr>)) v
          (exec_combined h ''sh'' [''-c'', create_cmd k vol sz u vg])) \<and>
     (\<forall>vg vol sz u. (vg, vol) \<in> N \<longrightarrow> u \<in> {[], ''m'', ''g''} \<longrightarrow>
        effect (\<lambda>n n'. let d = path_Join [''/dev'', vg, vol] in
            \<exists>a b. lv_size n d = Some a \<and> a \<le> b \<and> n' = n\<lparr>lv_size := (lv_size n)(d \<mapsto> b)\<rparr>) v
          (exec_combined h ''sh'' [''-c'', lvextend_cmd sz u (path_Join [''/dev'', vg, vol])]))"

text \<open>The volume group that the annotation or an attribute of one of the volumes names is its group.\<close>

definition api_laws :: "'w host \<Rightarrow> volume_name set \<Rightarrow> bool" where
  "api_laws h N \<longleftrightarrow> (\<forall>vol w pv w' vg. vol \<in> snd ` N \<longrightarrow> get_pv h vol w = (Inr pv, w') \<longrightarrow>
     GetVGNameFromCsiPV h (Some pv) = Done vg \<longrightarrow> vg = [] \<or> (vg, vol) \<in> N)"

definition node_laws :: "'w host \<Rightarrow> ('w \<Rightarrow> node) \<Rightarrow> volume_name set \<Rightarrow> string set \<Rightarrow> bool" where
  "node_laws h v N T \<longleftrightarrow> query_laws h v N \<and> answer_laws h v T \<and> effect_laws h v N T \<and> api_laws h N"

section \<open>Single calls\<close>

lemma quiet_calls:
  assumes "node_laws h v N T"
  shows "quiet v (os_stat h p)" "quiet v (os_mkdirall h p m)" "quiet v (get_pv h p)" "quiet v (resize_fs h p q)"
    "quiet v (volume_add h p q)" "quiet v (volume_remove h p)" "quiet v (exec_combined h ''grep'' [p, ''/proc/mounts''])"
    "quiet v (exec_combined h ''file'' [''-bsL'', p])"
    "quiet v (exec_combined h ''blkid'' [''-c'', ''/dev/null'', ''-o'', ''export'', p])"
  using assms by (simp_all add: node_laws_def query_laws_def)

lemma quiet_commands:
  assumes "node_laws h v N T" and "(vg, vol) \<in> N"
  shows "cmd \<in> set (vg_queries vg) \<Longrightarrow> quiet v (exec_combined h ''sh'' [''-c'', cmd])"
    and "quiet v (exec_combined h ''sh'' [''-c'', lv_size_cmd (path_Join [''/dev'', vg, vol])])"
proof -
  have "vg \<in> fst ` N" using assms(2) by force
  then show "cmd \<in> set (vg_queries vg) \<Longrightarrow> quiet v (exec_combined h ''sh'' [''-c'', cmd])"
    using assms(1) by (simp add: node_laws_def query_laws_def)
qed (use assms in \<open>simp add: node_laws_def query_laws_def\<close>)

lemma effects:
  assumes "node_laws h v N T"
  shows "d \<in> devs N \<Longrightarrow> effect (\<lambda>n n'. lv_size n d \<noteq> None \<and> formatted d f n n') v (exec_combined h ''mkfs'' [''-t'', f, d])"
    and "list_all plain_opt opts \<Longrightarrow> d \<in> devs N \<Longrightarrow> t \<in> T \<Longrightarrow>
      effect (\<lambda>n n'. fs_on n d \<noteq> None \<and> n' = n\<lparr>mounted_on := (mounted_on n)(t \<mapsto> d)\<rparr>) v
        (exec_combined h ''mount'' [''-t'', f, ''-o'', Join opts '','', d, t])"
    and "t \<in> T \<Longrightarrow> effect (\<lambda>n n'. n' = n\<lparr>mounted_on := (mounted_on n)(t := None)\<rparr>) v (exec_combined h ''umount'' [t])"
    and "(vg, vol) \<in> N \<Longrightarrow> u \<in> {[], ''m'', ''g''} \<Longrightarrow>
      effect (\<lambda>n n'. lv_size n (path_Join [''/dev'', vg, vol]) = None \<and>
          (\<exists>b. n' = n\<lparr>lv_size := (lv_size n)(path_Join [''/dev'', vg, vol] \<mapsto> b)\<rparr>)) v
        (exec_combined h ''sh'' [''-c'', create_cmd k vol sz u vg])"
    and "(vg, vol) \<in> N \<Longrightarrow> u \<in> {[], ''m'', ''g''} \<Longrightarrow>
      effect (\<lambda>n n'. \<exists>a b. lv_size n (path_Join [''/dev'', vg, vol]) = Some a \<and> a \<le> b \<and>
          n' = n\<lparr>lv_size := (lv_size n)(path_Join [''/dev'', vg, vol] \<mapsto> b)\<rparr>) v
        (exec_combined h ''sh'' [''-c'', lvextend_cmd sz u (path_Join [''/dev'', vg, vol])])"
  using assms unfolding node_laws_def effect_laws_def Let_def by - (elim conjE, blast)+

lemma answers:
  assumes "node_laws h v N T"
  shows stat_answer: "os_stat h p w = (Inl e, w') \<Longrightarrow> IsNotExist e \<Longrightarrow> mounted_on (v w) p = None"
    and file_answer: "exec_combined h ''file'' [''-bsL'', d] w = ((out, None), w') \<Longrightarrow> TrimSpace out = ''data'' \<Longrightarrow>
      fs_on (v w) d = None"
    and blkid_answer: "exec_combined h ''blkid'' [''-c'', ''/dev/null'', ''-o'', ''export'', d] w = ((out, None), w') \<Longrightarrow>
      blkid_type (Split out [CHR 0x0A]) = Inr [] \<Longrightarrow> fs_on (v w) d = None"
    and grep_answer: "t \<in> T \<Longrightarrow> exec_combined h ''grep'' [t, ''/proc/mounts''] w = ((out, err), w') \<Longrightarrow>
      (err = None \<longrightarrow> (Contains (TrimSpace out) t \<longleftrightarrow> mounted_on (v w) t \<noteq> None)) \<and>
      (err \<noteq> None \<longrightarrow> TrimSpace out = [] \<longrightarrow> mounted_on (v w) t = None)"
    and pv_answer: "vol \<in> snd ` N \<Longrightarrow> get_pv h vol w = (Inr pv, w') \<Longrightarrow> GetVGNameFromCsiPV h (Some pv) = Done vg \<Longrightarrow> vg \<noteq> [] \<Longrightarrow>
      (vg, vol) \<in> N"
  using assms unfolding node_laws_def answer_laws_def api_laws_def by - (elim conjE, metis)+

lemma view_Stat:
  assumes "node_laws h v N T" and "\<And>r. (\<And>e. r = Inl e \<Longrightarrow> IsNotExist e \<Longrightarrow> mounted_on n p = None) \<Longrightarrow> Q r n"
  shows "ensures v n (Stat h p) Q"
  unfolding Stat_def
proof (rule ensures_quiet [OF quiet_calls(1) [OF assms(1)]], rule assms(2))
  fix w a w' e assume "v w = n" "os_stat h p w = (a, w')" "a = Inl e" "IsNotExist e"
  then show "mounted_on n p = None" using stat_answer [OF assms(1)] by auto
qed

lemma view_GetPV:
  assumes "node_laws h v N T"
    and "\<And>r. (\<And>pv vg. r = Inr pv \<Longrightarrow> p \<in> snd ` N \<Longrightarrow> GetVGNameFromCsiPV h (Some pv) = Done vg \<Longrightarrow> vg \<noteq> [] \<Longrightarrow> (vg, p) \<in> N) \<Longrightarrow> Q r n"
  shows "ensures v n (GetPV h p) Q"
  unfolding GetPV_def
proof (rule ensures_quiet [OF quiet_calls(3) [OF assms(1)]], rule assms(2))
  fix w a w' pv vg
  assume "get_pv h p w = (a, w')" "a = Inr pv" "p \<in> snd ` N" "GetVGNameFromCsiPV h (Some pv) = Done vg" "vg \<noteq> []"
  then show "(vg, p) \<in> N" using pv_answer [OF assms(1)] by auto
qed

lemma view_plain_calls:
  assumes "node_laws h v N T" and "\<And>r. Q r n"
  shows "ensures v n (MkdirAll h p m) Q" "ensures v n (VolumeAdd h p mi) Q" "ensures v n (VolumeRemove h p) Q"
  using assms by (auto simp: host_call_defs quiet_calls intro: ensures_quiet)

lemma view_ResizeFs: "node_laws h v N T \<Longrightarrow> (\<And>r. Q r n) \<Longrightarrow> ensures v n (ResizeFs h p q) Q"
  by (auto simp: ResizeFs_def quiet_calls intro: ensures_quiet)

lemma view_Run_quiet:
  "quiet v (exec_combined h ''sh'' [''-c'', cmd]) \<Longrightarrow> (\<And>r. Q r n) \<Longrightarrow> ensures v n (Run h cmd) Q"
  unfolding Run_def CombinedOutput_def by (rule ensures_quiet_bind) (auto intro!: view_rules)

lemma view_Run_effect:
  assumes "effect R v (exec_combined h ''sh'' [''-c'', cmd])"
    and "\<And>r n'. n' = n \<and> (\<exists>e. r = Inl e) \<or> R n n' \<Longrightarrow> Q r n'"
  shows "ensures v n (Run h cmd) Q"
  unfolding Run_def by (rule ensures_bind, rule ensures_effect [OF assms(1)]) (auto intro!: view_rules assms(2))

text \<open>The mounter.\<close>

lemma view_IsMounted:
  assumes "node_laws h v N T" and "t \<in> T"
  shows "ensures v n (IsMounted h t) (\<lambda>r n'. n' = n \<and> (r = Inr True \<longrightarrow> mounted_on n t \<noteq> None) \<and> (r = Inr False \<longrightarrow> mounted_on n t = None))"
proof (cases "t = []")
  case False
  show ?thesis
    unfolding IsMounted_def CombinedOutput_def if_not_P [OF False] Let_def
    by (rule ensures_quiet_bind [OF quiet_calls(7) [OF assms(1)]]) (auto intro!: view_rules dest!: grep_answer [OF assms])
qed (simp add: IsMounted_def ensures_return)

lemma view_Mount:
  assumes "node_laws h v N T" and "list_all plain_opt opts" and "opts \<noteq> []" and "d \<in> devs N" and "t \<in> T"
  shows "ensures v n (Mount h d t f opts) (\<lambda>r n'. n' = n \<and> r \<noteq> None \<or>
     fs_on n d \<noteq> None \<and> n' = n\<lparr>mounted_on := (mounted_on n)(t \<mapsto> d)\<rparr>)"
  unfolding Mount_def Let_def using assms(3)
  by (auto intro!: view_rules ensures_bind view_plain_calls [OF assms(1)] ensures_effect [OF effects(2) [OF assms(1,2,4,5)]])

lemma view_Unmount:
  assumes "node_laws h v N T" and "t \<in> T"
  shows "ensures v n (Unmount h t) (\<lambda>r n'. n' = n \<and> r \<noteq> None \<or> n' = n\<lparr>mounted_on := (mounted_on n)(t := None)\<rparr>)"
  unfolding Unmount_def by (auto intro!: view_rules ensures_bind ensures_effect [OF effects(3) [OF assms]])

text \<open>The helpers of the node service.\<close>

lemma view_checkFSType:
  assumes "node_laws h v N T"
  shows "ensures v n (checkFSType h d) (\<lambda>r n'. n' = n \<and> (r = Inr [] \<longrightarrow> fs_on n d = None))"
  unfolding checkFSType_def CombinedOutput_def
  by (rule ensures_quiet_bind [OF quiet_calls(8) [OF assms]])
     (auto intro!: view_rules ensures_quiet_bind [OF quiet_calls(9) [OF assms]]
        dest: file_answer [OF assms] blkid_answer [OF assms])

lemma view_formatDevice:
  assumes "node_laws h v N T" and "d \<in> devs N"
  shows "ensures v n (formatDevice h d f) (\<lambda>r n'. n' = n \<and> r \<noteq> None \<or> lv_size n d \<noteq> None \<and> formatted d f n n')"
  unfolding formatDevice_def by (auto intro!: view_rules ensures_bind ensures_effect [OF effects(1) [OF assms]])

lemma dev_path: "path_Join [''/dev/'', vg, vol] = path_Join [''/dev'', vg, vol]"
  by (simp add: path_Join.simps Clean_def clean_step_def Split.simps)

lemma view_getPvInfo:
  assumes "node_laws h v N T"
  shows "ensures v n (getPvInfo h vol) (\<lambda>(sz, b, u, pv) n'. n' = n \<and> u \<in> {[], ''m'', ''g''} \<and>
     (\<forall>vg. vol \<in> snd ` N \<longrightarrow> GetVGNameFromCsiPV h pv = Done vg \<longrightarrow> vg \<noteq> [] \<longrightarrow> (vg, vol) \<in> N))"
  unfolding getPvInfo_def
  by (rule ensures_bind, rule view_GetPV [OF assms])
     (auto intro!: view_rules simp: pv_info_def Let_def split: sum.split)

lemma view_createVG:
  assumes "node_laws h v N T" and "(vg, vol) \<in> N"
  shows "ensures v n (createVG h vg) (\<lambda>r n'. n' = n)"
  unfolding createVG_def getLocalDeviceNum_def
  by (auto intro!: view_rules ensures_bind view_Run_quiet quiet_commands(1) [OF assms] simp: vg_queries_def cur_pv_cmd_def)

text \<open>Creating a volume adds the volume of the request or changes nothing; resizing one extends it or changes nothing.\<close>

definition created :: "string \<Rightarrow> node \<Rightarrow> node \<Rightarrow> bool" where
  "created d n n' \<longleftrightarrow> n' = n \<or> lv_size n d = None \<and> (\<exists>b. n' = n\<lparr>lv_size := (lv_size n)(d \<mapsto> b)\<rparr>)"

definition extended :: "string \<Rightarrow> node \<Rightarrow> node \<Rightarrow> bool" where
  "extended d n n' \<longleftrightarrow> n' = n \<or> (\<exists>a b. lv_size n d = Some a \<and> a \<le> b \<and> n' = n\<lparr>lv_size := (lv_size n)(d \<mapsto> b)\<rparr>)"

lemma created_within: "created d n n' \<Longrightarrow> within t d n n'"
  by (auto simp: created_def within_create)

lemma extended_within: "extended d n n' \<Longrightarrow> within t d n n'"
  by (auto simp: extended_def within_extend)

lemma size_fields [simp]:
  "created d n n' \<Longrightarrow> fs_on n' = fs_on n" "created d n n' \<Longrightarrow> mounted_on n' = mounted_on n"
  "extended d n n' \<Longrightarrow> fs_on n' = fs_on n" "extended d n n' \<Longrightarrow> mounted_on n' = mounted_on n"
  by (auto simp: created_def extended_def)

lemma view_create_cmd:
  assumes "node_laws h v N T" and "(vg, vol) \<in> N" and "u \<in> {[], ''m'', ''g''}"
  shows "ensures v n (Run h (create_cmd k vol sz u vg)) (\<lambda>r. created (path_Join [''/dev'', vg, vol]) n)"
  by (rule view_Run_effect [OF effects(4) [OF assms]]) (auto simp: created_def)

lemma view_extend_cmd:
  assumes "node_laws h v N T" and "(vg, vol) \<in> N" and "u \<in> {[], ''m'', ''g''}"
  shows "ensures v n (Run h (lvextend_cmd sz u (path_Join [''/dev'', vg, vol]))) (\<lambda>r. extended (path_Join [''/dev'', vg, vol]) n)"
  by (rule view_Run_effect [OF effects(5) [OF assms]]) (auto simp: extended_def)

lemma create_cmd_forms:
  "NsenterCmd @ '' lvcreate -i '' @ show_int k @ '' -n '' @ vol @ '' -L '' @ show_int sz @ u @ '' '' @ vg = create_cmd (Some k) vol sz u vg"
  "NsenterCmd @ '' lvcreate -n '' @ vol @ '' -L '' @ show_int sz @ u @ '' '' @ vg = create_cmd None vol sz u vg"
  by (simp_all add: create_cmd_def)

lemma view_createVolume:
  assumes "node_laws h v N T" and "(vg, vol) \<in> N"
  shows "ensures v n (createVolume h vol vg pt lt) (\<lambda>r. created (path_Join [''/dev'', vg, vol]) n)"
proof -
  have vg: "ensures v m (if pt = ''localdisk'' then createVG h vg else State_Monad.return (Inr 0)) (\<lambda>r n'. n' = m)" for m
    by (auto intro!: view_rules view_createVG assms)
  have ck: "ensures v m (Run h (NsenterCmd @ '' vgck '' @ vg)) (\<lambda>r n'. n' = m)" for m
    by (rule view_Run_quiet [OF quiet_commands(1) [OF assms]]) (simp_all add: vg_queries_def)
  show ?thesis
    unfolding createVolume_def create_cmd_forms
    by (intro view_rules ensures_seq [OF view_getPvInfo [OF assms(1)]] ensures_seq [OF vg] ensures_seq [OF ck]
          ensures_seq [OF view_create_cmd [OF assms]]) (auto simp: created_def)
qed

lemma view_resizeVolume:
  assumes "node_laws h v N T" and "(vg, vol) \<in> N" and "ns_rn ns = NewExecRunner h"
  shows "ensures v n (resizeVolume h ns vol vg t) (\<lambda>r. extended (path_Join [''/dev'', vg, vol]) n)"
proof -
  have sz: "ensures v m (Run h (lv_size_cmd (path_Join [''/dev'', vg, vol]))) (\<lambda>r n'. n' = m)" for m
    by (rule view_Run_quiet [OF quiet_commands(2) [OF assms(1,2)]]) simp
  have fs: "ensures v m (rn_ResizeFS (ns_rn ns) d t) (\<lambda>r n'. n' = m)" for m d
    by (auto simp: assms(3) NewExecRunner_def intro: view_ResizeFs [OF assms(1)])
  show ?thesis
    unfolding resizeVolume_def Let_def
    by (intro view_rules ensures_seq [OF view_getPvInfo [OF assms(1)]] ensures_seq [OF sz]
          ensures_seq [OF view_extend_cmd [OF assms(1,2)]] ensures_seq [OF fs]) (auto simp: extended_def)
qed

section \<open>The handlers\<close>

definition lv_device :: "NodePublishVolumeRequest \<Rightarrow> string" where
  "lv_device req = path_Join [''/dev'', ctx_or (pub_VolumeContext req) ''vgName'' [], pub_VolumeId req]"

lemma device_of_lv: "device_of req = lv_device req"
  by (simp add: device_of_def lv_device_def dev_path)

text \<open>
  The requests the laws speak of: the volume is one of \<open>N\<close>, the target path is one of \<open>T\<close>, and the
  mount flags are plain. A request that the handler refuses at once may be any.
\<close>

definition publish_ok :: "volume_name set \<Rightarrow> string set \<Rightarrow> NodePublishVolumeRequest \<Rightarrow> bool" where
  "publish_ok N T req \<longleftrightarrow> (valid_publish req \<longrightarrow>
     (ctx_or (pub_VolumeContext req) ''vgName'' [], pub_VolumeId req) \<in> N \<and> pub_TargetPath req \<in> T \<and> list_all plain_opt (pub_MountFlags req))"

lemma publish_okD:
  assumes "publish_ok N T req" and "valid_publish req"
  shows "(ctx_or (pub_VolumeContext req) ''vgName'' [], pub_VolumeId req) \<in> N" "lv_device req \<in> devs N" "pub_TargetPath req \<in> T"
    "list_all plain_opt (pub_MountFlags req)"
  using assms by (auto simp: publish_ok_def lv_device_def)

lemma plain_mount_options:
  "list_all plain_opt (pub_MountFlags req) \<Longrightarrow> list_all plain_opt (mount_options req)" "mount_options req \<noteq> []"
  by (auto simp: mount_options_def plain_opt_def)

text \<open>What publishing does to a node: an existing mount stays, and after success the target is mounted.\<close>

definition published :: "NodePublishVolumeRequest \<Rightarrow> bool \<Rightarrow> node \<Rightarrow> node \<Rightarrow> bool" where
  "published req ok n n' \<longleftrightarrow> (let t = pub_TargetPath req; d = lv_device req in within t d n n' \<and>
     (mounted_on n t \<noteq> None \<longrightarrow> mounted_on n' t = mounted_on n t) \<and>
     (ok \<longrightarrow> mounted_on n t = None \<longrightarrow> mounted_on n' t = Some d \<and> fs_on n' d \<noteq> None))"

lemma published_after:
  "within (pub_TargetPath req) (lv_device req) n m \<Longrightarrow> mounted_on m = mounted_on n \<Longrightarrow> published req ok m n' \<Longrightarrow> published req ok n n'"
  unfolding published_def Let_def by (auto intro: within_trans)

lemma published_failed: "within (pub_TargetPath req) (lv_device req) n n' \<Longrightarrow> mounted_on n' = mounted_on n \<Longrightarrow> published req False n n'"
  by (simp add: published_def Let_def)

lemma view_format_step:
  assumes "node_laws h v N T" and "d \<in> devs N" and "ty = [] \<longrightarrow> fs_on n d = None"
  shows "ensures v n (if ty = [] then formatDevice h d f else State_Monad.return None)
     (\<lambda>r n'. within t d n n' \<and> mounted_on n' = mounted_on n)"
proof (cases "ty = []")
  case True
  then show ?thesis
    using assms(3) by (auto intro!: ensures_weaken [OF view_formatDevice [OF assms(1,2)]] intro: within_format simp: formatted_fields)
qed (auto intro: view_rules)

lemma view_mount_step:
  assumes "node_laws h v N T" and "publish_ok N T req" and "valid_publish req" and "isMnt \<longleftrightarrow> mounted_on n (pub_TargetPath req) \<noteq> None"
  shows "ensures v n (if \<not> isMnt then Mount h (lv_device req) (pub_TargetPath req) f (mount_options req) else State_Monad.return None)
     (\<lambda>r n'. published req (r = None) n n')"
proof (cases isMnt)
  case False
  have ok: "list_all plain_opt (mount_options req)" "mount_options req \<noteq> []" "lv_device req \<in> devs N" "pub_TargetPath req \<in> T"
    using publish_okD [OF assms(2,3)] by (auto simp: plain_mount_options)
  have "ensures v n (Mount h (lv_device req) (pub_TargetPath req) f (mount_options req)) (\<lambda>r n'. published req (r = None) n n')"
    by (rule ensures_weaken [OF view_Mount [OF assms(1) ok]])
       (use assms False in \<open>auto simp: published_def Let_def intro!: within_mount\<close>)
  with False show ?thesis by simp
qed (use assms in \<open>auto simp: published_def Let_def intro!: view_rules\<close>)

lemma NewMounter_parts:
  "m_IsMounted (NewMounter h) = IsMounted h" "m_Mount (NewMounter h) = Mount h" "m_Unmount (NewMounter h) = Unmount h"
  by (simp_all add: NewMounter_def)

lemma view_publish_mount:
  assumes "node_laws h v N T" and "publish_ok N T req" and "valid_publish req" and "isMnt \<longleftrightarrow> mounted_on n (pub_TargetPath req) \<noteq> None"
  shows "ensures v n (publish_mount h (NewNodeServer h i) req (ctx_or (pub_VolumeContext req) ''vgName'' []) f (lv_device req) new isMnt)
     (\<lambda>r n'. published req (r = Inr ()) n n')"
proof -
  note ok = publish_okD [OF assms(2,3)]
  have after: "published req b n n'" if "published req c n m" "extended (lv_device req) m n'" "b \<longrightarrow> c" for b c m n'
    using that within_trans [OF _ extended_within] by (auto simp: published_def Let_def)
  show ?thesis
    unfolding publish_mount_def Let_def NewNodeServer_parts NewMounter_parts
    by (intro view_rules ensures_seq [OF view_checkFSType [OF assms(1)]] ensures_seq [OF view_format_step [OF assms(1) ok(2)]]
          ensures_seq [OF view_mount_step [OF assms(1-3)]] ensures_seq [OF view_resizeVolume [OF assms(1) ok(1)]])
       (auto intro: after published_after published_failed simp: assms(4) lv_device_def [symmetric])
qed

lemma view_publish_volume:
  assumes "node_laws h v N T" and "publish_ok N T req" and "valid_publish req"
  shows "ensures v n (publish_volume h (NewNodeServer h i) req (ctx_or (pub_VolumeContext req) ''vgName'' []) f (lv_device req) new)
     (\<lambda>r n'. published req (r = Done (Inr ())) n n')"
proof -
  note mnt = view_IsMounted [OF assms(1) publish_okD(3) [OF assms(2,3)]]
  show ?thesis
    unfolding publish_volume_def Let_def NewNodeServer_parts NewMounter_parts
    by (intro view_rules ensures_seq [OF mnt] ensures_seq [OF view_publish_mount [OF assms]]
          ensures_bind [OF view_Stat [OF assms(1)]] ensures_bind [OF view_plain_calls(1) [OF assms(1)]])
       (auto intro: published_failed)
qed

lemma view_setDirect: "Q () n \<Longrightarrow> ensures v n (setDirect b) Q"
  by (simp add: ensures_def setDirect_def)

lemma view_getDirect: "(\<And>b. Q b n) \<Longrightarrow> ensures v n getDirect Q"
  by (simp add: ensures_def getDirect_def)

lemma view_publish_prepare:
  assumes "node_laws h v N T" and "publish_ok N T req" and "valid_publish req"
  shows "ensures v n (publish_prepare h req) (\<lambda>r. created (lv_device req) n)"
proof -
  have create: "ensures v n (if new then createVolume h (pub_VolumeId req) (ctx_or (pub_VolumeContext req) ''vgName'' []) pt lt
      else State_Monad.return None) (\<lambda>r. created (lv_device req) n)" for new pt lt
    using assms unfolding lv_device_def
    by (auto intro!: view_rules view_createVolume simp: publish_ok_def) (simp add: created_def)
  show ?thesis
    unfolding publish_prepare_def Let_def
    by (intro ensures_bind [OF view_Stat [OF assms(1)]] ensures_seq [OF create] view_rules)
qed

lemma view_publish_finish:
  assumes "node_laws h v N T" and "publish_ok N T req" and "valid_publish req"
  shows "ensures v n (publish_finish h (NewNodeServer h i) req new cr)
     (\<lambda>r n'. published req (r = Done (Inr ()) \<and> \<not> direct_of (pub_VolumeContext req)) n n')"
  unfolding publish_finish_def Let_def device_of_lv addDirectVolume_def
  by (auto intro!: view_rules ensures_bind view_plain_calls(2) [OF assms(1)] ensures_weaken [OF view_publish_volume [OF assms]]
        published_failed)

lemma view_NodePublishVolume:
  assumes "node_laws h v N T" and "publish_ok N T req"
  shows "ensures v n (NodePublishVolume h (NewNodeServer h i) req)
     (\<lambda>r n'. published req (r = Done (Inr ()) \<and> \<not> direct_of (pub_VolumeContext req)) n n')"
proof (cases "valid_publish req")
  case True
  show ?thesis
    unfolding NodePublishVolume_eq [OF True]
    by (intro ensures_bind [OF view_setDirect] ensures_seq [OF view_publish_prepare [OF assms True]] view_rules
          ensures_weaken [OF view_publish_finish [OF assms True]])
       (auto intro: published_after created_within)
next
  case False
  then show ?thesis
    by (auto simp: NodePublishVolume_def valid_publish_def Let_def intro!: view_rules published_failed)
qed

text \<open>Unpublishing concerns the target path only; after success nothing is mounted there.\<close>

lemma view_NodeUnpublishVolume:
  assumes "node_laws h v N T" and "unpub_TargetPath req \<in> T"
  shows "ensures v n (NodeUnpublishVolume h (NewNodeServer h i) req) (\<lambda>r n'.
     (n' = n \<or> n' = n\<lparr>mounted_on := (mounted_on n)(unpub_TargetPath req := None)\<rparr>) \<and>
     (r = Inr () \<longrightarrow> mounted_on n' (unpub_TargetPath req) = None))"
proof -
  have rm: "ensures v m (if b then do { VolumeRemove h t; State_Monad.return () } else State_Monad.return ()) (\<lambda>r n'. n' = m)" for m b t
    by (intro view_rules ensures_bind view_plain_calls(3) [OF assms(1)]) simp_all
  show ?thesis
    unfolding NodeUnpublishVolume_def Let_def NewNodeServer_parts NewMounter_parts
    by (intro view_rules ensures_bind [OF view_getDirect] ensures_seq [OF rm] ensures_seq [OF view_IsMounted [OF assms]]
          ensures_bind [OF view_Stat [OF assms(1)]] ensures_seq [OF view_Unmount [OF assms]])
       auto
qed

text \<open>Expanding extends one volume or changes nothing.\<close>

lemma view_NodeExpandVolume:
  assumes "node_laws h v N T" and "exp_VolumeId req = [] \<or> exp_VolumeId req \<in> snd ` N"
  shows "ensures v n (NodeExpandVolume h (NewNodeServer h i) req)
     (\<lambda>r n'. \<exists>vg. extended (path_Join [''/dev'', vg, exp_VolumeId req]) n n')"
proof -
  have same: "\<exists>vg. extended (path_Join [''/dev'', vg, exp_VolumeId req]) n n" for n
    by (simp add: extended_def)
  show ?thesis
    unfolding NodeExpandVolume_def Let_def using assms(2)
    by (intro view_rules ensures_bind [OF view_getDirect] ensures_seq [OF view_getPvInfo [OF assms(1)]]
          ensures_seq [OF view_resizeVolume [OF assms(1)]])
       (use same in auto)
qed

end
