(* ===== verification/Sim_Node.thy ===== *)
theory Sim_Node
  imports Lvm_Lifecycle
begin

text \<open>
  A node that can be run: the world is the abstract node itself, and the host reads the command lines of the driver
  as the tools do. It follows the laws of theory \<open>Lvm_Lifecycle\<close>, so that these can hold, and runs the examples.
\<close>

section \<open>The tools\<close>

definition tool_failed :: "node \<Rightarrow> (string \<times> goerror option) \<times> node" where
  "tool_failed n = ((''failed'', Some (SysError EOther ''exit status 1'')), n)"

definition size_arg :: "string \<Rightarrow> int" where
  "size_arg s =
     (let scaled = (\<lambda>t u. case Atoi t of Inl _ \<Rightarrow> 0 | Inr i \<Rightarrow> i * u)
      in if last s = CHR ''g'' then scaled (butlast s) Gi_bytes
         else if last s = CHR ''m'' then scaled (butlast s) Mi_bytes
         else scaled s Mi_bytes)"

text \<open>The shell: \<open>lvcreate\<close>, \<open>lvextend\<close>, \<open>lvdisplay\<close>, and queries of a volume group with one physical volume.\<close>

definition sim_sh :: "string \<Rightarrow> node \<Rightarrow> (string \<times> goerror option) \<times> node" where
  "sim_sh cmd n =
     (let ws = Split cmd '' ''; k = length ws
      in if ws ! 2 = ''lvcreate'' then
           (let d = path_Join [''/dev'', last ws, ws ! (k - 4)]
            in case lv_size n d of
                 None \<Rightarrow> (([], None), n\<lparr>lv_size := (lv_size n)(d \<mapsto> size_arg (ws ! (k - 2)))\<rparr>)
               | Some _ \<Rightarrow> tool_failed n)
         else if ws ! 2 = ''lvextend'' then
           (let d = last ws
            in case lv_size n d of
                 None \<Rightarrow> tool_failed n
               | Some a \<Rightarrow> (([], None), n\<lparr>lv_size := (lv_size n)(d \<mapsto> max a (size_arg (drop 2 (ws ! (k - 2)))))\<rparr>))
         else if ws ! 2 = ''lvdisplay'' then
           (case lv_size n (ws ! 5) of
              None \<Rightarrow> tool_failed n
            | Some a \<Rightarrow> if is_int64 a then ((show_int a @ ''.00'', None), n) else tool_failed n)
         else ((''1'', None), n))"

definition sim_exec :: "string \<Rightarrow> string list \<Rightarrow> node \<Rightarrow> (string \<times> goerror option) \<times> node" where
  "sim_exec p args n =
     (if p = ''sh'' then sim_sh (last args) n
      else if p = ''file'' then ((if fs_on n (last args) = None then ''data'' else ''filesystem'', None), n)
      else if p = ''blkid'' then
        (if fs_on n (last args) = None then tool_failed n else ((''TYPE=ext4'', None), n))
      else if p = ''grep'' then
        (if mounted_on n (hd args) = None then (([], Some (SysError EOther ''exit status 1'')), n) else ((hd args, None), n))
      else if p = ''mkfs'' then
        (if lv_size n (last args) = None then tool_failed n else (([], None), format_fs (last args) (args ! 1) n))
      else if p = ''mount'' then
        (let d = last (butlast args)
         in if fs_on n d = None then tool_failed n
            else (([], None), n\<lparr>mounted_on := (mounted_on n)(last args \<mapsto> d)\<rparr>))
      else if p = ''umount'' then (([], None), n\<lparr>mounted_on := (mounted_on n)(last args := None)\<rparr>)
      else tool_failed n)"

definition sim_host :: "PersistentVolume \<Rightarrow> node host" where
  "sim_host pv = quiet_host\<lparr>
     exec_combined := sim_exec,
     os_stat := (\<lambda>p n. (if lv_size n p = None \<and> mounted_on n p = None then Inl (SysError ENotExist ''file does not exist'')
       else Inr \<lparr>fi_IsDir = False, fi_Dev = 0\<rparr>, n)),
     get_pv := (\<lambda>p n. (Inr pv, n))\<rparr>"

lemma sim_host_parts [simp]:
  "exec_combined (sim_host pv) = sim_exec" "get_pv (sim_host pv) p n = (Inr pv, n)"
  "os_stat (sim_host pv) p n = (if lv_size n p = None \<and> mounted_on n p = None then Inl (SysError ENotExist ''file does not exist'')
       else Inr \<lparr>fi_IsDir = False, fi_Dev = 0\<rparr>, n)"
  "os_mkdirall (sim_host pv) p m n = (None, n)" "resize_fs (sim_host pv) p q n = (Inr True, n)"
  "volume_add (sim_host pv) p q n = (None, n)" "volume_remove (sim_host pv) p n = (None, n)"
  by (simp_all add: sim_host_def quiet_host_def)

section \<open>The laws\<close>

lemma name_no_space: "name_MatchString s \<Longrightarrow> CHR '' '' \<notin> set s"
  using name_chars_inert [of s "CHR '' ''"] by (auto simp: shell_special_def)

lemma digits_no_space: "CHR '' '' \<notin> set (show_int i)"
  using show_int_chars [of "CHR '' ''" i] by (auto simp: is_digit_def)

lemma create_words:
  assumes "name_MatchString vg" and "name_MatchString vol" and "u \<in> {[], ''m'', ''g''}"
  obtains ws where "Split (create_cmd k vol sz u vg) '' '' = [''/nsenter'', ''--mount=/proc/1/ns/mnt'', ''lvcreate''] @ ws @ [vol, ''-L'', show_int sz @ u, vg]"
proof
  have "create_cmd k vol sz u vg = Join ([''/nsenter'', ''--mount=/proc/1/ns/mnt'', ''lvcreate''] @
      ((case k of None \<Rightarrow> [] | Some j \<Rightarrow> [''-i'', show_int j]) @ [''-n'']) @ [vol, ''-L'', show_int sz @ u, vg]) '' ''"
    by (simp add: create_cmd_def NsenterCmd_def split: option.split)
  moreover have "\<forall>x \<in> set ([''/nsenter'', ''--mount=/proc/1/ns/mnt'', ''lvcreate''] @
      ((case k of None \<Rightarrow> [] | Some j \<Rightarrow> [''-i'', show_int j]) @ [''-n'']) @ [vol, ''-L'', show_int sz @ u, vg]). CHR '' '' \<notin> set x"
    using assms by (auto simp: name_no_space digits_no_space split: option.split)
  ultimately show "Split (create_cmd k vol sz u vg) '' '' = [''/nsenter'', ''--mount=/proc/1/ns/mnt'', ''lvcreate''] @
      ((case k of None \<Rightarrow> [] | Some j \<Rightarrow> [''-i'', show_int j]) @ [''-n'']) @ [vol, ''-L'', show_int sz @ u, vg]"
    by (metis Split_Join_char append_is_Nil_conv list.distinct(1))
qed

lemma nsenter_words:
  "CHR '' '' \<notin> set tool \<Longrightarrow>
     Split (NsenterCmd @ CHR '' '' # tool @ CHR '' '' # rest) '' '' = [''/nsenter'', ''--mount=/proc/1/ns/mnt'', tool] @ Split rest '' ''"
  using Split_char_append [of "CHR '' ''" "''/nsenter''"] Split_char_append [of "CHR '' ''" "''--mount=/proc/1/ns/mnt''"]
    Split_char_append [of "CHR '' ''" tool rest]
  by (simp add: NsenterCmd_def)

text \<open>Cleaning a path adds no characters but dots and slashes.\<close>

lemma foldl_clean_set: "set (foldl (clean_step r) st xs) \<subseteq> set st \<union> set xs \<union> {''..''}"
proof (induction xs arbitrary: st)
  case (Cons x xs)
  have "set (clean_step r st x) \<subseteq> set st \<union> {x, ''..''}"
    by (auto simp: clean_step_def split: list.splits)
  with Cons.IH [of "clean_step r st x"] show ?case by auto
qed auto

lemma set_Join: "set (Join xs sep) \<subseteq> \<Union> (set ` set xs) \<union> set sep" "x \<in> set xs \<Longrightarrow> set x \<subseteq> set (Join xs sep)"
  by (induction xs sep rule: Join.induct) auto

lemma set_Clean: "set (Clean p) \<subseteq> set p \<union> {CHR ''/'', CHR ''.''}"
proof -
  have "set x \<subseteq> set p" if "x \<in> set (Split p ''/'')" for x
    using set_Join(2) [OF that, of "''/''"] by (simp add: Join_Split)
  then have "set x \<subseteq> set p \<union> {CHR ''.''}" if "x \<in> set (foldl (clean_step r) [] (Split p ''/''))" for r x
    using that foldl_clean_set [of r "[]" "Split p ''/''"] by fastforce
  then have "set (Join (rev (foldl (clean_step r) [] (Split p ''/''))) ''/'') \<subseteq> set p \<union> {CHR ''/'', CHR ''.''}" for r
    using set_Join(1) [of "rev (foldl (clean_step r) [] (Split p ''/''))" "''/''"] by fastforce
  then show ?thesis by (auto simp: Clean_def Let_def)
qed

lemma dev_no_space:
  "name_MatchString vg \<Longrightarrow> name_MatchString vol \<Longrightarrow> CHR '' '' \<notin> set (path_Join [''/dev'', vg, vol])"
  using set_Clean [of "Join [''/dev'', vg, vol] ''/''"] by (auto simp: path_Join.simps dest: name_no_space)

lemma extend_words:
  assumes "name_MatchString vg" and "name_MatchString vol" and "u \<in> {[], ''m'', ''g''}"
  shows "Split (lvextend_cmd sz u (path_Join [''/dev'', vg, vol])) '' '' =
     [''/nsenter'', ''--mount=/proc/1/ns/mnt'', ''lvextend'', ''-L'' @ show_int sz @ u, path_Join [''/dev'', vg, vol]]"
proof -
  have "Split ((''-L'' @ show_int sz @ u) @ CHR '' '' # path_Join [''/dev'', vg, vol]) '' '' =
      [''-L'' @ show_int sz @ u, path_Join [''/dev'', vg, vol]]"
    using dev_no_space [OF assms(1,2)] digits_no_space assms(3) by (subst Split_char_append) (auto simp: Split_char_none)
  then show ?thesis
    using nsenter_words [of "''lvextend''"] by (simp add: lvextend_cmd_def)
qed

lemma size_words:
  assumes "name_MatchString vg" and "name_MatchString vol"
  obtains ws where "Split (lv_size_cmd (path_Join [''/dev'', vg, vol])) '' '' =
     [''/nsenter'', ''--mount=/proc/1/ns/mnt'', ''lvdisplay'', ''--units'', ''B'', path_Join [''/dev'', vg, vol]] @ ws"
proof
  have "Split (''--units'' @ CHR '' '' # ''B'' @ CHR '' '' # path_Join [''/dev'', vg, vol] @ CHR '' '' # rest) '' '' =
      [''--units'', ''B'', path_Join [''/dev'', vg, vol]] @ Split rest '' ''" for rest
    using dev_no_space [OF assms] by (subst Split_char_append, simp)+ simp
  then show "Split (lv_size_cmd (path_Join [''/dev'', vg, vol])) '' '' =
     [''/nsenter'', ''--mount=/proc/1/ns/mnt'', ''lvdisplay'', ''--units'', ''B'', path_Join [''/dev'', vg, vol]] @
     Split (''2>&1 | grep '' @ [CHR 0x27] @ ''LV Size'' @ [CHR 0x27] @ '' | awk '' @ [CHR 0x27] @ ''{print $3}'' @ [CHR 0x27]) '' ''"
    using nsenter_words [of "''lvdisplay''"] by (simp add: lv_size_cmd_def)
qed

lemma sim_create:
  assumes "name_MatchString vg" and "name_MatchString vol" and "u \<in> {[], ''m'', ''g''}"
  shows "sim_sh (create_cmd k vol sz u vg) n = (let d = path_Join [''/dev'', vg, vol]
     in case lv_size n d of None \<Rightarrow> (([], None), n\<lparr>lv_size := (lv_size n)(d \<mapsto> size_arg (show_int sz @ u))\<rparr>) | Some _ \<Rightarrow> tool_failed n)"
proof -
  obtain ws where "Split (create_cmd k vol sz u vg) '' '' =
      [''/nsenter'', ''--mount=/proc/1/ns/mnt'', ''lvcreate''] @ ws @ [vol, ''-L'', show_int sz @ u, vg]"
    by (rule create_words [OF assms])
  then show ?thesis by (simp add: sim_sh_def Let_def nth_append split: option.split)
qed

lemma sim_extend:
  assumes "name_MatchString vg" and "name_MatchString vol" and "u \<in> {[], ''m'', ''g''}"
  shows "sim_sh (lvextend_cmd sz u (path_Join [''/dev'', vg, vol])) n = (let d = path_Join [''/dev'', vg, vol]
     in case lv_size n d of None \<Rightarrow> tool_failed n
        | Some a \<Rightarrow> (([], None), n\<lparr>lv_size := (lv_size n)(d \<mapsto> max a (size_arg (show_int sz @ u)))\<rparr>))"
  by (simp add: sim_sh_def extend_words [OF assms] Let_def split: option.split)

lemma sim_size:
  assumes "name_MatchString vg" and "name_MatchString vol"
  shows "sim_sh (lv_size_cmd (path_Join [''/dev'', vg, vol])) n =
     (case lv_size n (path_Join [''/dev'', vg, vol]) of None \<Rightarrow> tool_failed n
      | Some a \<Rightarrow> if is_int64 a then ((show_int a @ ''.00'', None), n) else tool_failed n)"
proof -
  obtain ws where "Split (lv_size_cmd (path_Join [''/dev'', vg, vol])) '' '' =
      [''/nsenter'', ''--mount=/proc/1/ns/mnt'', ''lvdisplay'', ''--units'', ''B'', path_Join [''/dev'', vg, vol]] @ ws"
    by (rule size_words [OF assms])
  then show ?thesis by (simp add: sim_sh_def Let_def)
qed

lemma sim_queries: "cmd \<in> set (vg_queries vg) \<Longrightarrow> sim_sh cmd n = ((''1'', None), n)"
  using nsenter_words [of "''vgck''" vg] nsenter_words [of "''vgdisplay''"]
  by (auto simp: vg_queries_def vg_count_cmd_def cur_pv_cmd_def sim_sh_def Let_def)

text \<open>
  The volumes with names that \<open>name_MatchString\<close> admits. The targets whose text the mount table shows are those that do not begin or end with a space.
\<close>

definition sim_volumes :: "volume_name set" where
  "sim_volumes = {(vg, vol). name_MatchString vg \<and> name_MatchString vol}"

lemma sim_names: "(vg, vol) \<in> sim_volumes \<longleftrightarrow> name_MatchString vg \<and> name_MatchString vol"
  "vg \<in> fst ` sim_volumes \<Longrightarrow> name_MatchString vg" "vol \<in> snd ` sim_volumes \<Longrightarrow> name_MatchString vol"
  unfolding sim_volumes_def by (simp, force+)

definition sim_targets :: "string set" where
  "sim_targets = {t. t \<noteq> [] \<and> TrimSpace t = t}"

lemma sim_query_laws: "query_laws (sim_host pv) id sim_volumes"
  by (auto simp: query_laws_def quiet_def sim_exec_def tool_failed_def sim_queries sim_size sim_names(1) split: option.split)

lemma Contains_self [simp]: "Contains t t"
  using Contains_append [of "[]" t "[]"] by simp

lemma blkid_ext4: "blkid_type (Split ''TYPE=ext4'' [CHR 0x0A]) = Inr ''ext4''"
  by (simp add: Split.simps trim_eval)

lemma sim_answer_laws: "answer_laws (sim_host pv) id sim_targets"
  by (auto simp: answer_laws_def sim_targets_def sim_exec_def tool_failed_def blkid_ext4 trim_eval split: if_splits)

lemma sim_effect_laws: "effect_laws (sim_host pv) id sim_volumes sim_targets"
  by (auto simp: effect_laws_def effect_def sim_exec_def tool_failed_def sim_create sim_extend sim_names(1) Let_def split: option.splits if_splits)
     (metis max.cobounded1)+

lemma sim_node_laws:
  assumes "\<And>vg. GetVGNameFromCsiPV (sim_host pv) (Some pv) = Done vg \<Longrightarrow> vg = [] \<or> name_MatchString vg"
  shows "node_laws (sim_host pv) id sim_volumes sim_targets"
  using assms by (auto simp: node_laws_def api_laws_def sim_names(1) sim_query_laws sim_answer_laws sim_effect_laws)

end
