(* ===== verification/Lvm_Liveness.thy ===== *)
theory Lvm_Liveness
  imports Sim_Node
begin

text \<open>
  When publishing succeeds. A node is healthy for a volume if commands succeed on the states they are documented to succeed on: \<open>lvcreate\<close>
  and \<open>lvextend\<close> when the volume group has room, \<open>mkfs\<close> on a blank volume, \<open>mount\<close> of a file system of the given type on a free
  target, the resizer on a mounted file system; and if queries answer with the facts. On a healthy node a publish request
  for a volume whose capacity is a whole number of GiB succeeds when the volume and the target are ready for it.
\<close>

section \<open>Healthy nodes\<close>

text \<open>From a node that satisfies \<open>P\<close> the command succeeds, with an output that satisfies \<open>A\<close>.\<close>

definition works :: "(node \<Rightarrow> bool) \<Rightarrow> (node \<Rightarrow> string \<Rightarrow> bool) \<Rightarrow> ('w \<Rightarrow> node) \<Rightarrow> ('w \<Rightarrow> (string \<times> goerror option) \<times> 'w) \<Rightarrow> bool" where
  "works P A v f \<longleftrightarrow> (\<forall>w. P (v w) \<longrightarrow> snd (fst (f w)) = None \<and> A (v w) (fst (fst (f w))))"

text \<open>
  A volume group: the number of its physical volumes, and its room as the allocation of LVM finds it from the volumes there are,
  namely the most bytes that a new volume can have (in one piece or over so many stripes) and the most that the volume in question can be extended to.
\<close>

record volume_group =
  pv_count :: int
  new_room :: "int option \<Rightarrow> (string \<rightharpoonup> int) \<Rightarrow> int"
  grow_room :: "(string \<rightharpoonup> int) \<Rightarrow> int"

definition healthy_lvm :: "'w host \<Rightarrow> ('w \<Rightarrow> node) \<Rightarrow> volume_group \<Rightarrow> string \<Rightarrow> string \<Rightarrow> bool" where
  "healthy_lvm h v G vg vol \<longleftrightarrow> (let d = path_Join [''/dev'', vg, vol]; sh = (\<lambda>cmd. exec_combined h ''sh'' [''-c'', cmd]) in
     works (\<lambda>_. True) (\<lambda>_ _. True) v (sh (NsenterCmd @ '' vgck '' @ vg)) \<and>
     works (\<lambda>_. True) (\<lambda>_ out. TrimSpace out = ''1'') v (sh (vg_count_cmd vg)) \<and>
     works (\<lambda>_. True) (\<lambda>_ out. Atoi (TrimSpace out) = Inr (pv_count G)) v (sh (cur_pv_cmd vg)) \<and> 1 \<le> pv_count G \<and>
     (\<forall>stripes \<in> {None, Some (pv_count G)}. \<forall>sz \<ge> 1.
        works (\<lambda>n. lv_size n d = None \<and> sz * Gi_bytes \<le> new_room G stripes (lv_size n)) (\<lambda>_ _. True) v (sh (create_cmd stripes vol sz ''g'' vg))) \<and>
     (\<forall>sz. works (\<lambda>n. (\<exists>a. lv_size n d = Some a \<and> a < sz * Gi_bytes) \<and> sz * Gi_bytes \<le> grow_room G (lv_size n)) (\<lambda>_ _. True) v
        (sh (lvextend_cmd sz ''g'' d))) \<and>
     works (\<lambda>n. \<exists>a. lv_size n d = Some a \<and> is_int64 a)
       (\<lambda>n out. \<exists>a. lv_size n d = Some a \<and> out \<noteq> [] \<and> ParseInt (TrimSpace (Split out ''.'' ! 0)) = Inr a) v (sh (lv_size_cmd d)))"

text \<open>
  The tools for file systems, for one type \<open>f\<close> that the node supports and the options of one request. \<open>mount\<close> is only
  said to succeed when the device holds a file system of that type.
\<close>

definition healthy_fs :: "'w host \<Rightarrow> ('w \<Rightarrow> node) \<Rightarrow> string \<Rightarrow> string \<Rightarrow> string \<Rightarrow> string list \<Rightarrow> bool" where
  "healthy_fs h v d t f opts \<longleftrightarrow>
     (\<forall>w. mounted_on (v w) d = None \<longrightarrow> (\<exists>e. fst (os_stat h d w) = Inl e \<and> IsNotExist e) \<longleftrightarrow> lv_size (v w) d = None) \<and>
     works (\<lambda>n. lv_size n d \<noteq> None) (\<lambda>n out. fs_on n d = None \<longrightarrow> TrimSpace out = ''data'') v (exec_combined h ''file'' [''-bsL'', d]) \<and>
     works (\<lambda>n. fs_on n d \<noteq> None) (\<lambda>n out. \<exists>ty. blkid_type (Split out [CHR 0x0A]) = Inr ty) v
       (exec_combined h ''blkid'' [''-c'', ''/dev/null'', ''-o'', ''export'', d]) \<and>
     works (\<lambda>n. lv_size n d \<noteq> None \<and> fs_on n d = None) (\<lambda>_ _. True) v (exec_combined h ''mkfs'' [''-t'', f, d]) \<and>
     works (\<lambda>n. (\<exists>k. fs_on n d = Some (f, k)) \<and> mounted_on n t = None) (\<lambda>_ _. True) v
       (exec_combined h ''mount'' [''-t'', f, ''-o'', Join opts '','', d, t]) \<and>
     (\<forall>w. snd (fst (exec_combined h ''grep'' [t, ''/proc/mounts''] w)) \<noteq> None \<longrightarrow>
        TrimSpace (fst (fst (exec_combined h ''grep'' [t, ''/proc/mounts''] w))) = []) \<and>
     (\<forall>w m. mounted_on (v w) t = None \<longrightarrow> fst (os_mkdirall h t m w) = None) \<and>
     (\<forall>w k. fs_on (v w) d = Some (f, k) \<longrightarrow> mounted_on (v w) t = Some d \<longrightarrow> fst (resize_fs h d t w) = Inr True)"

text \<open>The capacity that the API server reports for the volume whenever it answers, and that it does answer.\<close>

definition has_capacity :: "'w host \<Rightarrow> string \<Rightarrow> int \<Rightarrow> bool" where
  "has_capacity h vol c \<longleftrightarrow> (\<forall>w pv w'. get_pv h vol w = (Inr pv, w') \<longrightarrow> storage_bytes pv = c)"

definition api_answers :: "'w host \<Rightarrow> string \<Rightarrow> bool" where
  "api_answers h vol \<longleftrightarrow> (\<forall>w. \<exists>pv w'. get_pv h vol w = (Inr pv, w'))"

section \<open>Rules\<close>

lemma ensures_conj: "ensures v n m Q \<Longrightarrow> ensures v n m R \<Longrightarrow> ensures v n m (\<lambda>r n'. Q r n' \<and> R r n')"
  by (simp add: ensures_def)

lemma ensures_works:
  "works P A v (exec_combined h p args) \<Longrightarrow> P n \<Longrightarrow> ensures v n (CombinedOutput h p args) (\<lambda>r n'. snd r = None \<and> A n (fst r))"
  by (auto simp: works_def CombinedOutput_def ensures_def split: prod.split)

lemma ensures_Run_works:
  assumes "works P A v (exec_combined h ''sh'' [''-c'', cmd])" and "P n"
  shows "ensures v n (Run h cmd) (\<lambda>r n'. \<exists>out. r = Inr out \<and> A n out)"
  unfolding Run_def by (rule ensures_seq [OF ensures_works [OF assms]]) (auto intro!: view_rules)

lemma healthy_lvmD:
  assumes "healthy_lvm h v G vg vol"
  shows "works (\<lambda>_. True) (\<lambda>_ _. True) v (exec_combined h ''sh'' [''-c'', NsenterCmd @ '' vgck '' @ vg])"
    and "works (\<lambda>_. True) (\<lambda>_ out. TrimSpace out = ''1'') v (exec_combined h ''sh'' [''-c'', vg_count_cmd vg])"
    and "works (\<lambda>_. True) (\<lambda>_ out. Atoi (TrimSpace out) = Inr (pv_count G)) v (exec_combined h ''sh'' [''-c'', cur_pv_cmd vg])"
    and "1 \<le> sz \<Longrightarrow> stripes \<in> {None, Some (pv_count G)} \<Longrightarrow>
       works (\<lambda>n. lv_size n (path_Join [''/dev'', vg, vol]) = None \<and> sz * Gi_bytes \<le> new_room G stripes (lv_size n)) (\<lambda>_ _. True) v
       (exec_combined h ''sh'' [''-c'', create_cmd stripes vol sz ''g'' vg])"
    and "works (\<lambda>n. (\<exists>a. lv_size n (path_Join [''/dev'', vg, vol]) = Some a \<and> a < sz * Gi_bytes) \<and> sz * Gi_bytes \<le> grow_room G (lv_size n))
       (\<lambda>_ _. True) v (exec_combined h ''sh'' [''-c'', lvextend_cmd sz ''g'' (path_Join [''/dev'', vg, vol])])"
    and "works (\<lambda>n. \<exists>a. lv_size n (path_Join [''/dev'', vg, vol]) = Some a \<and> is_int64 a)
       (\<lambda>n out. \<exists>a. lv_size n (path_Join [''/dev'', vg, vol]) = Some a \<and> out \<noteq> [] \<and> ParseInt (TrimSpace (Split out ''.'' ! 0)) = Inr a) v
       (exec_combined h ''sh'' [''-c'', lv_size_cmd (path_Join [''/dev'', vg, vol])])"
    and "1 \<le> pv_count G"
  using assms unfolding healthy_lvm_def Let_def by - (elim conjE, blast)+

lemmas run_works = ensures_Run_works [OF healthy_lvmD(1)] ensures_Run_works [OF healthy_lvmD(2)]
  ensures_Run_works [OF healthy_lvmD(3)] ensures_Run_works [OF healthy_lvmD(4)] ensures_Run_works [OF healthy_lvmD(5)]
  ensures_Run_works [OF healthy_lvmD(6)]

text \<open>What the code makes of an answer of the API server.\<close>

definition pv_answer_info :: "goerror + PersistentVolume \<Rightarrow> int \<times> int \<times> string \<times> PersistentVolume option" where
  "pv_answer_info a = (case a of Inl _ \<Rightarrow> (0, 0, [], None) | Inr pv \<Rightarrow> pv_info pv)"

lemma view_pv_answer:
  assumes "node_laws h v N T"
  shows "ensures v n (getPvInfo h vol) (\<lambda>r n'. n' = n \<and> (\<exists>w. r = pv_answer_info (fst (get_pv h vol w))))"
  unfolding getPvInfo_def GetPV_def
proof (rule ensures_quiet_bind [OF quiet_calls(3) [OF assms(1)]])
  fix w a w' assume "get_pv h vol w = (a, w')"
  then show "ensures v n (State_Monad.return (case a of Inl err \<Rightarrow> (0, 0, [], None) | Inr pv \<Rightarrow> pv_info pv))
      (\<lambda>r n'. n' = n \<and> (\<exists>w. r = pv_answer_info (fst (get_pv h vol w))))"
    by (auto simp: pv_answer_info_def intro!: view_rules exI [of _ w])
qed

lemma live_getPvInfo:
  assumes "node_laws h v N T" and "has_capacity h vol c" and "Gi_bytes dvd c" and "0 < c"
  shows "ensures v n (getPvInfo h vol) (\<lambda>r n'. n' = n \<and>
     ((\<exists>pv. r = (c div Gi_bytes, c, ''g'', pv)) \<or> \<not> api_answers h vol \<and> r = (0, 0, [], None)))"
proof (rule ensures_weaken [OF view_pv_answer [OF assms(1)]])
  have info: "pv_info pv = (c div Gi_bytes, c, ''g'', Some pv)" if "storage_bytes pv = c" for pv
    using assms(3,4) that by (auto simp: pv_info_def Let_def go_div_nonneg Gi_bytes_def zdvd_imp_le zdiv_eq_0_iff dest: zdvd_imp_le)
  fix r n' assume "n' = n \<and> (\<exists>w. r = pv_answer_info (fst (get_pv h vol w)))"
  then obtain w where w: "n' = n" "r = pv_answer_info (fst (get_pv h vol w))" by blast
  show "n' = n \<and> ((\<exists>pv. r = (c div Gi_bytes, c, ''g'', pv)) \<or> \<not> api_answers h vol \<and> r = (0, 0, [], None))"
  proof (cases "fst (get_pv h vol w)")
    case (Inl e)
    then have "\<not> api_answers h vol" unfolding api_answers_def by (metis fst_conv sum.distinct(1))
    with w Inl show ?thesis by (simp add: pv_answer_info_def)
  next
    case (Inr pv)
    then have "storage_bytes pv = c" using assms(2) unfolding has_capacity_def by (metis prod.collapse)
    with w Inr show ?thesis by (simp add: pv_answer_info_def info)
  qed
qed

lemma live_createVG:
  assumes "node_laws h v N T" and "healthy_lvm h v G vg vol" and "(vg, vol) \<in> N"
  shows "ensures v n (createVG h vg) (\<lambda>r n'. n' = n \<and> r = Inr (pv_count G))"
proof -
  have q: "ensures v m (Run h cmd) (\<lambda>r n'. n' = m)" if "cmd \<in> set (vg_queries vg)" for m cmd
    by (rule view_Run_quiet [OF quiet_commands(1) [OF assms(1,3) that]]) simp
  have cnt: "vg_count_cmd vg \<in> set (vg_queries vg)" and cur: "cur_pv_cmd vg \<in> set (vg_queries vg)"
    by (simp_all add: vg_queries_def)
  show ?thesis
    unfolding createVG_def cur_pv_cmd_def [symmetric]
    by (intro view_rules ensures_seq [OF ensures_conj [OF q [OF cnt] run_works(2) [OF assms(2) TrueI]]]
          ensures_seq [OF ensures_conj [OF q [OF cur] run_works(3) [OF assms(2) TrueI]]])
       (use healthy_lvmD(7) [OF assms(2)] in auto)
qed

text \<open>The types of volumes that can be created: linear ones, and striped ones on local disks. The latter have a stripe on every physical volume.\<close>

definition creatable :: "string \<Rightarrow> string \<Rightarrow> bool" where
  "creatable pvType lvmType \<longleftrightarrow> lvmType = ''linear'' \<or> lvmType = ''striping'' \<and> pvType = ''localdisk''"

definition stripes_of :: "volume_group \<Rightarrow> string \<Rightarrow> int option" where
  "stripes_of G lvmType = (if lvmType = ''striping'' then Some (pv_count G) else None)"

lemma live_create_cmd:
  assumes "node_laws h v N T" and "healthy_lvm h v G vg vol" and "(vg, vol) \<in> N"
    and "1 \<le> sz" and "stripes \<in> {None, Some (pv_count G)}" and "lv_size n (path_Join [''/dev'', vg, vol]) = None"
    and "sz * Gi_bytes \<le> new_room G stripes (lv_size n)"
  shows "ensures v n (Run h (create_cmd stripes vol sz ''g'' vg))
     (\<lambda>r n'. (\<exists>out. r = Inr out) \<and> (\<exists>b. n' = n\<lparr>lv_size := (lv_size n)(path_Join [''/dev'', vg, vol] \<mapsto> b)\<rparr>))"
proof -
  have "ensures v n (Run h (create_cmd stripes vol sz ''g'' vg)) (\<lambda>r n'. (\<exists>e. r = Inl e) \<or>
      (\<exists>b. n' = n\<lparr>lv_size := (lv_size n)(path_Join [''/dev'', vg, vol] \<mapsto> b)\<rparr>))"
    by (rule view_Run_effect [OF effects(4) [OF assms(1,3)]]) auto
  from ensures_conj [OF this run_works(4) [OF assms(2,4,5)]] show ?thesis
    using assms(6,7) by (auto elim!: ensures_weaken)
qed

lemma live_createVolume:
  assumes "node_laws h v N T" and "healthy_lvm h v G vg vol" and "(vg, vol) \<in> N"
    and "has_capacity h vol c" and "Gi_bytes dvd c" and "0 < c" and "api_answers h vol" and "creatable pt lt"
    and "lv_size n (path_Join [''/dev'', vg, vol]) = None" and "c \<le> new_room G (stripes_of G lt) (lv_size n)"
  shows "ensures v n (createVolume h vol vg pt lt)
     (\<lambda>r n'. r = None \<and> (\<exists>b. n' = n\<lparr>lv_size := (lv_size n)(path_Join [''/dev'', vg, vol] \<mapsto> b)\<rparr>))"
proof -
  have vg: "ensures v m (if pt = ''localdisk'' then createVG h vg else State_Monad.return (Inr 0))
      (\<lambda>r n'. n' = m \<and> (\<exists>k. r = Inr k \<and> (pt = ''localdisk'' \<longrightarrow> k = pv_count G)))" for m
    by (intro view_rules ensures_weaken [OF live_createVG [OF assms(1-3)]]) auto
  have q: "ensures v m (Run h (NsenterCmd @ '' vgck '' @ vg)) (\<lambda>r n'. n' = m)" for m
    by (rule view_Run_quiet [OF quiet_commands(1) [OF assms(1,3)]]) (simp_all add: vg_queries_def)
  have sz: "1 \<le> c div Gi_bytes" and c: "c div Gi_bytes * Gi_bytes = c" using assms(5,6) by (auto simp: Gi_bytes_def)
  note cmd = live_create_cmd [OF assms(1-3) sz _ assms(9), unfolded c]
  show ?thesis
    unfolding createVolume_def create_cmd_forms using assms(7,8,10)
    by (intro view_rules ensures_seq [OF live_getPvInfo [OF assms(1,4-6)]] ensures_seq [OF vg]
          ensures_seq [OF ensures_conj [OF q run_works(1) [OF assms(2) TrueI]]])
       (auto simp: creatable_def stripes_of_def intro!: ensures_seq [OF cmd] view_rules)
qed

lemma healthy_fsD:
  assumes "healthy_fs h v d t f opts"
  shows "mounted_on (v w) d = None \<Longrightarrow> (\<exists>e. fst (os_stat h d w) = Inl e \<and> IsNotExist e) \<longleftrightarrow> lv_size (v w) d = None"
    and "works (\<lambda>n. lv_size n d \<noteq> None) (\<lambda>n out. fs_on n d = None \<longrightarrow> TrimSpace out = ''data'') v (exec_combined h ''file'' [''-bsL'', d])"
    and "works (\<lambda>n. fs_on n d \<noteq> None) (\<lambda>n out. \<exists>ty. blkid_type (Split out [CHR 0x0A]) = Inr ty) v
       (exec_combined h ''blkid'' [''-c'', ''/dev/null'', ''-o'', ''export'', d])"
    and "works (\<lambda>n. lv_size n d \<noteq> None \<and> fs_on n d = None) (\<lambda>_ _. True) v (exec_combined h ''mkfs'' [''-t'', f, d])"
    and "works (\<lambda>n. (\<exists>k. fs_on n d = Some (f, k)) \<and> mounted_on n t = None) (\<lambda>_ _. True) v
       (exec_combined h ''mount'' [''-t'', f, ''-o'', Join opts '','', d, t])"
    and "snd (fst (exec_combined h ''grep'' [t, ''/proc/mounts''] w)) \<noteq> None \<Longrightarrow>
       TrimSpace (fst (fst (exec_combined h ''grep'' [t, ''/proc/mounts''] w))) = []"
    and "mounted_on (v w) t = None \<Longrightarrow> fst (os_mkdirall h t m w) = None"
    and "fs_on (v w) d = Some (f, k) \<Longrightarrow> mounted_on (v w) t = Some d \<Longrightarrow> fst (resize_fs h d t w) = Inr True"
  using assms unfolding healthy_fs_def by simp_all

text \<open>Resizing succeeds if the volume is large enough or can be extended, and holds a file system of the type that is mounted on the target.\<close>

lemma live_resizeVolume:
  assumes "node_laws h v N T" and "healthy_lvm h v G vg vol" and "(vg, vol) \<in> N"
    and "has_capacity h vol c" and "Gi_bytes dvd c" and "0 < c"
    and "lv_size n (path_Join [''/dev'', vg, vol]) = Some a" and "is_int64 a" and "0 \<le> a" and "a < c \<Longrightarrow> c \<le> grow_room G (lv_size n)"
    and "ns_rn ns = NewExecRunner h" and "healthy_fs h v (path_Join [''/dev'', vg, vol]) t f opts"
    and "\<exists>k. fs_on n (path_Join [''/dev'', vg, vol]) = Some (f, k)" and "mounted_on n t = Some (path_Join [''/dev'', vg, vol])"
  shows "ensures v n (resizeVolume h ns vol vg t) (\<lambda>r n'. r = None)"
proof -
  let ?d = "path_Join [''/dev'', vg, vol]"
  have sz: "ensures v n (Run h (lv_size_cmd ?d)) (\<lambda>r n'. n' = n \<and>
      (\<exists>out. r = Inr out \<and> out \<noteq> [] \<and> ParseInt (TrimSpace (Split out ''.'' ! 0)) = Inr a))"
  proof (rule ensures_weaken)
    show "ensures v n (Run h (lv_size_cmd ?d)) (\<lambda>r n'. n' = n \<and> (\<exists>out. r = Inr out \<and>
        (\<exists>a. lv_size n ?d = Some a \<and> out \<noteq> [] \<and> ParseInt (TrimSpace (Split out ''.'' ! 0)) = Inr a)))"
      by (rule ensures_conj [OF view_Run_quiet [OF quiet_commands(2) [OF assms(1,3)]] run_works(6) [OF assms(2)]])
         (simp_all add: assms(7,8))
  qed (use assms(7) in auto)
  have c: "c div Gi_bytes * Gi_bytes = c" using assms(5) by simp
  have grow: "ensures v n (Run h (lvextend_cmd (c div Gi_bytes) ''g'' ?d)) (\<lambda>r n'. (\<exists>out. r = Inr out) \<and> fs_on n' = fs_on n \<and> mounted_on n' = mounted_on n)"
    if "a < c"
  proof -
    have "ensures v n (Run h (lvextend_cmd (c div Gi_bytes) ''g'' ?d)) (\<lambda>r n'. fs_on n' = fs_on n \<and> mounted_on n' = mounted_on n)"
      by (rule view_Run_effect [OF effects(5) [OF assms(1,3)]]) auto
    from ensures_conj [OF run_works(5) [OF assms(2)] this] that assms(7,10) c show ?thesis
      by (auto elim!: ensures_weaken)
  qed
  have fs: "ensures v m (rn_ResizeFS (ns_rn ns) ?d t) (\<lambda>r n'. r = Inr True)" if "fs_on m = fs_on n" "mounted_on m = mounted_on n" for m
    unfolding assms(11) NewExecRunner_def ResizeFs_def ExecRunner.select_convs
  proof (rule ensures_syscall)
    fix w a w' assume "v w = m" "resize_fs h ?d t w = (a, w')"
    then show "a = Inr True"
      using assms(13,14) that healthy_fsD(8) [OF assms(12), of w] by auto
  qed
  show ?thesis
    unfolding resizeVolume_def Let_def
    by (intro view_rules ensures_seq [OF live_getPvInfo [OF assms(1,4-6)]])
       (auto simp: assms(7,9) c intro!: ensures_seq [OF sz] ensures_seq [OF grow] ensures_seq [OF fs] view_rules)
qed

lemma live_checkFSType:
  assumes "node_laws h v N T" and "healthy_fs h v d t f opts" and "lv_size n d \<noteq> None"
  shows "ensures v n (checkFSType h d) (\<lambda>r n'. n' = n \<and> (\<exists>ty. r = Inr ty \<and> (ty = [] \<longleftrightarrow> fs_on n d = None)))"
proof -
  have q: "ensures v m (CombinedOutput h ''file'' [''-bsL'', d]) (\<lambda>r n'. n' = m)" for m
    unfolding CombinedOutput_def by (rule ensures_quiet [OF quiet_calls(8) [OF assms(1)]]) simp
  have b: "ensures v m (CombinedOutput h ''blkid'' [''-c'', ''/dev/null'', ''-o'', ''export'', d]) (\<lambda>r n'. n' = m)" for m
    unfolding CombinedOutput_def by (rule ensures_quiet [OF quiet_calls(9) [OF assms(1)]]) simp
  have "ensures v n (checkFSType h d) (\<lambda>r n'. \<exists>ty. r = Inr ty \<and> (fs_on n d = None \<longrightarrow> ty = []))"
    unfolding checkFSType_def
    by (intro view_rules ensures_seq [OF ensures_conj [OF q ensures_works [OF healthy_fsD(2) [OF assms(2)] assms(3)]]]
          ensures_seq [OF ensures_conj [OF b ensures_works [OF healthy_fsD(3) [OF assms(2)]]]])
       auto
  from ensures_conj [OF this view_checkFSType [OF assms(1)]] show ?thesis
    by (rule ensures_weaken) auto
qed

lemma live_IsMounted:
  assumes "node_laws h v N T" and "healthy_fs h v d t f opts" and "t \<in> T" and "t \<noteq> []"
  shows "ensures v n (IsMounted h t) (\<lambda>r n'. n' = n \<and> r = Inr (mounted_on n t \<noteq> None))"
proof -
  have "ensures v n (IsMounted h t) (\<lambda>r n'. \<exists>b. r = Inr b)"
    unfolding IsMounted_def CombinedOutput_def Let_def using assms(4) healthy_fsD(6) [OF assms(2)]
    by (auto intro!: view_rules ensures_quiet_bind [OF quiet_calls(7) [OF assms(1)]]) (metis fst_conv snd_conv option.distinct(1))
  from ensures_conj [OF this view_IsMounted [OF assms(1,3)]] show ?thesis
    by (rule ensures_weaken) auto
qed

lemma live_format:
  assumes "node_laws h v N T" and "healthy_fs h v d t f opts" and "ty = [] \<longleftrightarrow> fs_on n d = None" and "lv_size n d \<noteq> None" and "d \<in> devs N"
    and "\<And>y k. fs_on n d = Some (y, k) \<Longrightarrow> y = f"
  shows "ensures v n (if ty = [] then formatDevice h d f else State_Monad.return None)
     (\<lambda>r n'. r = None \<and> (\<exists>k. fs_on n' d = Some (f, k)) \<and> lv_size n' = lv_size n \<and> mounted_on n' = mounted_on n)"
proof (cases "ty = []")
  case True
  with assms(3,4) have "lv_size n d \<noteq> None \<and> fs_on n d = None" by simp
  then have "ensures v n (formatDevice h d f) (\<lambda>r n'. r = None)"
    unfolding formatDevice_def
    by (intro ensures_seq [OF ensures_works [OF healthy_fsD(4) [OF assms(2)]]]) (auto intro!: view_rules)
  from ensures_conj [OF this view_formatDevice [OF assms(1,5)]] True show ?thesis
    by (auto elim!: ensures_weaken simp: formatted_def)
qed (use assms(3,6) in \<open>auto intro!: view_rules\<close>)

text \<open>The step that mounts: afterwards the device is on the target, where it may have been before.\<close>

lemma live_mount:
  assumes "node_laws h v N T" and "healthy_fs h v d t f opts" and "\<exists>k. fs_on n d = Some (f, k)" and "d \<noteq> []" and "t \<noteq> []" and "f \<noteq> []"
    and "opts \<noteq> []" and "list_all plain_opt opts" and "d \<in> devs N" and "t \<in> T"
    and "isMnt \<longleftrightarrow> mounted_on n t \<noteq> None" and "mounted_on n t \<in> {None, Some d}"
  shows "ensures v n (if \<not> isMnt then Mount h d t f opts else State_Monad.return None)
     (\<lambda>r n'. r = None \<and> mounted_on n' t = Some d \<and> lv_size n' = lv_size n \<and> fs_on n' = fs_on n)"
proof (cases isMnt)
  case False
  with assms(11) have free: "mounted_on n t = None" by simp
  have mk: "ensures v n (MkdirAll h t m) (\<lambda>r n'. r = None \<and> n' = n)" for m
    unfolding MkdirAll_def using healthy_fsD(7) [OF assms(2)] free
    by (auto intro!: ensures_quiet [OF quiet_calls(2) [OF assms(1)]]) (metis fst_conv)
  have "ensures v n (Mount h d t f opts) (\<lambda>r n'. r = None)"
    unfolding Mount_def Let_def using assms(3-7) free
    by (auto intro!: view_rules ensures_seq [OF mk] ensures_seq [OF ensures_works [OF healthy_fsD(5) [OF assms(2)]]])
  from ensures_conj [OF this view_Mount [OF assms(1,8,7,9,10)]] False show ?thesis
    by (auto elim!: ensures_weaken)
qed (use assms(11,12) in \<open>auto intro!: view_rules\<close>)

section \<open>Publishing\<close>

text \<open>A request that can succeed on a healthy node: it is not for a direct volume, and its type of volume can be created.\<close>

definition publishable :: "'w host \<Rightarrow> ('w \<Rightarrow> node) \<Rightarrow> volume_name set \<Rightarrow> string set \<Rightarrow> volume_group \<Rightarrow> NodePublishVolumeRequest \<Rightarrow> int \<Rightarrow> bool" where
  "publishable h v N T G req c \<longleftrightarrow> (let ctx = pub_VolumeContext req; vg = ctx_or ctx ''vgName'' []; f = ctx_or ctx ''fsType'' ''ext4'' in
     valid_publish req \<and> publish_ok N T req \<and> \<not> direct_of ctx \<and> f \<noteq> [] \<and>
     creatable (ctx_or ctx ''pvType'' ''clouddisk'') (ctx_or ctx ''lvmType'' ''linear'') \<and>
     healthy_lvm h v G vg (pub_VolumeId req) \<and> healthy_fs h v (lv_device req) (pub_TargetPath req) f (mount_options req) \<and>
     has_capacity h (pub_VolumeId req) c \<and> Gi_bytes dvd c \<and> 0 < c)"

lemma publishableD:
  assumes "publishable h v N T G req c"
  shows "valid_publish req" "publish_ok N T req" "\<not> direct_of (pub_VolumeContext req)"
    "ctx_or (pub_VolumeContext req) ''fsType'' ''ext4'' \<noteq> []"
    "creatable (ctx_or (pub_VolumeContext req) ''pvType'' ''clouddisk'') (ctx_or (pub_VolumeContext req) ''lvmType'' ''linear'')"
    "healthy_lvm h v G (ctx_or (pub_VolumeContext req) ''vgName'' []) (pub_VolumeId req)"
    "healthy_fs h v (lv_device req) (pub_TargetPath req) (ctx_or (pub_VolumeContext req) ''fsType'' ''ext4'') (mount_options req)"
    "has_capacity h (pub_VolumeId req) c" "Gi_bytes dvd c" "0 < c"
    "(ctx_or (pub_VolumeContext req) ''vgName'' [], pub_VolumeId req) \<in> N" "pub_TargetPath req \<in> T" "pub_TargetPath req \<noteq> []"
    "list_all plain_opt (mount_options req)" "lv_device req \<noteq> []" "lv_device req \<in> devs N"
proof -
  show "lv_device req \<in> devs N" using assms publish_okD(2) unfolding publishable_def Let_def by blast
qed (use assms in
  \<open>auto simp: publishable_def Let_def publish_ok_def valid_publish_def plain_mount_options lv_device_def path_Join.simps Clean_def\<close>)

text \<open>
  What a node must have for the request: a volume that is there is of a size that can be read, and small enough or with room to grow, otherwise the group
  has room for it and the API server answers; the volume holds no file system or one of the type of the request; and nothing but it is mounted on the target.
\<close>

definition sizes_ready :: "'w host \<Rightarrow> volume_group \<Rightarrow> NodePublishVolumeRequest \<Rightarrow> int \<Rightarrow> node \<Rightarrow> bool" where
  "sizes_ready h G req c n \<longleftrightarrow> (case lv_size n (lv_device req) of
     None \<Rightarrow> api_answers h (pub_VolumeId req) \<and>
       c \<le> new_room G (stripes_of G (ctx_or (pub_VolumeContext req) ''lvmType'' ''linear'')) (lv_size n)
   | Some a \<Rightarrow> 0 \<le> a \<and> is_int64 a \<and> (a < c \<longrightarrow> c \<le> grow_room G (lv_size n)))"

definition files_ready :: "NodePublishVolumeRequest \<Rightarrow> node \<Rightarrow> bool" where
  "files_ready req n \<longleftrightarrow> (\<forall>y k. fs_on n (lv_device req) = Some (y, k) \<longrightarrow> y = ctx_or (pub_VolumeContext req) ''fsType'' ''ext4'') \<and>
     mounted_on n (pub_TargetPath req) \<in> {None, Some (lv_device req)} \<and> mounted_on n (lv_device req) = None"

lemma live_publish_mount:
  assumes "node_laws h v N T" and "publishable h v N T G req c"
    and "lv_size n (lv_device req) \<noteq> None" and "\<not> new \<longrightarrow> sizes_ready h G req c n" and "files_ready req n"
    and "isMnt \<longleftrightarrow> mounted_on n (pub_TargetPath req) \<noteq> None"
  shows "ensures v n (publish_mount h (NewNodeServer h i) req (ctx_or (pub_VolumeContext req) ''vgName'' [])
     (ctx_or (pub_VolumeContext req) ''fsType'' ''ext4'') (lv_device req) new isMnt) (\<lambda>r n'. r = Inr ())"
proof -
  note p = publishableD [OF assms(2)]
  have rs: "ensures v m (resizeVolume h (NewNodeServer h i) (pub_VolumeId req) (ctx_or (pub_VolumeContext req) ''vgName'' [])
      (pub_TargetPath req)) (\<lambda>r n'. r = None)" if "\<not> new" "lv_size m = lv_size n" "mounted_on m (pub_TargetPath req) = Some (lv_device req)"
      "\<exists>k. fs_on m (lv_device req) = Some (ctx_or (pub_VolumeContext req) ''fsType'' ''ext4'', k)" for m
  proof -
    from assms(3) obtain a where a: "lv_size n (lv_device req) = Some a" by blast
    show ?thesis
      using that a assms(4) p(7) by (intro live_resizeVolume [OF assms(1) p(6,11,8-10), where a = a])
        (auto simp: sizes_ready_def lv_device_def [symmetric])
  qed
  show ?thesis
    unfolding publish_mount_def Let_def NewNodeServer_parts NewMounter_parts
    by (intro view_rules ensures_seq [OF live_checkFSType [OF assms(1) p(7) assms(3)]] ensures_seq [OF live_format [OF assms(1) p(7)]]
          ensures_seq [OF live_mount [OF assms(1) p(7)]] ensures_seq [OF rs])
       (use assms(3,5,6) p(4,12-16) in \<open>auto simp: plain_mount_options files_ready_def\<close>)
qed

lemma live_publish_volume:
  assumes "node_laws h v N T" and "publishable h v N T G req c"
    and "lv_size n (lv_device req) \<noteq> None" and "\<not> new \<longrightarrow> sizes_ready h G req c n" and "files_ready req n"
  shows "ensures v n (publish_volume h (NewNodeServer h i) req (ctx_or (pub_VolumeContext req) ''vgName'' [])
     (ctx_or (pub_VolumeContext req) ''fsType'' ''ext4'') (lv_device req) new) (\<lambda>r n'. r = Done (Inr ()))"
proof -
  note p = publishableD [OF assms(2)]
  show ?thesis
    unfolding publish_volume_def Let_def NewNodeServer_parts NewMounter_parts using assms(3-5)
    by (auto intro!: view_rules ensures_seq [OF live_IsMounted [OF assms(1) p(7,12,13)]]
          ensures_seq [OF live_publish_mount [OF assms(1,2)]])
qed

lemma live_publish_prepare:
  assumes "node_laws h v N T" and "publishable h v N T G req c" and "sizes_ready h G req c n" and "files_ready req n"
  shows "ensures v n (publish_prepare h req) (\<lambda>r n'. \<exists>new. r = (new, None) \<and> lv_size n' (lv_device req) \<noteq> None \<and>
     (\<not> new \<longrightarrow> sizes_ready h G req c n') \<and> files_ready req n')"
proof -
  note p = publishableD [OF assms(2)]
  have stat: "ensures v n (Stat h (device_of req)) (\<lambda>r n'. n' = n \<and>
      ((case r of Inl e \<Rightarrow> IsNotExist e | Inr _ \<Rightarrow> False) \<longleftrightarrow> lv_size n (lv_device req) = None))"
    unfolding Stat_def device_of_lv
  proof (rule ensures_quiet [OF quiet_calls(1) [OF assms(1)]])
    fix w a w' assume "v w = n" "os_stat h (lv_device req) w = (a, w')"
    then show "n = n \<and> ((case a of Inl e \<Rightarrow> IsNotExist e | Inr _ \<Rightarrow> False) \<longleftrightarrow> lv_size n (lv_device req) = None)"
      using healthy_fsD(1) [OF p(7), of w] assms(4) by (auto simp: files_ready_def split: sum.splits)
  qed
  have create: "ensures v n (if new then createVolume h (pub_VolumeId req) (ctx_or (pub_VolumeContext req) ''vgName'' [])
        (ctx_or (pub_VolumeContext req) ''pvType'' ''clouddisk'') (ctx_or (pub_VolumeContext req) ''lvmType'' ''linear'')
      else State_Monad.return None)
      (\<lambda>r n'. r = None \<and> lv_size n' (lv_device req) \<noteq> None \<and> files_ready req n' \<and> (\<not> new \<longrightarrow> n' = n))"
    if "new \<longleftrightarrow> lv_size n (lv_device req) = None" for new
    using that assms(3,4) unfolding lv_device_def
    by (intro view_rules ensures_weaken [OF live_createVolume [OF assms(1) p(6,11,8-10)]])
       (auto simp: sizes_ready_def files_ready_def lv_device_def p(5))
  show ?thesis
    unfolding publish_prepare_def Let_def
    by (intro ensures_seq [OF stat]) (use assms(3) in \<open>auto intro!: ensures_seq [OF create] view_rules split del: if_split\<close>)
qed

lemma live_NodePublishVolume:
  assumes "node_laws h v N T" and "publishable h v N T G req c" and "sizes_ready h G req c n" and "files_ready req n"
  shows "ensures v n (NodePublishVolume h (NewNodeServer h i) req) (\<lambda>r n'. r = Done (Inr ()))"
proof -
  note p = publishableD [OF assms(2)]
  have finish: "ensures v m (publish_finish h (NewNodeServer h i) req new None) (\<lambda>r n'. r = Done (Inr ()))"
    if "lv_size m (lv_device req) \<noteq> None" "\<not> new \<longrightarrow> sizes_ready h G req c m" "files_ready req m" for m new
    using live_publish_volume [OF assms(1,2) that] by (simp add: publish_finish_def p(3) device_of_lv)
  show ?thesis
    unfolding NodePublishVolume_eq [OF p(1)]
    by (rule ensures_bind, rule view_setDirect, rule ensures_seq [OF live_publish_prepare [OF assms]]) (auto intro!: finish)
qed

text \<open>Unpublishing succeeds when the search of the mount table fails only by finding nothing, and what is mounted on the target can be unmounted.\<close>

lemma live_NodeUnpublishVolume:
  assumes "node_laws h v N T" and "healthy_fs h v d (unpub_TargetPath u) f opts" and "unpub_TargetPath u \<in> T"
    and "unpub_VolumeId u \<noteq> []" and "unpub_TargetPath u \<noteq> []"
    and "works (\<lambda>n. mounted_on n (unpub_TargetPath u) \<noteq> None) (\<lambda>_ _. True) v (exec_combined h ''umount'' [unpub_TargetPath u])"
  shows "ensures v n (NodeUnpublishVolume h (NewNodeServer h i) u) (\<lambda>r n'. r = Inr ())"
proof -
  have rm: "ensures v m (if b then do { VolumeRemove h t; State_Monad.return () } else State_Monad.return ()) (\<lambda>r n'. n' = m)" for m b t
    by (intro view_rules ensures_bind view_plain_calls(3) [OF assms(1)]) simp_all
  have um: "ensures v m (Unmount h (unpub_TargetPath u)) (\<lambda>r n'. r = None)" if "mounted_on m (unpub_TargetPath u) \<noteq> None" for m
    unfolding Unmount_def using assms(5)
    by (auto intro!: view_rules ensures_seq [OF ensures_works [OF assms(6) that]])
  show ?thesis
    unfolding NodeUnpublishVolume_def Let_def NewNodeServer_parts NewMounter_parts using assms(4,5)
    by (auto intro!: view_rules ensures_bind [OF view_getDirect] ensures_seq [OF rm] ensures_seq [OF live_IsMounted [OF assms(1,2,3,5)]]
          ensures_seq [OF um] split del: if_split)
qed

section \<open>An example\<close>

text \<open>A node without volumes, and a request for a volume of five GiB.\<close>

definition empty_node :: node where
  "empty_node = \<lparr>lv_size = Map.empty, fs_on = Map.empty, mounted_on = Map.empty, made = 0\<rparr>"

definition sim_start :: "node nodeState" where
  "sim_start = \<lparr>world = empty_node, events = [], isDirect = False\<rparr>"

definition sim_pv :: PersistentVolume where
  "sim_pv = \<lparr>pv_Name = ''v'', pv_Annotations = None, pv_Capacity = [''storage'' \<mapsto> 5 * Gi_bytes],
     pv_CSI = Some [''vgName'' \<mapsto> ''g'']\<rparr>"

lemma sim_laws: "node_laws (sim_host sim_pv) id sim_volumes sim_targets"
  by (rule sim_node_laws)
     (auto simp: GetVGNameFromCsiPV_def GetAllocatedInfoFromPVAnnotation_def sim_pv_def Let_def name_char_def is_alnum_def split: if_splits)

lemma sample_names: "name_MatchString ''g''" "name_MatchString ''v''"
  by (simp_all add: name_char_def is_alnum_def)

lemma sample_target: "''/t'' \<in> sim_targets"
  by (simp add: sim_targets_def trim_eval)

lemma sample_publish_ok: "publish_ok sim_volumes sim_targets sample_req" "valid_publish sample_req" "lv_device sample_req = ''/dev/g/v''"
  by (simp_all add: publish_ok_def valid_publish_def sample_req_def ctx_or_def sim_names(1) sample_names sample_target lv_device_def sample_values
      del: name_MatchString.simps)

lemma digit_spaces:
  assumes "\<And>c. c \<in> set s \<Longrightarrow> is_digit c \<or> c = CHR ''-''"
  shows "space_len s = 0" "rspace_len s = 0"
proof -
  have no: "\<not> ascii_space c" "\<not> narrow_space x c" "\<not> narrow_space c x" "\<not> wide_space c x y" if "is_digit c \<or> c = CHR ''-''" for c x y
    using that by (auto simp: is_digit_def ascii_space_def narrow_space_def wide_space_def)
  show "space_len s = 0" "rspace_len s = 0"
    using assms no by (auto simp: space_len_def rspace_len_def split: list.split)
qed

lemma show_int_trim: "TrimSpace (show_int a) = show_int a"
  using digit_spaces [of "show_int a"] digit_spaces [of "rev (show_int a)"] show_int_chars [of _ a]
  by (simp add: TrimSpace_def TrimLeftSpace_id TrimRightSpace_id)

lemma size_answer: "Split (show_int a @ ''.00'') ''.'' ! 0 = show_int a"
proof -
  have "CHR ''.'' \<notin> set (show_int a)" using show_int_chars [of "CHR ''.''" a] by (auto simp: is_digit_def)
  from Split_char_append [OF this, of "''00''"] show ?thesis by simp
qed

text \<open>The example has a group on one physical volume, with room for volumes of up to 64 GiB.\<close>

definition sim_group :: volume_group where
  "sim_group = \<lparr>pv_count = 1, new_room = (\<lambda>_ _. 64 * Gi_bytes), grow_room = (\<lambda>_. 64 * Gi_bytes)\<rparr>"

lemma sim_healthy_lvm:
  assumes "name_MatchString vg" and "name_MatchString vol"
  shows "healthy_lvm (sim_host pv) id sim_group vg vol"
proof -
  have "Atoi ''1'' = Inr 1" "TrimSpace ''1'' = ''1''"
    by (simp_all add: Atoi_def parse_int64_def ParseUint_def is_digit_def digit_val_def trim_eval)
  then show ?thesis
    using sim_queries [of _ vg]
    by (auto simp: healthy_lvm_def works_def Let_def sim_exec_def vg_queries_def sim_create [OF assms] sim_extend [OF assms]
        sim_size [OF assms] size_answer show_int_trim ParseInt_show sim_group_def)
qed

lemma sim_healthy_fs: "healthy_fs (sim_host pv) id d t f opts"
  by (auto simp: healthy_fs_def works_def sim_exec_def tool_failed_def blkid_ext4 IsNotExist_def trim_eval split: if_splits)

lemma sim_umount: "works P (\<lambda>_ _. True) id (exec_combined (sim_host pv) ''umount'' [t])"
  by (simp add: works_def sim_exec_def)

end
