(* ===== verification/Lvm_Service.thy ===== *)
theory Lvm_Service
  imports Lvm_Liveness
begin

text \<open>
  The node service over its life: sequences of requests with restarts of the process in between, as a refinement of the abstract
  node; what one publish and a publish with its unpublish do to the node; and what becomes of two publish requests
  that run at the same time.
\<close>

section \<open>Sequences of requests\<close>

text \<open>A restart creates the server anew (\<open>NewNodeServer\<close>), with \<open>isDirect\<close> false.\<close>

datatype request =
    Publish NodePublishVolumeRequest
  | Unpublish NodeUnpublishVolumeRequest
  | Expand NodeExpandVolumeRequest
  | Restart

fun serve_request :: "'w host \<Rightarrow> ('w, 'z nodeState_ext) nodeServer \<Rightarrow> request \<Rightarrow> ('w, 'z, unit) nprog" where
  "serve_request h ns (Publish req) = do { NodePublishVolume h ns req; State_Monad.return () }"
| "serve_request h ns (Unpublish req) = do { NodeUnpublishVolume h ns req; State_Monad.return () }"
| "serve_request h ns (Expand req) = do { NodeExpandVolume h ns req; State_Monad.return () }"
| "serve_request h ns Restart = setDirect False"

fun serve_requests :: "'w host \<Rightarrow> ('w, 'z nodeState_ext) nodeServer \<Rightarrow> request list \<Rightarrow> ('w, 'z, unit) nprog" where
  "serve_requests h ns [] = State_Monad.return ()"
| "serve_requests h ns (r # rs) = do { serve_request h ns r; serve_requests h ns rs }"

fun request_ok :: "volume_name set \<Rightarrow> string set \<Rightarrow> request \<Rightarrow> bool" where
  "request_ok N T (Publish req) = publish_ok N T req"
| "request_ok N T (Unpublish req) = (unpub_TargetPath req \<in> T)"
| "request_ok N T (Expand req) = (exp_VolumeId req = [] \<or> exp_VolumeId req \<in> snd ` N)"
| "request_ok N T Restart = True"

text \<open>A mount goes away only when its target is unpublished.\<close>

definition keeps_mounts :: "string set \<Rightarrow> node \<Rightarrow> node \<Rightarrow> bool" where
  "keeps_mounts U n n' \<longleftrightarrow> (\<forall>t d. t \<notin> U \<longrightarrow> mounted_on n t = Some d \<longrightarrow> mounted_on n' t = Some d)"

fun unpublished :: "request \<Rightarrow> string set" where
  "unpublished (Unpublish req) = {unpub_TargetPath req}"
| "unpublished _ = {}"

lemma published_effect: "published req ok n n' \<Longrightarrow> moves n n' \<and> keeps_mounts {} n n'"
  unfolding published_def Let_def keeps_mounts_def within_def by (metis option.distinct(1))

lemma extended_effect: "extended d n n' \<Longrightarrow> moves n n' \<and> keeps_mounts {} n n'"
  using extended_within [of d n n' "[]"] by (auto simp: keeps_mounts_def dest: within_moves)

lemma keeps_mounts_trans: "keeps_mounts U a b \<Longrightarrow> keeps_mounts W b c \<Longrightarrow> keeps_mounts (U \<union> W) a c"
  by (simp add: keeps_mounts_def)

lemma view_serve_request:
  assumes "node_laws h v N T" and "request_ok N T r"
  shows "ensures v n (serve_request h (NewNodeServer h i) r) (\<lambda>_ n'. moves n n' \<and> keeps_mounts (unpublished r) n n')"
proof (cases r)
  case (Publish req)
  with assms show ?thesis
    by (auto intro!: ensures_seq [OF view_NodePublishVolume] view_rules dest: published_effect)
next
  case (Unpublish req)
  have "moves n n' \<and> keeps_mounts {t} n n'" if "n' = n \<or> n' = n\<lparr>mounted_on := (mounted_on n)(t := None)\<rparr>" for n' t
    using that within_moves [OF within_unmount] by (auto simp: keeps_mounts_def)
  with Unpublish assms show ?thesis
    by (auto intro!: ensures_seq [OF view_NodeUnpublishVolume] view_rules)
next
  case (Expand req)
  with assms show ?thesis
    by (auto intro!: ensures_seq [OF view_NodeExpandVolume] view_rules dest: extended_effect)
next
  case Restart
  then show ?thesis by (auto intro!: view_setDirect simp: keeps_mounts_def)
qed

lemma view_serve_requests:
  assumes "node_laws h v N T" and "list_all (request_ok N T) rs"
  shows "ensures v n (serve_requests h (NewNodeServer h i) rs) (\<lambda>_ n'. moves n n' \<and> keeps_mounts (\<Union> (unpublished ` set rs)) n n')"
  using assms(2)
proof (induction rs arbitrary: n)
  case Nil
  show ?case by (auto intro: view_rules simp: keeps_mounts_def)
next
  case (Cons r rs)
  then show ?case
    by (auto intro!: ensures_seq [OF view_serve_request [OF assms(1)]] ensures_weaken [OF Cons.IH]
          intro: moves_trans keeps_mounts_trans)
qed

text \<open>The node before and after a program.\<close>

definition node_before :: "('w \<Rightarrow> node) \<Rightarrow> ('w, 'z) sys_scheme \<Rightarrow> node" where
  "node_before v s = v (world s)"

definition node_after :: "('w \<Rightarrow> node) \<Rightarrow> ('w, 'z, 'a) prog \<Rightarrow> ('w, 'z) sys_scheme \<Rightarrow> node" where
  "node_after v m s = v (world (snd (run_state m s)))"

lemma ensures_at: "ensures v (node_before v s) m Q \<Longrightarrow> Q (result m s) (node_after v m s)"
  by (simp add: ensures_def node_before_def node_after_def result_def)

lemma ensures_node: "(\<And>n. ensures v n m (Q n)) \<Longrightarrow> Q (node_before v s) (result m s) (node_after v m s)"
  by (simp add: ensures_def node_before_def node_after_def result_def)

section \<open>Properties\<close>

text \<open>
  The examples run on the simulated node, with the sample request, its unpublish request, an expansion and a restart.
\<close>

definition sample_expand :: NodeExpandVolumeRequest where
  "sample_expand = \<lparr>exp_VolumeId = ''v'', exp_VolumePath = ''/t'', exp_RequiredBytes = Some (8 * Gi_bytes)\<rparr>"

definition sim_unpub :: NodeUnpublishVolumeRequest where
  "sim_unpub = \<lparr>unpub_VolumeId = ''v'', unpub_TargetPath = ''/t''\<rparr>"

definition sample_life :: "request list" where
  "sample_life = [Publish sample_req, Restart, Expand sample_expand, Publish sample_req, Unpublish sim_unpub]"

lemma sample_volume: "(''g'', ''v'') \<in> sim_volumes" "''v'' \<in> snd ` sim_volumes"
  using sample_names by (simp_all add: sim_names(1) image_iff sim_volumes_def del: name_MatchString.simps) blast

lemma sample_life_ok: "list_all (request_ok sim_volumes sim_targets) sample_life"
  by (simp add: sample_life_def sample_publish_ok sim_unpub_def sample_expand_def sample_volume sample_target)

lemma sample_publishable: "publishable (sim_host sim_pv) id sim_volumes sim_targets sim_group sample_req (5 * Gi_bytes)"
proof -
  have "ctx_or (pub_VolumeContext sample_req) ''vgName'' [] = ''g''" "pub_VolumeId sample_req = ''v''"
    "\<not> direct_of (pub_VolumeContext sample_req)" "ctx_or (pub_VolumeContext sample_req) ''fsType'' ''ext4'' \<noteq> []"
    "creatable (ctx_or (pub_VolumeContext sample_req) ''pvType'' ''clouddisk'') (ctx_or (pub_VolumeContext sample_req) ''lvmType'' ''linear'')"
    by (simp_all add: sample_req_def ctx_or_def direct_of_def creatable_def)
  then show ?thesis
    by (simp add: publishable_def Let_def sample_publish_ok sim_healthy_lvm sim_healthy_fs sample_names has_capacity_def
        sim_pv_def storage_bytes_def Gi_bytes_def del: name_MatchString.simps)
qed

lemma sample_ready: "sizes_ready (sim_host sim_pv) sim_group sample_req (5 * Gi_bytes) empty_node" "files_ready sample_req empty_node"
  by (simp_all add: sizes_ready_def files_ready_def empty_node_def api_answers_def sim_group_def Gi_bytes_def)

lemma sim_start_node: "node_before id sim_start = empty_node" "lv_size empty_node d = None" "mounted_on empty_node t = None"
  by (simp_all add: node_before_def sim_start_def empty_node_def)

text \<open>
  C1: The node service refines the abstract node: whatever requests it serves, in whatever order and with restarts between
  them, and however the commands fail, the node is changed only by the moves a storage driver may make: a new volume, a file system on a
  device without one, a mount of a device with a file system on a path where nothing is mounted, an unmount, an extension.
\<close>

theorem service_refines_node:
  assumes "node_laws h v N T" and "list_all (request_ok N T) rs"
  shows "moves (node_before v s) (node_after v (serve_requests h (NewNodeServer h i) rs) s)"
  using ensures_node [OF view_serve_requests [OF assms]] by blast

theorem service_refines_node_witness:
  "node_laws (sim_host sim_pv) id sim_volumes sim_targets \<and> list_all (request_ok sim_volumes sim_targets) sample_life \<and>
   moves empty_node (node_after id (serve_requests (sim_host sim_pv) (NewNodeServer (sim_host sim_pv) ''n'') sample_life) sim_start)"
  using service_refines_node [OF sim_laws sample_life_ok, of sim_start "''n''"] sim_laws sample_life_ok by (simp add: sim_start_node)

text \<open>
  C2: No sequence of requests destroys data: every file system on a device stays the one it was, no volume goes away or
  shrinks, every mount stays unless its target is unpublished, and the node stays well-formed (what is mounted has a file system, and
  file systems are on volumes).
\<close>

theorem service_keeps_data:
  assumes "node_laws h v N T" and "list_all (request_ok N T) rs"
  shows "let n = node_before v s; n' = node_after v (serve_requests h (NewNodeServer h i) rs) s in
     (\<forall>d x. fs_on n d = Some x \<longrightarrow> fs_on n' d = Some x) \<and>
     (\<forall>d a. lv_size n d = Some a \<longrightarrow> (\<exists>b. lv_size n' d = Some b \<and> a \<le> b)) \<and>
     (\<forall>t d. t \<notin> \<Union> (unpublished ` set rs) \<longrightarrow> mounted_on n t = Some d \<longrightarrow> mounted_on n' t = Some d) \<and>
     (node_ok n \<longrightarrow> node_ok n')"
proof -
  from ensures_node [OF view_serve_requests [OF assms]]
  have "moves (node_before v s) (node_after v (serve_requests h (NewNodeServer h i) rs) s)"
    and "keeps_mounts (\<Union> (unpublished ` set rs)) (node_before v s) (node_after v (serve_requests h (NewNodeServer h i) rs) s)"
    by blast+
  then show ?thesis
    using moves_keep_data moves_ok unfolding keeps_data_def keeps_mounts_def Let_def by blast
qed

definition used_start :: "node nodeState" where
  "used_start = sim_start\<lparr>world := \<lparr>lv_size = [''/dev/g/v'' \<mapsto> 4 * Gi_bytes], fs_on = [''/dev/g/v'' \<mapsto> (''ext4'', 7)],
     mounted_on = [''/x'' \<mapsto> ''/dev/g/v''], made = 8\<rparr>\<rparr>"

theorem service_keeps_data_witness:
  "node_laws (sim_host sim_pv) id sim_volumes sim_targets \<and> list_all (request_ok sim_volumes sim_targets) sample_life \<and>
   (let n' = node_after id (serve_requests (sim_host sim_pv) (NewNodeServer (sim_host sim_pv) ''n'') sample_life) used_start in
    fs_on n' ''/dev/g/v'' = Some (''ext4'', 7) \<and> mounted_on n' ''/x'' = Some ''/dev/g/v'' \<and> node_ok n')"
proof -
  have "node_ok (node_before id used_start)" and "''/x'' \<notin> \<Union> (unpublished ` set sample_life)"
    by (simp_all add: node_ok_def node_before_def used_start_def sample_life_def sim_unpub_def)
  then show ?thesis
    using service_keeps_data [OF sim_laws sample_life_ok, of used_start "''n''"] sim_laws sample_life_ok
    by (simp add: Let_def node_before_def used_start_def)
qed

text \<open>
  C4: A publish request concerns its own volume and target path alone: no other path is mounted or unmounted, no other device is created, formatted or
  resized, and what is mounted on the target stays. When it succeeds for a volume that is not direct and nothing was
  mounted on the target, the device of the request is mounted there and has a file system.
\<close>

theorem publish_on_node:
  assumes "node_laws h v N T" and "publish_ok N T req"
  shows "let n = node_before v s; p = NodePublishVolume h (NewNodeServer h i) req; n' = node_after v p s;
       t = pub_TargetPath req; d = lv_device req in
     (\<forall>x. x \<noteq> t \<longrightarrow> mounted_on n' x = mounted_on n x) \<and>
     (\<forall>x. x \<noteq> d \<longrightarrow> fs_on n' x = fs_on n x \<and> lv_size n' x = lv_size n x) \<and>
     (mounted_on n t \<noteq> None \<longrightarrow> mounted_on n' t = mounted_on n t) \<and>
     (result p s = Done (Inr ()) \<longrightarrow> \<not> direct_of (pub_VolumeContext req) \<longrightarrow> mounted_on n t = None \<longrightarrow>
        mounted_on n' t = Some d \<and> fs_on n' d \<noteq> None)"
  using ensures_node [OF view_NodePublishVolume [OF assms], of i s]
  unfolding published_def within_def Let_def by blast

theorem publish_on_node_witness:
  "node_laws (sim_host sim_pv) id sim_volumes sim_targets \<and> publish_ok sim_volumes sim_targets sample_req \<and>
   mounted_on (node_after id (NodePublishVolume (sim_host sim_pv) (NewNodeServer (sim_host sim_pv) ''n'') sample_req) sim_start) ''/t'' =
     Some ''/dev/g/v''"
proof -
  have "result (NodePublishVolume (sim_host sim_pv) (NewNodeServer (sim_host sim_pv) ''n'') sample_req) sim_start = Done (Inr ())"
    by (rule ensures_at [OF live_NodePublishVolume [OF sim_laws sample_publishable]]) (simp_all add: sim_start_node sample_ready)
  then show ?thesis
    using publish_on_node [OF sim_laws sample_publish_ok(1), of sim_start "''n''"] sim_laws sample_publish_ok
      publishableD(3) [OF sample_publishable]
    by (simp add: Let_def sim_start_node sample_req_def)
qed

text \<open>
  C8: Unpublishing undoes publishing: when both requests name the same target, nothing was mounted there before and
  the unpublish request succeeds, all mounts are as before, whatever became of the publish request. The volumes and their file systems stay: the
  unpublish request leaves every file system and every size as the publish request left them, the volume and the file system that it has just made included; and of what
  there was before both, no file system was replaced, no volume removed or made smaller, and nothing but the device of the request changed.
\<close>

theorem unpublish_undoes_publish:
  assumes "node_laws h v N T" and "publish_ok N T req" and "unpub_TargetPath u = pub_TargetPath req" and "pub_TargetPath req \<in> T"
    and "mounted_on (node_before v s) (pub_TargetPath req) = None"
    and "result (do { NodePublishVolume h (NewNodeServer h i) req; NodeUnpublishVolume h (NewNodeServer h i) u }) s = Inr ()"
  shows "let n = node_before v s; m = node_after v (NodePublishVolume h (NewNodeServer h i) req) s;
       n' = node_after v (do { NodePublishVolume h (NewNodeServer h i) req; NodeUnpublishVolume h (NewNodeServer h i) u }) s in
     mounted_on n' = mounted_on n \<and> fs_on n' = fs_on m \<and> lv_size n' = lv_size m \<and>
     (\<forall>x. x \<noteq> lv_device req \<longrightarrow> fs_on n' x = fs_on n x \<and> lv_size n' x = lv_size n x) \<and>
     (\<forall>x y. fs_on n x = Some y \<longrightarrow> fs_on n' x = Some y) \<and>
     (\<forall>x a. lv_size n x = Some a \<longrightarrow> (\<exists>b. lv_size n' x = Some b \<and> a \<le> b))"
proof -
  let ?t = "pub_TargetPath req" and ?n = "node_before v s"
  let ?m = "node_after v (NodePublishVolume h (NewNodeServer h i) req) s"
  let ?n' = "node_after v (do { NodePublishVolume h (NewNodeServer h i) req; NodeUnpublishVolume h (NewNodeServer h i) u }) s"
  let ?s' = "snd (run_state (NodePublishVolume h (NewNodeServer h i) req) s)"
  have after: "node_before v ?s' = ?m" "node_after v (NodeUnpublishVolume h (NewNodeServer h i) u) ?s' = ?n'"
    "result (NodeUnpublishVolume h (NewNodeServer h i) u) ?s' = Inr ()"
    using assms(6) by (simp_all add: node_before_def node_after_def result_def split: prod.splits)
  have "within ?t (lv_device req) ?n ?m"
    using ensures_node [OF view_NodePublishVolume [OF assms(1,2)], of i s] by (simp add: published_def Let_def)
  moreover have "(?n' = ?m \<or> ?n' = ?m\<lparr>mounted_on := (mounted_on ?m)(?t := None)\<rparr>) \<and> mounted_on ?n' ?t = None"
    using ensures_node [OF view_NodeUnpublishVolume [OF assms(1), of u], of i ?s'] assms(3,4) after by simp
  ultimately have gone: "within ?t (lv_device req) ?n ?n'" "mounted_on ?n' ?t = None" "fs_on ?n' = fs_on ?m" "lv_size ?n' = lv_size ?m"
    using within_trans [OF _ within_unmount] by auto
  then have "mounted_on ?n' = mounted_on ?n"
    using assms(5) by (auto simp: within_def fun_eq_iff) metis
  with gone moves_keep_data [OF within_moves [OF gone(1)]] show ?thesis
    unfolding within_def keeps_data_def Let_def by blast
qed

theorem unpublish_undoes_publish_witness:
  "node_laws (sim_host sim_pv) id sim_volumes sim_targets \<and> publish_ok sim_volumes sim_targets sample_req \<and>
   mounted_on (node_after id (do {
     NodePublishVolume (sim_host sim_pv) (NewNodeServer (sim_host sim_pv) ''n'') sample_req;
     NodeUnpublishVolume (sim_host sim_pv) (NewNodeServer (sim_host sim_pv) ''n'') sim_unpub }) sim_start) = Map.empty"
proof -
  have same: "unpub_TargetPath sim_unpub = pub_TargetPath sample_req" "pub_TargetPath sample_req \<in> sim_targets"
    by (simp_all add: sim_unpub_def sample_req_def sample_target)
  have ok: "result (do { NodePublishVolume (sim_host sim_pv) (NewNodeServer (sim_host sim_pv) ''n'') sample_req;
      NodeUnpublishVolume (sim_host sim_pv) (NewNodeServer (sim_host sim_pv) ''n'') sim_unpub }) sim_start = Inr ()"
    by (rule ensures_at [OF ensures_seq [OF live_NodePublishVolume [OF sim_laws sample_publishable]
          live_NodeUnpublishVolume [OF sim_laws sim_healthy_fs]]])
       (simp_all add: sim_start_node sample_ready sim_unpub_def sample_target sim_umount del: sim_host_parts(1))
  show ?thesis
    using unpublish_undoes_publish [OF sim_laws sample_publish_ok(1) same _ ok] sim_laws sample_publish_ok
    by (simp add: sim_start_node Let_def empty_node_def)
qed

text \<open>
  C6: On a healthy node publishing succeeds. The hypotheses are: the tools follow their laws and do what they are documented to do; the request is
  not for a direct volume, and its volume is linear (or striped on local disks) with a capacity of whole GiB; and the node is ready. Ready means: a missing volume has
  room in its group and the API server answers, an existing one that is too small has room to grow; the device
  has no file system or one of the type of the request; on the target nothing is mounted, or the device itself. Then the request is answered with
  success and afterwards the device is mounted on the target, whether the volume, its file system and the mount were there already or not.
  (For a capacity that is not a whole number of GiB the resize of an existing volume may fail, and \<open>mount\<close> fails for a file system of another type.)
\<close>

theorem publish_succeeds:
  assumes "node_laws h v N T" and "publishable h v N T G req c"
    and "sizes_ready h G req c (node_before v s)" and "files_ready req (node_before v s)"
  shows "result (NodePublishVolume h (NewNodeServer h i) req) s = Done (Inr ()) \<and>
     mounted_on (node_after v (NodePublishVolume h (NewNodeServer h i) req) s) (pub_TargetPath req) = Some (lv_device req)"
proof -
  have ok: "result (NodePublishVolume h (NewNodeServer h i) req) s = Done (Inr ())"
    by (rule ensures_at [OF live_NodePublishVolume [OF assms]])
  moreover have "published req True (node_before v s) (node_after v (NodePublishVolume h (NewNodeServer h i) req) s)"
    using ensures_node [OF view_NodePublishVolume [OF assms(1) publishableD(2) [OF assms(2)]], of i s] ok publishableD(3) [OF assms(2)]
    by simp
  ultimately show ?thesis using assms(4) by (auto simp: published_def files_ready_def Let_def)
qed

theorem publish_succeeds_witness:
  "node_laws (sim_host sim_pv) id sim_volumes sim_targets \<and>
   publishable (sim_host sim_pv) id sim_volumes sim_targets sim_group sample_req (5 * Gi_bytes) \<and>
   result (NodePublishVolume (sim_host sim_pv) (NewNodeServer (sim_host sim_pv) ''n'') sample_req) sim_start = Done (Inr ())"
  using publish_succeeds [OF sim_laws sample_publishable, of sim_start "''n''"] sim_laws sample_publishable
  by (simp add: sim_start_node sample_ready)

section \<open>Two publish requests at the same time\<close>

text \<open>
  The gRPC server runs each request in a goroutine of its own, and \<open>isDirect\<close> is a field of the shared server: a handler sets it before
  step 3 and reads it in step 4. \<open>publish_begin\<close> and \<open>publish_end\<close> are the two parts of the handler of a request
  with all arguments; the second part is written with the flag it reads as an argument of \<open>publish_as\<close>.
\<close>

definition publish_begin :: "'w host \<Rightarrow> NodePublishVolumeRequest \<Rightarrow> ('w, 'z, bool \<times> goerror option) nprog" where
  "publish_begin h req = do { setDirect (direct_of (pub_VolumeContext req)); publish_prepare h req }"

definition publish_as ::
  "'w host \<Rightarrow> ('w, 'z) nodeServer \<Rightarrow> NodePublishVolumeRequest \<Rightarrow> bool \<Rightarrow> bool \<times> goerror option \<Rightarrow>
     ('w, 'z, (goerror + unit) outcome) prog" where
  "publish_as h ns req direct st =
     (let fsType = ctx_or (pub_VolumeContext req) ''fsType'' ''ext4'' in
      case snd st of
        Some err \<Rightarrow> State_Monad.return (Done (Inl (StatusError Aborted
          (''vgName/pvType/lvmType/volumeID not found, err: '' @ Error (quote h) err))))
      | None \<Rightarrow>
          if direct then do {
            a \<leftarrow> addDirectVolume h (pub_TargetPath req) (device_of req) fsType;
            case a of
              Some err \<Rightarrow> State_Monad.return (Done (Inl (StatusError Internal
                (''addDirectVolume failed: '' @ Error (quote h) err))))
            | None \<Rightarrow> State_Monad.return (Done (Inr ()))
          }
          else publish_volume h ns req (ctx_or (pub_VolumeContext req) ''vgName'' []) fsType (device_of req) (fst st))"

definition publish_end ::
  "'w host \<Rightarrow> ('w, 'z nodeState_ext) nodeServer \<Rightarrow> NodePublishVolumeRequest \<Rightarrow> bool \<times> goerror option \<Rightarrow>
     ('w, 'z, (goerror + unit) outcome) nprog" where
  "publish_end h ns req st = do { direct \<leftarrow> getDirect; publish_as h ns req direct st }"

lemma publish_as_own: "publish_as h ns req (direct_of (pub_VolumeContext req)) st = publish_finish h ns req (fst st) (snd st)"
  by (simp add: publish_as_def publish_finish_def)

lemma publish_in_parts:
  assumes "valid_publish req"
  shows "NodePublishVolume h ns req = do { st \<leftarrow> publish_begin h req; publish_end h ns req st }"
    and "NodePublishVolume h ns req = do { st \<leftarrow> publish_begin h req; publish_as h ns req (direct_of (pub_VolumeContext req)) st }"
proof -
  show own: "NodePublishVolume h ns req = do { st \<leftarrow> publish_begin h req; publish_as h ns req (direct_of (pub_VolumeContext req)) st }"
    unfolding NodePublishVolume_eq [OF assms] publish_begin_def by (simp add: publish_as_own case_prod_beta')
  show "NodePublishVolume h ns req = do { st \<leftarrow> publish_begin h req; publish_end h ns req st }"
    unfolding own publish_begin_def publish_end_def
    using getDirect_known [OF publish_prepare_keeps, of _ h req "\<lambda>st d. publish_as h ns req d st"] by simp
qed

lemma publish_flag:
  assumes "valid_publish req" and "run_state (NodePublishVolume h (NewNodeServer h i) req) s = (a, s')"
  shows "isDirect s' = direct_of (pub_VolumeContext req)"
  using publish_sets_flag [OF assms(1), of h i s] assms(2) by simp

text \<open>
  C10: Two publish requests that overlap share the flag for direct volumes: when the handler of a second
  request runs between the two parts of the first, the first request goes on as if it were direct exactly when the
  second one is, whatever its own attributes say. A direct volume may so be formatted and mounted on the
  host, and an ordinary one registered as direct and never mounted. A request that runs alone follows its own attributes.
\<close>

theorem concurrent_publish_shares_flag:
  assumes "valid_publish a" and "valid_publish b"
  shows "do { st \<leftarrow> publish_begin h a; NodePublishVolume h (NewNodeServer h i) b; publish_end h (NewNodeServer h i) a st } =
       do { st \<leftarrow> publish_begin h a; NodePublishVolume h (NewNodeServer h i) b;
            publish_as h (NewNodeServer h i) a (direct_of (pub_VolumeContext b)) st } \<and>
     NodePublishVolume h (NewNodeServer h i) a = do { st \<leftarrow> publish_begin h a; publish_end h (NewNodeServer h i) a st } \<and>
     NodePublishVolume h (NewNodeServer h i) a =
       do { st \<leftarrow> publish_begin h a; publish_as h (NewNodeServer h i) a (direct_of (pub_VolumeContext a)) st }"
  by (intro conjI publish_in_parts [OF assms(1)] state_ext)
     (auto simp: publish_end_def getDirect_def split: prod.split dest: publish_flag [OF assms(2)])

theorem concurrent_publish_shares_flag_witness:
  "valid_publish direct_req \<and> valid_publish sample_req \<and> direct_of (pub_VolumeContext direct_req) \<and>
   (let both = do {
        st \<leftarrow> publish_begin blank_host direct_req;
        NodePublishVolume blank_host (NewNodeServer blank_host ''n'') sample_req;
        publish_end blank_host (NewNodeServer blank_host ''n'') direct_req st }
    in result both nstart = Done (Inr ()) \<and> (\<forall>p mi r. VolumeAddEv p mi r \<notin> set (new_events both nstart)))"
proof -
  have v: "valid_publish direct_req" "valid_publish sample_req" "direct_of (pub_VolumeContext direct_req)"
    by (simp_all add: valid_publish_def direct_req_def sample_req_def ctx_or_def direct_of_def ParseBool_def)
  show ?thesis
    unfolding concurrent_publish_shares_flag [OF v(1,2), THEN conjunct1] using v
    by (simp add: publish_begin_def publish_prepare_def publish_as_def node_eval blank_host_simps device_of_def direct_req_def
        sample_req_def nstart_def)
qed

end
