(* ===== verification/Lvm_Race.thy ===== *)
theory Lvm_Race
  imports Lvm_Service
begin

text \<open>
  Why requests for the same volume must not overlap: a history on the simulated node in which a publish request checks a device
  without a file system, another request for the same volume then publishes it, has it used and unpublishes it, and
  the first request goes on with its check and formats the device again. The in-flight table of \<open>inflight.go\<close> (theory \<open>Lvm_InFlight\<close>)
  would rule this out, but no handler uses it.
\<close>

text \<open>A node on which \<open>g\<close> happens just before the first \<open>mkfs\<close>.\<close>

definition race_exec :: "(node \<Rightarrow> node) \<Rightarrow> string \<Rightarrow> string list \<Rightarrow> node \<times> bool \<Rightarrow> (string \<times> goerror option) \<times> node \<times> bool" where
  "race_exec g p args w =
     (let first = (p = ''mkfs'' \<and> snd w);
          (r, n) = sim_exec p args (if first then g (fst w) else fst w)
      in (r, n, snd w \<and> \<not> first))"

definition race_host :: "PersistentVolume \<Rightarrow> (node \<Rightarrow> node) \<Rightarrow> (node \<times> bool) host" where
  "race_host pv g = quiet_host\<lparr>
     exec_combined := race_exec g,
     os_stat := (\<lambda>p w. (fst (os_stat (sim_host pv) p (fst w)), w)),
     get_pv := (\<lambda>p w. (Inr pv, w))\<rparr>"

text \<open>The volume of the sample request is there and has no file system.\<close>

definition blank_volume :: node where
  "blank_volume = empty_node\<lparr>lv_size := [''/dev/g/v'' \<mapsto> 5 * Gi_bytes]\<rparr>"

definition other_request :: "node \<Rightarrow> node" where
  "other_request n = node_after id (do {
     NodePublishVolume (sim_host sim_pv) (NewNodeServer (sim_host sim_pv) ''n'') sample_req;
     NodeUnpublishVolume (sim_host sim_pv) (NewNodeServer (sim_host sim_pv) ''n'') sim_unpub }) (sim_start\<lparr>world := n\<rparr>)"

lemma race_host_parts [simp]:
  "exec_combined (race_host pv g) = race_exec g" "get_pv (race_host pv g) p w = (Inr pv, w)"
  "os_stat (race_host pv g) p w = (fst (os_stat (sim_host pv) p (fst w)), w)"
  "os_mkdirall (race_host pv g) p m w = (None, w)" "resize_fs (race_host pv g) p q w = (Inr True, w)"
  by (simp_all add: race_host_def quiet_host_def)

lemma sample_size:
  "sim_sh (lv_size_cmd ''/dev/g/v'') n = (case lv_size n ''/dev/g/v'' of None \<Rightarrow> tool_failed n
     | Some a \<Rightarrow> if is_int64 a then ((show_int a @ ''.00'', None), n) else tool_failed n)"
  using sim_size [OF sample_names] by (simp add: sample_values)

lemma sample_capacity: "pv_info sim_pv = (5, 5 * Gi_bytes, ''g'', Some sim_pv)" "is_int64 (5 * Gi_bytes)"
  by (simp_all add: pv_info_def sim_pv_def storage_bytes_def Gi_bytes_def go_div_nonneg is_int64_def min_int64_def max_int64_def)

lemma sample_trim: "TrimSpace ''/t'' = ''/t''"
  by (simp add: trim_eval)

lemma blank_fields: "lv_size blank_volume = [''/dev/g/v'' \<mapsto> 5 * Gi_bytes]" "fs_on blank_volume = Map.empty"
  "mounted_on blank_volume = Map.empty" "made blank_volume = 0"
  by (simp_all add: blank_volume_def empty_node_def)

lemmas race_eval = sample_trim blank_fields node_eval sample_size sample_capacity size_answer show_int_trim ParseInt_show sim_exec_def sim_start_def sample_req_def
  sim_unpub_def blkid_ext4 format_fs_def

lemma other_request_blank:
  "other_request blank_volume = blank_volume\<lparr>fs_on := [''/dev/g/v'' \<mapsto> (''ext4'', 0)], made := 1\<rparr>"
  by (simp add: other_request_def node_after_def race_eval)

text \<open>
  The request succeeds, but the file system that the other request made and used is gone: the device has another one.
\<close>

theorem stale_check_formats_again:
  "let p = NodePublishVolume (race_host sim_pv other_request) (NewNodeServer (race_host sim_pv other_request) ''n'') sample_req;
       s = \<lparr>world = (blank_volume, True), events = [], isDirect = False\<rparr>
   in fs_on (other_request blank_volume) ''/dev/g/v'' = Some (''ext4'', 0) \<and>
      result p s = Done (Inr ()) \<and> fs_on (node_after fst p s) ''/dev/g/v'' = Some (''ext4'', 1)"
  by (simp add: node_after_def race_eval race_exec_def other_request_blank)

end
