(* ===== verification/Lvm_Concurrent.thy ===== *)
theory Lvm_Concurrent
  imports Lvm_Race
begin

text \<open>
  Requests for different volumes at the same time. The gRPC server runs every handler in a goroutine of its own, so between any two
  calls of one handler others may make theirs. The argument is one of rely and guarantee. Guarantee: the handlers of requests for
  some volumes and targets make only calls that concern these (\<open>own_call\<close>), and such calls leave every other volume and target as it is.
  Rely: under the laws, what a handler does to its part of the node is the same whether or not such calls of others come between its own.
\<close>

section \<open>The part of a node\<close>

definition node_part :: "volume_name set \<Rightarrow> string set \<Rightarrow> node \<Rightarrow> node" where
  "node_part N T n = \<lparr>lv_size = lv_size n |` devs N, fs_on = fs_on n |` devs N, mounted_on = mounted_on n |` T, made = 0\<rparr>"

lemma node_part_fields [simp]:
  "lv_size (node_part N T n) = lv_size n |` devs N" "fs_on (node_part N T n) = fs_on n |` devs N"
  "mounted_on (node_part N T n) = mounted_on n |` T"
  by (simp_all add: node_part_def)

text \<open>The changes of the tools, seen in a part: all of it when they concern it, nothing when they do not.\<close>

lemma part_size:
  "node_part N T (n\<lparr>lv_size := (lv_size n)(d := x)\<rparr>) =
     (if d \<in> devs N then (node_part N T n)\<lparr>lv_size := (lv_size (node_part N T n))(d := x)\<rparr> else node_part N T n)"
  by (auto simp: node_part_def restrict_map_def fun_eq_iff)

lemma part_mount:
  "node_part N T (n\<lparr>mounted_on := (mounted_on n)(t := x)\<rparr>) =
     (if t \<in> T then (node_part N T n)\<lparr>mounted_on := (mounted_on (node_part N T n))(t := x)\<rparr> else node_part N T n)"
  by (auto simp: node_part_def restrict_map_def fun_eq_iff)

lemma part_format:
  "formatted d f n n' \<Longrightarrow> d \<in> devs N \<Longrightarrow> formatted d f (node_part N T n) (node_part N T n')"
  "formatted d f n n' \<Longrightarrow> d \<notin> devs N \<Longrightarrow> node_part N T n' = node_part N T n"
  by (auto simp: formatted_def node_part_def restrict_map_def fun_eq_iff)

section \<open>The calls of handlers\<close>

inductive own_command :: "volume_name set \<Rightarrow> string set \<Rightarrow> string \<Rightarrow> string list \<Rightarrow> bool" for N T where
  search: "t \<in> T \<Longrightarrow> own_command N T ''grep'' [t, ''/proc/mounts'']"
| kind: "d \<in> devs N \<Longrightarrow> own_command N T ''file'' [''-bsL'', d]"
| blkid: "d \<in> devs N \<Longrightarrow> own_command N T ''blkid'' [''-c'', ''/dev/null'', ''-o'', ''export'', d]"
| mkfs: "d \<in> devs N \<Longrightarrow> own_command N T ''mkfs'' [''-t'', f, d]"
| mount: "d \<in> devs N \<Longrightarrow> t \<in> T \<Longrightarrow> list_all plain_opt opts \<Longrightarrow> own_command N T ''mount'' [''-t'', f, ''-o'', Join opts '','', d, t]"
| umount: "t \<in> T \<Longrightarrow> own_command N T ''umount'' [t]"
| group: "(vg, vol) \<in> N \<Longrightarrow> cmd \<in> set (vg_queries vg) \<Longrightarrow> own_command N T ''sh'' [''-c'', cmd]"
| size: "(vg, vol) \<in> N \<Longrightarrow> own_command N T ''sh'' [''-c'', lv_size_cmd (path_Join [''/dev'', vg, vol])]"
| create: "(vg, vol) \<in> N \<Longrightarrow> u \<in> {[], ''m'', ''g''} \<Longrightarrow> own_command N T ''sh'' [''-c'', create_cmd k vol sz u vg]"
| extend: "(vg, vol) \<in> N \<Longrightarrow> u \<in> {[], ''m'', ''g''} \<Longrightarrow> own_command N T ''sh'' [''-c'', lvextend_cmd sz u (path_Join [''/dev'', vg, vol])]"

text \<open>The calls that concern only the volumes \<open>N\<close> and the targets \<open>T\<close>, and the steps of the world that they are.\<close>

fun own_call :: "volume_name set \<Rightarrow> string set \<Rightarrow> event \<Rightarrow> bool" where
  "own_call N T (ExecEv p args out err) = own_command N T p args"
| "own_call N T (StatEv p r) = True"
| "own_call N T (MkdirAllEv p r) = (p \<in> T)"
| "own_call N T (GetPVEv p r) = True"
| "own_call N T (ResizeFSEv d m r) = (d \<in> devs N)"
| "own_call N T (VolumeAddEv p mi r) = (p \<in> T)"
| "own_call N T (VolumeRemoveEv p r) = (p \<in> T)"
| "own_call N T _ = False"

fun performs :: "'w host \<Rightarrow> event \<Rightarrow> 'w \<Rightarrow> 'w \<Rightarrow> bool" where
  "performs h (ExecEv p args out err) w w' = (exec_combined h p args w = ((out, err), w'))"
| "performs h (StatEv p r) w w' = (os_stat h p w = (r, w'))"
| "performs h (MkdirAllEv p r) w w' = (\<exists>m. os_mkdirall h p m w = (r, w'))"
| "performs h (GetPVEv p r) w w' = (snd (get_pv h p w) = w')"
| "performs h (ResizeFSEv d m r) w w' = (resize_fs h d m w = (r, w'))"
| "performs h (VolumeAddEv p mi r) w w' = (volume_add h p mi w = (r, w'))"
| "performs h (VolumeRemoveEv p r) w w' = (volume_remove h p w = (r, w'))"
| "performs h _ w w' = False"

definition others :: "'w host \<Rightarrow> volume_name set \<Rightarrow> string set \<Rightarrow> 'w \<Rightarrow> 'w \<Rightarrow> bool" where
  "others h N T = (\<lambda>w w'. \<exists>e. own_call N T e \<and> performs h e w w')\<^sup>*\<^sup>*"

text \<open>What concerns other volumes and targets leaves a part of the node as it is.\<close>

definition apart :: "volume_name set \<Rightarrow> string set \<Rightarrow> volume_name set \<Rightarrow> string set \<Rightarrow> bool" where
  "apart N T N' T' \<longleftrightarrow> devs N \<inter> devs N' = {} \<and> T \<inter> T' = {}"

lemma apart_not: "apart N T N' T' \<Longrightarrow> d \<in> devs N' \<Longrightarrow> d \<notin> devs N" "apart N T N' T' \<Longrightarrow> t \<in> T' \<Longrightarrow> t \<notin> T"
  by (auto simp: apart_def)

lemma effect_apart:
  assumes "effect R v f" and "f w = ((out, err), w')" and "\<And>n n'. R n n' \<Longrightarrow> node_part N T n' = node_part N T n"
  shows "node_part N T (v w') = node_part N T (v w)"
  using assms unfolding effect_def by metis

lemma quiet_step: "quiet v f \<Longrightarrow> f w = (r, w') \<Longrightarrow> v w' = v w"
  unfolding quiet_def by (metis snd_conv)

lemma own_command_apart:
  assumes "node_laws h v N' T'" and "apart N T N' T'" and "own_command N' T' p args" and "exec_combined h p args w = ((out, err), w')"
  shows "node_part N T (v w') = node_part N T (v w)"
  using assms(3,4)
proof (induction rule: own_command.induct)
  case (mkfs d f)
  show ?case
    by (rule effect_apart [OF effects(1) [OF assms(1) mkfs(1)] mkfs(2)])
       (auto intro: part_format(2) [OF _ apart_not(1) [OF assms(2) mkfs(1)]])
next
  case (mount d t opts f)
  show ?case
    by (rule effect_apart [OF effects(2) [OF assms(1) mount(3,1,2)] mount(4)])
       (use apart_not(2) [OF assms(2) mount(2)] in \<open>auto simp: part_mount\<close>)
next
  case (umount t)
  show ?case
    by (rule effect_apart [OF effects(3) [OF assms(1) umount(1)] umount(2)])
       (use apart_not(2) [OF assms(2) umount(1)] in \<open>auto simp: part_mount\<close>)
next
  case (create vg vol u k sz)
  show ?case
    by (rule effect_apart [OF effects(4) [OF assms(1) create(1,2)] create(3)])
       (use apart_not(1) [OF assms(2) devs_in [OF create(1)]] in \<open>auto simp: part_size\<close>)
next
  case (extend vg vol u sz)
  show ?case
    by (rule effect_apart [OF effects(5) [OF assms(1) extend(1,2)] extend(3)])
       (use apart_not(1) [OF assms(2) devs_in [OF extend(1)]] in \<open>auto simp: part_size\<close>)
next
  case (search t)
  show ?case using quiet_step [OF quiet_calls(7) [OF assms(1)] search(2)] by simp
next
  case (kind d)
  show ?case using quiet_step [OF quiet_calls(8) [OF assms(1)] kind(2)] by simp
next
  case (blkid d)
  show ?case using quiet_step [OF quiet_calls(9) [OF assms(1)] blkid(2)] by simp
next
  case (group vg vol cmd)
  show ?case using quiet_step [OF quiet_commands(1) [OF assms(1) group(1,2)] group(3)] by simp
next
  case (size vg vol)
  show ?case using quiet_step [OF quiet_commands(2) [OF assms(1) size(1)] size(2)] by simp
qed

lemma own_call_apart:
  assumes "node_laws h v N' T'" and "apart N T N' T'" and "own_call N' T' e" and "performs h e w w'"
  shows "node_part N T (v w') = node_part N T (v w)"
proof -
  note q = quiet_calls(1-6) [OF assms(1), THEN quiet_step]
  have q: "v w' = v w" if "\<And>p args out err. e \<noteq> ExecEv p args out err"
    using that assms(3,4) by (cases e) (auto dest: q intro: q [OF prod.collapse [symmetric]])
  show ?thesis
  proof (cases "\<exists>p args out err. e = ExecEv p args out err")
    case True
    with assms(3,4) show ?thesis by (auto intro: own_command_apart [OF assms(1,2)])
  qed (use q assms(3,4) in auto)
qed

lemma others_apart:
  assumes "node_laws h v N' T'" and "apart N T N' T'" and "others h N' T' w w'"
  shows "node_part N T (v w') = node_part N T (v w)"
  using assms(3) unfolding others_def
  by (induction rule: rtranclp_induct) (auto dest: own_call_apart [OF assms(1,2)])

section \<open>Rely: the laws among the calls of others\<close>

text \<open>
  \<open>interleaved E h h'\<close>: each call of \<open>h'\<close> is one of \<open>h\<close> with steps \<open>E\<close> of the environment before and after it. Which steps
  these are may depend on the world, and the world may contain a clock or a script that the view does not show, so \<open>h'\<close> stands for any schedule.
\<close>

definition call_among :: "('w \<Rightarrow> 'w \<Rightarrow> bool) \<Rightarrow> ('w \<Rightarrow> 'a \<times> 'w) \<Rightarrow> ('w \<Rightarrow> 'a \<times> 'w) \<Rightarrow> bool" where
  "call_among E f f' \<longleftrightarrow> (\<forall>w r w'. f' w = (r, w') \<longrightarrow> (\<exists>w1 w2. E w w1 \<and> f w1 = (r, w2) \<and> E w2 w'))"

definition interleaved :: "('w \<Rightarrow> 'w \<Rightarrow> bool) \<Rightarrow> 'w host \<Rightarrow> 'w host \<Rightarrow> bool" where
  "interleaved E h h' \<longleftrightarrow> quote h' = quote h \<and>
     (\<forall>p args. call_among E (exec_combined h p args) (exec_combined h' p args)) \<and> (\<forall>p. call_among E (os_stat h p) (os_stat h' p)) \<and>
     (\<forall>p m. call_among E (os_mkdirall h p m) (os_mkdirall h' p m)) \<and> (\<forall>p. call_among E (get_pv h p) (get_pv h' p)) \<and>
     (\<forall>d m. call_among E (resize_fs h d m) (resize_fs h' d m)) \<and> (\<forall>p mi. call_among E (volume_add h p mi) (volume_add h' p mi)) \<and>
     (\<forall>p. call_among E (volume_remove h p) (volume_remove h' p))"

lemma interleavedD:
  assumes "interleaved E h h'"
  shows "quote h' = quote h" "call_among E (exec_combined h p args) (exec_combined h' p args)" "call_among E (os_stat h p) (os_stat h' p)"
    "call_among E (os_mkdirall h p m) (os_mkdirall h' p m)" "call_among E (get_pv h p) (get_pv h' p)"
    "call_among E (resize_fs h p q) (resize_fs h' p q)" "call_among E (volume_add h p q) (volume_add h' p q)"
    "call_among E (volume_remove h p) (volume_remove h' p)"
  using assms unfolding interleaved_def by blast+

lemma call_amongE:
  assumes "call_among E f f'" and "f' w = (r, w')"
  obtains w1 w2 where "E w w1" and "f w1 = (r, w2)" and "E w2 w'"
  using assms unfolding call_among_def by blast

text \<open>\<open>P\<close> is what the environment leaves as it is.\<close>

definition rely :: "('w \<Rightarrow> 'w \<Rightarrow> bool) \<Rightarrow> ('w \<Rightarrow> 'p) \<Rightarrow> bool" where
  "rely E P \<longleftrightarrow> (\<forall>w w'. E w w' \<longrightarrow> P w' = P w)"

lemma quiet_among:
  assumes "call_among E f f'" and "rely E (\<lambda>w. p (v w))" and "quiet v f"
  shows "quiet (\<lambda>w. p (v w)) f'"
  unfolding quiet_def
proof
  fix w
  obtain r w' where f': "f' w = (r, w')" by fastforce
  with assms(1) obtain w1 w2 where "E w w1" "f w1 = (r, w2)" "E w2 w'" by (rule call_amongE)
  with assms(2,3) f' show "p (v (snd (f' w))) = p (v w)"
    using quiet_step [OF assms(3)] by (simp add: rely_def)
qed

lemma effect_among:
  assumes "call_among E f f'" and "rely E (\<lambda>w. p (v w))" and "effect R v f" and "\<And>n n'. R n n' \<Longrightarrow> R (p n) (p n')"
  shows "effect R (\<lambda>w. p (v w)) f'"
  unfolding effect_def
proof (intro allI impI)
  fix w out err w' assume "f' w = ((out, err), w')"
  with assms(1) obtain w1 w2 where "E w w1" "f w1 = ((out, err), w2)" "E w2 w'" by (rule call_amongE)
  moreover from this assms(3) have "v w2 = v w1 \<and> err \<noteq> None \<or> R (v w1) (v w2)" unfolding effect_def by blast
  ultimately show "p (v w') = p (v w) \<and> err \<noteq> None \<or> R (p (v w)) (p (v w'))"
    using assms(2) assms(4) [of "v w1" "v w2"] by (auto simp: rely_def)
qed

lemma answer_among:
  assumes "call_among E f f'" and "rely E (\<lambda>w. p (v w))" and "f' w = (r, w')" and "\<And>w1 w2. f w1 = (r, w2) \<Longrightarrow> Q (p (v w1))"
  shows "Q (p (v w))"
proof -
  from assms(1,3) obtain w1 w2 where "E w w1" "f w1 = (r, w2)" by (rule call_amongE)
  with assms(2) assms(4) [of w1 w2] show ?thesis by (simp add: rely_def)
qed

lemma part_changes:
  "d \<in> devs N \<Longrightarrow> lv_size n d \<noteq> None \<and> formatted d f n n' \<Longrightarrow>
     lv_size (node_part N T n) d \<noteq> None \<and> formatted d f (node_part N T n) (node_part N T n')"
  "d \<in> devs N \<Longrightarrow> t \<in> T \<Longrightarrow> fs_on n d \<noteq> None \<and> n' = n\<lparr>mounted_on := (mounted_on n)(t \<mapsto> d)\<rparr> \<Longrightarrow>
     fs_on (node_part N T n) d \<noteq> None \<and> node_part N T n' = (node_part N T n)\<lparr>mounted_on := (mounted_on (node_part N T n))(t \<mapsto> d)\<rparr>"
  "t \<in> T \<Longrightarrow> n' = n\<lparr>mounted_on := (mounted_on n)(t := None)\<rparr> \<Longrightarrow>
     node_part N T n' = (node_part N T n)\<lparr>mounted_on := (mounted_on (node_part N T n))(t := None)\<rparr>"
  "d \<in> devs N \<Longrightarrow> lv_size n d = None \<and> (\<exists>b. n' = n\<lparr>lv_size := (lv_size n)(d \<mapsto> b)\<rparr>) \<Longrightarrow>
     lv_size (node_part N T n) d = None \<and> (\<exists>b. node_part N T n' = (node_part N T n)\<lparr>lv_size := (lv_size (node_part N T n))(d \<mapsto> b)\<rparr>)"
  "d \<in> devs N \<Longrightarrow> \<exists>a b. lv_size n d = Some a \<and> a \<le> b \<and> n' = n\<lparr>lv_size := (lv_size n)(d \<mapsto> b)\<rparr> \<Longrightarrow>
     \<exists>a b. lv_size (node_part N T n) d = Some a \<and> a \<le> b \<and>
       node_part N T n' = (node_part N T n)\<lparr>lv_size := (lv_size (node_part N T n))(d \<mapsto> b)\<rparr>"
proof -
  assume "d \<in> devs N" "lv_size n d \<noteq> None \<and> formatted d f n n'"
  then show "lv_size (node_part N T n) d \<noteq> None \<and> formatted d f (node_part N T n) (node_part N T n')"
    by (simp add: part_format(1) [of d f n n'])
next
  assume "d \<in> devs N" "t \<in> T" "fs_on n d \<noteq> None \<and> n' = n\<lparr>mounted_on := (mounted_on n)(t \<mapsto> d)\<rparr>"
  then show "fs_on (node_part N T n) d \<noteq> None \<and> node_part N T n' = (node_part N T n)\<lparr>mounted_on := (mounted_on (node_part N T n))(t \<mapsto> d)\<rparr>"
    by (simp add: part_mount)
next
  assume "t \<in> T" "n' = n\<lparr>mounted_on := (mounted_on n)(t := None)\<rparr>"
  then show "node_part N T n' = (node_part N T n)\<lparr>mounted_on := (mounted_on (node_part N T n))(t := None)\<rparr>"
    by (simp add: part_mount)
next
  assume "d \<in> devs N" "lv_size n d = None \<and> (\<exists>b. n' = n\<lparr>lv_size := (lv_size n)(d \<mapsto> b)\<rparr>)"
  then show "lv_size (node_part N T n) d = None \<and> (\<exists>b. node_part N T n' = (node_part N T n)\<lparr>lv_size := (lv_size (node_part N T n))(d \<mapsto> b)\<rparr>)"
    by (auto simp del: node_part_fields simp: part_size) (simp add: node_part_fields)
next
  assume "d \<in> devs N" "\<exists>a b. lv_size n d = Some a \<and> a \<le> b \<and> n' = n\<lparr>lv_size := (lv_size n)(d \<mapsto> b)\<rparr>"
  then obtain a b where "lv_size (node_part N T n) d = Some a" "a \<le> b"
      "node_part N T n' = (node_part N T n)\<lparr>lv_size := (lv_size (node_part N T n))(d \<mapsto> b)\<rparr>"
    using part_size [of N T n d] by auto
  then show "\<exists>a b. lv_size (node_part N T n) d = Some a \<and> a \<le> b \<and>
       node_part N T n' = (node_part N T n)\<lparr>lv_size := (lv_size (node_part N T n))(d \<mapsto> b)\<rparr>"
    by blast
qed

lemma part_facts:
  "mounted_on n p = None \<Longrightarrow> mounted_on (node_part N T n) p = None" "fs_on n d = None \<Longrightarrow> fs_on (node_part N T n) d = None"
  "t \<in> T \<Longrightarrow> mounted_on (node_part N T n) t = mounted_on n t"
  by (simp_all add: restrict_map_def)

lemma answers_among:
  assumes laws: "node_laws h v N T" and among: "interleaved E h h'" and rely: "rely E (\<lambda>w. node_part N T (v w))"
  shows "answer_laws h' (\<lambda>w. node_part N T (v w)) T"
proof -
  note call = interleavedD [OF among]
  note answer = answer_among [where p = "node_part N T" and v = v, OF _ rely]
  have "mounted_on (node_part N T (v w)) p = None" if "os_stat h' p w = (Inl e, w')" "IsNotExist e" for p w e w'
    by (rule answer [OF call(3) that(1)], rule part_facts(1), rule stat_answer [OF laws _ that(2)])
  moreover have "fs_on (node_part N T (v w)) d = None"
    if "exec_combined h' ''file'' [''-bsL'', d] w = ((out, None), w')" "TrimSpace out = ''data''" for d w out w'
    by (rule answer [OF call(2) that(1)], rule part_facts(2), rule file_answer [OF laws _ that(2)])
  moreover have "fs_on (node_part N T (v w)) d = None"
    if "exec_combined h' ''blkid'' [''-c'', ''/dev/null'', ''-o'', ''export'', d] w = ((out, None), w')"
      "blkid_type (Split out [CHR 0x0A]) = Inr []" for d w out w'
    by (rule answer [OF call(2) that(1)], rule part_facts(2), rule blkid_answer [OF laws _ that(2)])
  moreover have "(err = None \<longrightarrow> (Contains (TrimSpace out) t \<longleftrightarrow> mounted_on (node_part N T (v w)) t \<noteq> None)) \<and>
      (err \<noteq> None \<longrightarrow> TrimSpace out = [] \<longrightarrow> mounted_on (node_part N T (v w)) t = None)"
    if "t \<in> T" "exec_combined h' ''grep'' [t, ''/proc/mounts''] w = ((out, err), w')" for t w out err w'
    by (rule answer [OF call(2) that(2)], unfold part_facts(3) [OF that(1)], rule grep_answer [OF laws that(1)])
  ultimately show ?thesis unfolding answer_laws_def by blast
qed

lemma effects_among:
  assumes laws: "node_laws h v N T" and among: "interleaved E h h'" and rely: "rely E (\<lambda>w. node_part N T (v w))"
  shows "effect_laws h' (\<lambda>w. node_part N T (v w)) N T"
proof -
  note eff = effect_among [where p = "node_part N T" and v = v, OF interleavedD(2) [OF among] rely]
  show ?thesis
    unfolding effect_laws_def Let_def
  proof (intro conjI allI ballI impI)
    fix f d assume "d \<in> devs N"
    then show "effect (\<lambda>n n'. lv_size n d \<noteq> None \<and> formatted d f n n') (\<lambda>w. node_part N T (v w)) (exec_combined h' ''mkfs'' [''-t'', f, d])"
      by (intro eff [OF effects(1) [OF laws]] part_changes(1))
  next
    fix f opts d t assume "list_all plain_opt opts" and d: "d \<in> devs N" "t \<in> T"
    note law = effects(2) [OF laws this]
    show "effect (\<lambda>n n'. fs_on n d \<noteq> None \<and> n' = n\<lparr>mounted_on := (mounted_on n)(t \<mapsto> d)\<rparr>) (\<lambda>w. node_part N T (v w))
        (exec_combined h' ''mount'' [''-t'', f, ''-o'', Join opts '','', d, t])"
      by (rule eff [OF law part_changes(2) [OF d]])
  next
    fix t assume t: "t \<in> T"
    show "effect (\<lambda>n n'. n' = n\<lparr>mounted_on := (mounted_on n)(t := None)\<rparr>) (\<lambda>w. node_part N T (v w)) (exec_combined h' ''umount'' [t])"
      by (rule eff [OF effects(3) [OF laws t] part_changes(3) [OF t]])
  next
    fix vg vol k sz u assume n: "(vg, vol) \<in> N" and u: "u \<in> {[], ''m'', ''g''}"
    show "effect (\<lambda>n n'. lv_size n (path_Join [''/dev'', vg, vol]) = None \<and>
          (\<exists>b. n' = n\<lparr>lv_size := (lv_size n)(path_Join [''/dev'', vg, vol] \<mapsto> b)\<rparr>)) (\<lambda>w. node_part N T (v w))
        (exec_combined h' ''sh'' [''-c'', create_cmd k vol sz u vg])"
      by (rule eff [OF effects(4) [OF laws n u] part_changes(4) [OF devs_in [OF n]]])
  next
    fix vg vol sz u assume n: "(vg, vol) \<in> N" and u: "u \<in> {[], ''m'', ''g''}"
    show "effect (\<lambda>n n'. \<exists>a b. lv_size n (path_Join [''/dev'', vg, vol]) = Some a \<and> a \<le> b \<and>
          n' = n\<lparr>lv_size := (lv_size n)(path_Join [''/dev'', vg, vol] \<mapsto> b)\<rparr>) (\<lambda>w. node_part N T (v w))
        (exec_combined h' ''sh'' [''-c'', lvextend_cmd sz u (path_Join [''/dev'', vg, vol])])"
      by (rule eff [OF effects(5) [OF laws n u] part_changes(5) [OF devs_in [OF n]]])
  qed
qed

lemma laws_among:
  assumes laws: "node_laws h v N T" and among: "interleaved E h h'" and rely: "rely E (\<lambda>w. node_part N T (v w))"
  shows "node_laws h' (\<lambda>w. node_part N T (v w)) N T"
proof -
  note call = interleavedD [OF among]
  note quiet = quiet_among [where p = "node_part N T" and v = v, OF _ rely]
  have "query_laws h' (\<lambda>w. node_part N T (v w)) N"
    using quiet [OF call(3)] quiet [OF call(4)] quiet [OF call(5)] quiet [OF call(6)] quiet [OF call(7)] quiet [OF call(8)] quiet [OF call(2)]
      laws unfolding node_laws_def query_laws_def by simp
  moreover have "api_laws h' N"
  proof -
    have "GetVGNameFromCsiPV h' = GetVGNameFromCsiPV h"
      by (rule ext) (unfold GetVGNameFromCsiPV_def GetAllocatedInfoFromPVAnnotation_def call(1), rule refl)
    moreover have "vg = [] \<or> (vg, vol) \<in> N"
      if "vol \<in> snd ` N" "get_pv h' vol w = (Inr pv, w')" "GetVGNameFromCsiPV h (Some pv) = Done vg" for vol w pv w' vg
    proof -
      from call(5) that(2) obtain w1 w2 where "get_pv h vol w1 = (Inr pv, w2)" by (rule call_amongE)
      with pv_answer [OF laws that(1) _ that(3)] show ?thesis by blast
    qed
    ultimately show ?thesis unfolding api_laws_def by auto
  qed
  ultimately show ?thesis
    using answers_among [OF assms] effects_among [OF assms] by (simp add: node_laws_def)
qed

section \<open>Guarantee: the handlers make only calls of their own\<close>

lemma only_reply:
  assumes "\<And>w a w'. g w = (a, w') \<Longrightarrow> P (ev a) \<and> only P (f a)"
  shows "only P (State_Monad.bind (syscall g ev) f)"
  unfolding only_def
proof (rule producesI)
  fix s b s' assume run: "run_state (State_Monad.bind (syscall g ev) f) s = (b, s')"
  obtain a w' where g: "g (world s) = (a, w')" by fastforce
  with run have "run_state (f a) (s\<lparr>world := w', events := events s @ [ev a]\<rparr>) = (b, s')" by simp
  from onlyD [OF assms [OF g, THEN conjunct2] this] assms [OF g, THEN conjunct1]
  show "\<exists>es. events s' = events s @ es \<and> list_all P es" by auto
qed

lemma own_getPvInfo:
  assumes "node_laws h v N T"
    and "\<And>sz b u pv. u \<in> {[], ''m'', ''g''} \<Longrightarrow>
      (\<And>vg. vol \<in> snd ` N \<Longrightarrow> GetVGNameFromCsiPV h pv = Done vg \<Longrightarrow> vg \<noteq> [] \<Longrightarrow> (vg, vol) \<in> N) \<Longrightarrow> only (own_call N T) (f (sz, b, u, pv))"
  shows "only (own_call N T) (State_Monad.bind (getPvInfo h vol) f)"
proof -
  have none: "only (own_call N T) (f (0, 0, [], None))"
    by (rule assms(2)) (simp_all add: GetVGNameFromCsiPV_def GetAllocatedInfoFromPVAnnotation_def)
  have some: "only (own_call N T) (f (pv_info pv))" if pv: "get_pv h vol w = (Inr pv, w')" for pv w w'
  proof -
    obtain sz b u where "pv_info pv = (sz, b, u, Some pv)" "u \<in> {[], ''m'', ''g''}"
      by (cases "go_div (storage_bytes pv) 1073741824 = 0") (auto simp: pv_info_def Let_def)
    then show ?thesis using assms(2) [of u "Some pv" sz b] pv_answer [OF assms(1) _ pv] by simp
  qed
  have "only (own_call N T) (f (case r of Inl err \<Rightarrow> (0, 0, [], None) | Inr pv \<Rightarrow> pv_info pv))"
    if "get_pv h vol w = (r, w')" for r w w'
    using none some that by (cases r) auto
  then show ?thesis
    unfolding getPvInfo_def GetPV_def by (auto intro!: only_reply)
qed

lemma own_Run: "own_command N T ''sh'' [''-c'', cmd] \<Longrightarrow> only (own_call N T) (Run h cmd)"
  unfolding Run_def by (intro trace_rules) auto

lemma own_calls:
  "only (own_call N T) (Stat h p)" "p \<in> T \<Longrightarrow> only (own_call N T) (MkdirAll h p m)" "p \<in> devs N \<Longrightarrow> only (own_call N T) (ResizeFs h p q)"
  "p \<in> T \<Longrightarrow> only (own_call N T) (VolumeAdd h p mi)" "p \<in> T \<Longrightarrow> only (own_call N T) (VolumeRemove h p)"
  by (intro trace_rules; simp)+

lemma own_mounter:
  "t \<in> T \<Longrightarrow> only (own_call N T) (IsMounted h t)"
  "d \<in> devs N \<Longrightarrow> t \<in> T \<Longrightarrow> list_all plain_opt opts \<Longrightarrow> opts \<noteq> [] \<Longrightarrow> only (own_call N T) (Mount h d t f opts)"
  "t \<in> T \<Longrightarrow> only (own_call N T) (Unmount h t)"
  unfolding IsMounted_def Mount_def Unmount_def Let_def
  by (intro trace_rules; auto intro: own_command.intros)+

lemma own_helpers:
  "d \<in> devs N \<Longrightarrow> only (own_call N T) (checkFSType h d)" "d \<in> devs N \<Longrightarrow> only (own_call N T) (formatDevice h d f)"
  "(vg, vol) \<in> N \<Longrightarrow> only (own_call N T) (createVG h vg)"
  unfolding checkFSType_def formatDevice_def createVG_def getLocalDeviceNum_def
  by (intro trace_rules own_Run; auto intro: own_command.intros simp: vg_queries_def cur_pv_cmd_def)+

lemma own_createVolume:
  assumes "node_laws h v N T" and "(vg, vol) \<in> N"
  shows "only (own_call N T) (createVolume h vol vg pt lt)"
  unfolding createVolume_def create_cmd_forms
  by (intro own_getPvInfo [OF assms(1)] trace_rules own_Run own_helpers(3) [OF assms(2)])
     (use assms(2) in \<open>auto intro: own_command.intros simp: vg_queries_def\<close>)

lemma own_resizeVolume:
  assumes "node_laws h v N T" and "(vg, vol) \<in> N" and "ns_rn ns = NewExecRunner h"
  shows "only (own_call N T) (resizeVolume h ns vol vg t)"
  unfolding resizeVolume_def Let_def assms(3) NewExecRunner_def
  by (intro own_getPvInfo [OF assms(1)] trace_rules own_Run own_calls)
     (use assms(2) in \<open>auto intro: own_command.intros own_calls\<close>)

text \<open>The handlers. The second part of publishing goes on with whatever flag it reads.\<close>

lemma own_publish:
  assumes "node_laws h v N T" and "publish_ok N T req" and "valid_publish req"
  shows "only (own_call N T) (publish_begin h req)"
    and "only (own_call N T) (publish_end h (NewNodeServer h i) req st)"
proof -
  note ok = publish_okD [OF assms(2,3)]
  show "only (own_call N T) (publish_begin h req)"
    unfolding publish_begin_def publish_prepare_def Let_def
    by (intro trace_rules setDirect_only own_calls own_createVolume [OF assms(1) ok(1)])
  have mount: "only (own_call N T) (publish_mount h (NewNodeServer h i) req (ctx_or (pub_VolumeContext req) VgNameTag []) f (lv_device req) new isMnt)"
    for f new isMnt
    unfolding publish_mount_def Let_def NewNodeServer_parts NewMounter_parts
    by (intro trace_rules own_helpers own_mounter own_resizeVolume [OF assms(1) ok(1)] ok)
       (auto simp: NewNodeServer_parts plain_mount_options ok)
  show "only (own_call N T) (publish_end h (NewNodeServer h i) req st)"
    unfolding publish_end_def publish_as_def publish_volume_def addDirectVolume_def Let_def NewNodeServer_parts NewMounter_parts device_of_lv
    by (intro trace_rules getDirect_only own_calls own_mounter mount ok)
qed

lemma own_NodePublishVolume:
  assumes "node_laws h v N T" and "publish_ok N T req"
  shows "only (own_call N T) (NodePublishVolume h (NewNodeServer h i) req)"
proof (cases "valid_publish req")
  case True
  show ?thesis
    unfolding publish_in_parts(1) [OF True] by (intro trace_rules own_publish [OF assms True])
next
  case False
  then show ?thesis by (auto simp: NodePublishVolume_def valid_publish_def Let_def intro!: trace_rules)
qed

lemma own_NodeUnpublishVolume:
  assumes "node_laws h v N T" and "unpub_TargetPath req \<in> T"
  shows "only (own_call N T) (NodeUnpublishVolume h (NewNodeServer h i) req)"
  unfolding NodeUnpublishVolume_def Let_def NewNodeServer_parts NewMounter_parts
  by (intro trace_rules getDirect_only own_calls own_mounter assms(2))

lemma own_NodeExpandVolume:
  assumes "node_laws h v N T" and "exp_VolumeId req = [] \<or> exp_VolumeId req \<in> snd ` N"
  shows "only (own_call N T) (NodeExpandVolume h (NewNodeServer h i) req)"
proof (cases "exp_VolumeId req = []")
  case False
  with assms(2) show ?thesis
    unfolding NodeExpandVolume_def Let_def
    by (intro trace_rules getDirect_only own_getPvInfo [OF assms(1)] own_resizeVolume [OF assms(1)]) (auto simp: NewNodeServer_parts)
qed (simp add: NodeExpandVolume_def only_return)

section \<open>A service among others\<close>

text \<open>
  Requests for some volumes, served one after another while others are served at the same time. Every handler reads the shared
  field \<open>isDirect\<close> once; until then another handler may have set it to any value \<open>d\<close>. (The handlers of \<open>NodeUnpublishVolume\<close> and \<open>NodeExpandVolume\<close> read
  it before their first call.)
\<close>

definition publish_among ::
  "'w host \<Rightarrow> ('w, 'z nodeState_ext) nodeServer \<Rightarrow> bool \<Rightarrow> NodePublishVolumeRequest \<Rightarrow> ('w, 'z, (goerror + unit) outcome) nprog" where
  "publish_among h ns d req =
     (if valid_publish req then do { st \<leftarrow> publish_begin h req; setDirect d; publish_end h ns req st }
      else NodePublishVolume h ns req)"

fun serve_among :: "'w host \<Rightarrow> ('w, 'z nodeState_ext) nodeServer \<Rightarrow> bool \<Rightarrow> request \<Rightarrow> ('w, 'z, unit) nprog" where
  "serve_among h ns d (Publish req) = do { publish_among h ns d req; State_Monad.return () }"
| "serve_among h ns d (Unpublish req) = do { setDirect d; NodeUnpublishVolume h ns req; State_Monad.return () }"
| "serve_among h ns d (Expand req) = do { setDirect d; NodeExpandVolume h ns req; State_Monad.return () }"
| "serve_among h ns d Restart = setDirect d"

fun serve_all_among :: "'w host \<Rightarrow> ('w, 'z nodeState_ext) nodeServer \<Rightarrow> (bool \<times> request) list \<Rightarrow> ('w, 'z, unit) nprog" where
  "serve_all_among h ns [] = State_Monad.return ()"
| "serve_all_among h ns ((d, r) # rs) = do { serve_among h ns d r; serve_all_among h ns rs }"

lemma publish_end_flag: "do { setDirect d; publish_end h ns req st } = do { setDirect d; publish_as h ns req d st }"
  by (intro state_ext) (simp add: publish_end_def setDirect_def getDirect_def)

text \<open>A request that runs alone is one among others.\<close>

lemma publish_alone: "NodePublishVolume h ns req = publish_among h ns (direct_of (pub_VolumeContext req)) req"
proof (cases "valid_publish req")
  case True
  have same: "t\<lparr>isDirect := b\<rparr> = t" if "isDirect t = b" for t :: "('w, 'z nodeState_ext) sys_scheme" and b
    using that by (cases t) simp
  show ?thesis
    unfolding publish_in_parts(2) [OF True] publish_among_def if_P [OF True] publish_end_flag
    by (intro state_ext) (auto simp: setDirect_def publish_begin_def same split: prod.split dest!: keepsD [OF publish_prepare_keeps])
qed (simp add: publish_among_def)

lemma own_serve_all_among:
  assumes "node_laws h v N T" and "list_all (request_ok N T) (map snd rs)"
  shows "only (own_call N T) (serve_all_among h (NewNodeServer h i) rs)"
  using assms(2)
proof (induction rs)
  case (Cons x rs)
  obtain d r where x: "x = (d, r)" by (cases x)
  have "only (own_call N T) (serve_among h (NewNodeServer h i) d r)"
    using Cons.prems x
    by (cases r) (auto simp: publish_among_def
        intro!: trace_rules setDirect_only own_publish [OF assms(1)] own_NodePublishVolume [OF assms(1)]
          own_NodeUnpublishVolume [OF assms(1)] own_NodeExpandVolume [OF assms(1)])
  with Cons x show ?case by (auto intro: trace_rules)
qed (simp add: only_return)

lemma view_publish_among:
  assumes "node_laws h v N T" and "publish_ok N T req"
  shows "ensures v n (publish_among h (NewNodeServer h i) d req) (\<lambda>r n'. published req (r = Done (Inr ()) \<and> \<not> d) n n')"
proof (cases "valid_publish req")
  case True
  have rest: "ensures v m (publish_as h (NewNodeServer h i) req d st) (\<lambda>r n'. published req (r = Done (Inr ()) \<and> \<not> d) m n')" for m st
    unfolding publish_as_def Let_def device_of_lv addDirectVolume_def
    by (auto intro!: view_rules ensures_bind view_plain_calls(2) [OF assms(1)] ensures_weaken [OF view_publish_volume [OF assms True]]
          published_failed)
  have begin_part: "ensures v n (publish_begin h req) (\<lambda>r. created (lv_device req) n)"
    unfolding publish_begin_def by (rule ensures_bind, rule view_setDirect, rule view_publish_prepare [OF assms True])
  have last: "ensures v m (do { setDirect d; publish_end h (NewNodeServer h i) req st })
      (\<lambda>r n'. published req (r = Done (Inr ()) \<and> \<not> d) m n')" for m st
    unfolding publish_end_flag by (rule ensures_bind, rule view_setDirect, rule rest)
  show ?thesis
    unfolding publish_among_def if_P [OF True]
    by (rule ensures_seq [OF begin_part]) (auto intro!: ensures_weaken [OF last] intro: published_after created_within)
next
  case False
  then show ?thesis
    by (auto simp: publish_among_def NodePublishVolume_def valid_publish_def Let_def intro!: view_rules published_failed)
qed

lemma view_serve_among:
  assumes "node_laws h v N T" and "request_ok N T r"
  shows "ensures v n (serve_among h (NewNodeServer h i) d r) (\<lambda>_ n'. moves n n' \<and> keeps_mounts (unpublished r) n n')"
proof (cases r)
  case (Publish req)
  with assms show ?thesis
    by (auto intro!: ensures_seq [OF view_publish_among] view_rules dest: published_effect)
next
  case (Unpublish req)
  have "ensures v n (serve_request h (NewNodeServer h i) r) (\<lambda>_ n'. moves n n' \<and> keeps_mounts (unpublished r) n n')"
    by (rule view_serve_request [OF assms])
  with Unpublish show ?thesis by (auto intro!: ensures_bind [OF view_setDirect])
next
  case (Expand req)
  have "ensures v n (serve_request h (NewNodeServer h i) r) (\<lambda>_ n'. moves n n' \<and> keeps_mounts (unpublished r) n n')"
    by (rule view_serve_request [OF assms])
  with Expand show ?thesis by (auto intro!: ensures_bind [OF view_setDirect])
next
  case Restart
  then show ?thesis by (auto intro!: view_setDirect simp: keeps_mounts_def)
qed

lemma view_serve_all_among:
  assumes "node_laws h v N T" and "list_all (request_ok N T) (map snd rs)"
  shows "ensures v n (serve_all_among h (NewNodeServer h i) rs)
     (\<lambda>_ n'. moves n n' \<and> keeps_mounts (\<Union> (unpublished ` snd ` set rs)) n n')"
  using assms(2)
proof (induction rs arbitrary: n)
  case Nil
  show ?case by (auto intro: view_rules simp: keeps_mounts_def)
next
  case (Cons x rs)
  then show ?case
    by (cases x) (auto intro!: ensures_seq [OF view_serve_among [OF assms(1)]] ensures_weaken [OF Cons.IH]
          intro: moves_trans keeps_mounts_trans)
qed

section \<open>Properties\<close>

text \<open>
  What the requests of others mean for a host: each of its calls may be among calls of requests for volumes and targets apart.
\<close>

definition busy :: "'w host \<Rightarrow> ('w \<Rightarrow> node) \<Rightarrow> volume_name set \<Rightarrow> string set \<Rightarrow> 'w host \<Rightarrow> bool" where
  "busy h v N T h' \<longleftrightarrow> (\<exists>N' T'. apart N T N' T' \<and> node_laws h v N' T' \<and> interleaved (others h N' T') h h')"

lemma busy_laws:
  assumes "node_laws h v N T" and "busy h v N T h'"
  shows "node_laws h' (\<lambda>w. node_part N T (v w)) N T"
proof -
  from assms(2) obtain N' T' where a: "apart N T N' T'" "node_laws h v N' T'" "interleaved (others h N' T') h h'"
    by (auto simp: busy_def)
  have "rely (others h N' T') (\<lambda>w. node_part N T (v w))"
    unfolding rely_def using others_apart [OF a(2,1)] by blast
  from laws_among [OF assms(1) a(3) this] show ?thesis .
qed

lemma part_restrict: "(m |` A) x = Some y \<longleftrightarrow> x \<in> A \<and> m x = Some y"
  by (auto simp: restrict_map_def)

lemma part_before: "node_before (\<lambda>w. p (v w)) s = p (node_before v s)" "node_after (\<lambda>w. p (v w)) m s = p (node_after v m s)"
  by (simp_all add: node_before_def node_after_def)

subsection \<open>An example\<close>

text \<open>
  The simulated node on which a request for another volume of the same group runs: before every command it calls \<open>lvcreate\<close>.
\<close>

definition other_create :: "string list" where
  "other_create = [''-c'', create_cmd None ''w'' 1 ''g'' ''g'']"

definition other_move :: "node \<Rightarrow> node" where
  "other_move n = snd (sim_exec ''sh'' other_create n)"

definition busy_host :: "node host" where
  "busy_host = sim_host sim_pv\<lparr>exec_combined := (\<lambda>p args n. sim_exec p args (other_move n))\<rparr>"

lemma laws_subset:
  assumes "node_laws h v N T" and "N' \<subseteq> N" and "T' \<subseteq> T" and "api_laws h N'"
  shows "node_laws h v N' T'"
proof -
  have sub: "devs N' \<subseteq> devs N" "fst ` N' \<subseteq> fst ` N" using assms(2) by (auto simp: devs_def)
  have "query_laws h v N'"
    unfolding query_laws_def
  proof (intro conjI allI impI quiet_calls [OF assms(1)])
    fix vg cmd assume "vg \<in> fst ` N'" and cmd: "cmd \<in> set (vg_queries vg)"
    then obtain vol where "(vg, vol) \<in> N" using assms(2) by auto
    then show "quiet v (exec_combined h ''sh'' [''-c'', cmd])" using cmd by (rule quiet_commands(1) [OF assms(1)])
  next
    fix vg vol assume "(vg, vol) \<in> N'"
    with assms(2) have "(vg, vol) \<in> N" by blast
    then show "quiet v (exec_combined h ''sh'' [''-c'', lv_size_cmd (path_Join [''/dev'', vg, vol])])"
      by (rule quiet_commands(2) [OF assms(1)])
  qed
  moreover from assms(1,3) have "answer_laws h v T'"
    unfolding node_laws_def answer_laws_def by - (elim conjE, intro conjI, assumption, assumption, assumption, blast)
  moreover have "effect_laws h v N' T'"
    unfolding effect_laws_def Let_def
    by (intro conjI allI ballI impI; rule effects [OF assms(1)]) (use assms(2,3) sub(1) in auto)
  ultimately show ?thesis using assms(4) by (simp add: node_laws_def)
qed

lemma sim_group: "GetVGNameFromCsiPV (sim_host sim_pv) (Some sim_pv) = Done ''g''"
  by (simp add: sim_pv_def GetVGNameFromCsiPV_def GetAllocatedInfoFromPVAnnotation_def Let_def)

lemma other_sample_laws:
  "node_laws (sim_host sim_pv) id {(''g'', ''v'')} {''/t''}" "node_laws (sim_host sim_pv) id {(''g'', ''w'')} {''/x''}"
proof -
  have "(''g'', ''v'') \<in> sim_volumes" "(''g'', ''w'') \<in> sim_volumes" "''/t'' \<in> sim_targets" "''/x'' \<in> sim_targets"
    by (simp_all add: sim_names(1) sim_targets_def trim_eval name_char_def is_alnum_def)
  then show "node_laws (sim_host sim_pv) id {(''g'', ''v'')} {''/t''}" "node_laws (sim_host sim_pv) id {(''g'', ''w'')} {''/x''}"
    by (auto intro!: laws_subset [OF sim_laws] simp: api_laws_def sim_group)
qed

lemma sample_apart: "apart {(''g'', ''v'')} {''/t''} {(''g'', ''w'')} {''/x''}"
  by (simp add: apart_def devs_def sample_values path_Join.simps Clean_def clean_step_def Split.simps)

lemma other_step:
  "other_move n =
     (if lv_size n ''/dev/g/w'' = None then n\<lparr>lv_size := (lv_size n)(''/dev/g/w'' \<mapsto> size_arg ''1g'')\<rparr> else n)"
proof -
  have "name_MatchString ''g''" "name_MatchString ''w''" by (simp_all add: name_char_def is_alnum_def)
  moreover have "path_Join [''/dev'', ''g'', ''w''] = ''/dev/g/w''"
    by (simp add: path_Join.simps Clean_def clean_step_def Split.simps)
  moreover have "show_int 1 = ''1''" by code_simp
  ultimately show ?thesis by (simp add: other_move_def sim_exec_def other_create_def sim_create tool_failed_def Let_def split: option.split)
qed

lemma busy_host_parts [simp]:
  "exec_combined busy_host p args n = sim_exec p args (other_move n)"
  "get_pv busy_host p n = (Inr sim_pv, n)" "os_stat busy_host = os_stat (sim_host sim_pv)"
  "os_mkdirall busy_host p m n = (None, n)" "resize_fs busy_host p q n = (Inr True, n)"
  by (simp_all add: busy_host_def)

lemma call_among_refl: "(\<And>w. E w w) \<Longrightarrow> call_among E f f"
  unfolding call_among_def by blast

lemma sample_busy: "busy (sim_host sim_pv) id {(''g'', ''v'')} {''/t''} busy_host"
proof -
  let ?E = "others (sim_host sim_pv) {(''g'', ''w'')} {''/x''}"
  have refl: "?E w w" for w by (simp add: others_def)
  have "own_command {(''g'', ''w'')} {''/x''} ''sh'' other_create"
    unfolding other_create_def by (rule own_command.create) simp_all
  then have "?E w (other_move w)" for w
    unfolding others_def other_move_def
    by (intro r_into_rtranclp exI [of _ "ExecEv ''sh'' other_create (fst (fst (sim_exec ''sh'' other_create w))) (snd (fst (sim_exec ''sh'' other_create w)))"])
       simp
  then have "call_among ?E (sim_exec p args) (\<lambda>n. sim_exec p args (other_move n))" for p args
    unfolding call_among_def using refl by blast
  then have "interleaved ?E (sim_host sim_pv) busy_host"
    unfolding interleaved_def busy_host_def by (simp add: call_among_refl refl)
  then show ?thesis unfolding busy_def using sample_apart other_sample_laws(2) by blast
qed

lemma sample_request_here: "publish_ok {(''g'', ''v'')} {''/t''} sample_req"
  by (simp add: publish_ok_def valid_publish_def sample_req_def ctx_or_def)

definition sample_among :: "(bool \<times> request) list" where
  "sample_among = [(True, Publish sample_req), (False, Expand sample_expand), (False, Publish sample_req), (True, Unpublish sim_unpub)]"

lemma sample_among_ok: "list_all (request_ok {(''g'', ''v'')} {''/t''}) (map snd sample_among)"
  by (simp add: sample_among_def sample_request_here sample_expand_def sim_unpub_def)

text \<open>
  C3: Requests for different volumes and targets do not disturb each other, whatever the schedule: while requests for the volumes \<open>N\<close> and the targets
  \<open>T\<close> are served, other handlers may make calls for volumes and targets apart between any two calls and change the shared
  field \<open>isDirect\<close>; still every file system on a volume of \<open>N\<close> stays the one it was, no such volume goes away or shrinks,
  and every mount on a target of \<open>T\<close> stays unless a request unpublishes it. The requests, in turn, make only calls that concern \<open>N\<close> and \<open>T\<close>.
\<close>

theorem concurrent_requests_isolated:
  assumes "node_laws h v N T" and "busy h v N T h'" and "list_all (request_ok N T) (map snd rs)"
  shows "let n = node_before v s; n' = node_after v (serve_all_among h' (NewNodeServer h' i) rs) s in
     (\<forall>d x. d \<in> devs N \<longrightarrow> fs_on n d = Some x \<longrightarrow> fs_on n' d = Some x) \<and>
     (\<forall>d a. d \<in> devs N \<longrightarrow> lv_size n d = Some a \<longrightarrow> (\<exists>b. lv_size n' d = Some b \<and> a \<le> b)) \<and>
     (\<forall>t d. t \<in> T \<longrightarrow> t \<notin> \<Union> (unpublished ` snd ` set rs) \<longrightarrow> mounted_on n t = Some d \<longrightarrow> mounted_on n' t = Some d) \<and>
     list_all (own_call N T) (new_events (serve_all_among h' (NewNodeServer h' i) rs) s)"
proof -
  note laws = busy_laws [OF assms(1,2)]
  let ?n = "node_before v s" and ?n' = "node_after v (serve_all_among h' (NewNodeServer h' i) rs) s"
  from ensures_node [OF view_serve_all_among [OF laws assms(3), where i = i], of s]
  have m: "moves (node_part N T ?n) (node_part N T ?n')"
    and k: "keeps_mounts (\<Union> (unpublished ` snd ` set rs)) (node_part N T ?n) (node_part N T ?n')"
    unfolding part_before by blast+
  have "list_all (own_call N T) (new_events (serve_all_among h' (NewNodeServer h' i) rs) s)"
    by (rule only_new [OF own_serve_all_among [OF laws assms(3)]])
  with moves_keep_data [OF m] k show ?thesis
    unfolding keeps_data_def keeps_mounts_def Let_def node_part_fields part_restrict by blast
qed

theorem concurrent_requests_isolated_witness:
  "node_laws (sim_host sim_pv) id {(''g'', ''v'')} {''/t''} \<and> busy (sim_host sim_pv) id {(''g'', ''v'')} {''/t''} busy_host \<and>
   (let n' = node_after id (serve_all_among busy_host (NewNodeServer busy_host ''n'') sample_among) used_start in
    fs_on n' ''/dev/g/v'' = Some (''ext4'', 7) \<and> (\<exists>b. lv_size n' ''/dev/g/v'' = Some b \<and> 4 * Gi_bytes \<le> b))"
proof -
  have "''/dev/g/v'' \<in> devs {(''g'', ''v'')}" by (simp add: devs_def sample_values)
  then show ?thesis
    using concurrent_requests_isolated [OF other_sample_laws(1) sample_busy sample_among_ok, of used_start "''n''"] other_sample_laws(1) sample_busy
    by (simp add: Let_def node_before_def used_start_def)
qed

text \<open>
  C5: Publishing among others does what it does alone: when it succeeds, nothing was mounted on the target and the flag that the handler reads is unset, the
  device of the request is mounted there and has a file system; what was mounted there stays; and no other target of \<open>T\<close> and no other device
  of \<open>N\<close> has changed. The attributes of the request matter only through the flag, which a request alone sets for itself.
\<close>

theorem concurrent_publish_mounts:
  assumes "node_laws h v N T" and "busy h v N T h'" and "publish_ok N T req" and "valid_publish req"
  shows "let n = node_before v s; p = publish_among h' (NewNodeServer h' i) d req; n' = node_after v p s;
       t = pub_TargetPath req; dev = lv_device req in
     (result p s = Done (Inr ()) \<longrightarrow> \<not> d \<longrightarrow> mounted_on n t = None \<longrightarrow> mounted_on n' t = Some dev \<and> fs_on n' dev \<noteq> None) \<and>
     (mounted_on n t \<noteq> None \<longrightarrow> mounted_on n' t = mounted_on n t) \<and>
     (\<forall>x. x \<in> T \<longrightarrow> x \<noteq> t \<longrightarrow> mounted_on n' x = mounted_on n x) \<and>
     (\<forall>x. x \<in> devs N \<longrightarrow> x \<noteq> dev \<longrightarrow> fs_on n' x = fs_on n x \<and> lv_size n' x = lv_size n x)"
proof -
  note laws = busy_laws [OF assms(1,2)]
  note ok = publish_okD [OF assms(3,4)]
  let ?p = "publish_among h' (NewNodeServer h' i) d req"
  have "published req (result ?p s = Done (Inr ()) \<and> \<not> d) (node_part N T (node_before v s)) (node_part N T (node_after v ?p s))"
    using ensures_node [OF view_publish_among [OF laws assms(3), where i = i and d = d], of s] unfolding part_before .
  then show ?thesis
    using ok(2,3) unfolding published_def within_def Let_def by (auto simp: restrict_map_def split: if_splits)
qed

theorem concurrent_publish_mounts_witness:
  "node_laws (sim_host sim_pv) id {(''g'', ''v'')} {''/t''} \<and> busy (sim_host sim_pv) id {(''g'', ''v'')} {''/t''} busy_host \<and>
   (let p = publish_among busy_host (NewNodeServer busy_host ''n'') False sample_req; n' = node_after id p (sim_start\<lparr>world := blank_volume\<rparr>) in
    result p (sim_start\<lparr>world := blank_volume\<rparr>) = Done (Inr ()) \<and> mounted_on n' ''/t'' = Some ''/dev/g/v'')"
proof -
  have ok: "result (publish_among busy_host (NewNodeServer busy_host ''n'') False sample_req) (sim_start\<lparr>world := blank_volume\<rparr>) = Done (Inr ())"
    by (simp add: publish_among_def publish_begin_def publish_prepare_def publish_end_def publish_as_def valid_publish_def device_of_def
        other_step NewNodeServer_parts race_eval)
  have target: "pub_TargetPath sample_req = ''/t''" by (simp add: sample_req_def)
  show ?thesis
    using concurrent_publish_mounts [OF other_sample_laws(1) sample_busy sample_request_here sample_publish_ok(2),
        of "sim_start\<lparr>world := blank_volume\<rparr>" "''n''" False] ok other_sample_laws(1) sample_busy
    by (simp add: Let_def sample_publish_ok(3) target node_before_def blank_fields)
qed

end
