(* ===== verification/Lvm_Capacity.thy ===== *)
theory Lvm_Capacity
  imports Lvm_Service
begin

text \<open>
  The size of volumes. When LVM sizes volumes as asked, a volume that was published or expanded with success is at least
  as large as the capacity that the API server gave in answer to the request of the handler, rounded down to whole GiB (below one GiB, to whole MiB).
  The request may fail; the code then goes on with a capacity of zero.
\<close>

section \<open>The laws of sizes\<close>

text \<open>The volume has at least that many bytes.\<close>

definition has_bytes :: "string \<Rightarrow> int \<Rightarrow> node \<Rightarrow> bool" where
  "has_bytes d b n \<longleftrightarrow> (\<exists>a. lv_size n d = Some a \<and> b \<le> a)"

text \<open>
  \<open>lvcreate\<close> and \<open>lvextend\<close> give at least the size asked for (LVM rounds up to whole extents; without a unit it counts MiB), and \<open>lvdisplay\<close> prints the
  size of the volume.
\<close>

definition size_laws :: "'w host \<Rightarrow> ('w \<Rightarrow> node) \<Rightarrow> string \<Rightarrow> string \<Rightarrow> bool" where
  "size_laws h v vg vol \<longleftrightarrow> (let d = path_Join [''/dev'', vg, vol]; sh = (\<lambda>cmd. exec_combined h ''sh'' [''-c'', cmd]) in
     (\<forall>k sz u. is_int64 sz \<longrightarrow> u \<in> {[], ''m'', ''g''} \<longrightarrow>
        effect (\<lambda>n. has_bytes d (sz * unit_bytes u)) v (sh (create_cmd k vol sz u vg))) \<and>
     (\<forall>sz u. is_int64 sz \<longrightarrow> u \<in> {[], ''m'', ''g''} \<longrightarrow>
        effect (\<lambda>n. has_bytes d (sz * unit_bytes u)) v (sh (lvextend_cmd sz u d))) \<and>
     (\<forall>w out w' a. sh (lv_size_cmd d) w = ((out, None), w') \<longrightarrow> ParseInt (TrimSpace (Split out ''.'' ! 0)) = Inr a \<longrightarrow>
        lv_size (v w) d = Some a))"

lemma size_effects:
  assumes "size_laws h v vg vol" and "is_int64 sz" and "u \<in> {[], ''m'', ''g''}"
  shows "effect (\<lambda>n. has_bytes (path_Join [''/dev'', vg, vol]) (sz * unit_bytes u)) v (exec_combined h ''sh'' [''-c'', create_cmd k vol sz u vg])"
    and "effect (\<lambda>n. has_bytes (path_Join [''/dev'', vg, vol]) (sz * unit_bytes u)) v
      (exec_combined h ''sh'' [''-c'', lvextend_cmd sz u (path_Join [''/dev'', vg, vol])])"
  using assms unfolding size_laws_def Let_def by - (elim conjE, blast)+

lemma size_answered:
  assumes "size_laws h v vg vol" and "exec_combined h ''sh'' [''-c'', lv_size_cmd (path_Join [''/dev'', vg, vol])] w = ((out, None), w')"
    and "ParseInt (TrimSpace (Split out ''.'' ! 0)) = Inr a"
  shows "lv_size (v w) (path_Join [''/dev'', vg, vol]) = Some a"
  using assms unfolding size_laws_def Let_def by metis

lemma ensures_sized:
  assumes "effect (\<lambda>n. has_bytes d b) v (exec_combined h ''sh'' [''-c'', cmd])"
  shows "ensures v n (Run h cmd) (\<lambda>r n'. (\<exists>x. r = Inr x) \<longrightarrow> has_bytes d b n')"
  by (rule view_Run_effect [OF assms]) auto

section \<open>The answers of the API server\<close>

text \<open>The requests for persistent volumes among the events, with their answers.\<close>

definition pv_answer :: "event \<Rightarrow> (string \<times> (goerror + int)) list" where
  "pv_answer e = (case e of GetPVEv vol g \<Rightarrow> [(vol, g)] | _ \<Rightarrow> [])"

definition pv_answers :: "event list \<Rightarrow> (string \<times> (goerror + int)) list" where
  "pv_answers es = concat (map pv_answer es)"

lemma pv_answers_simps [simp]: "pv_answers [] = []" "pv_answers (es @ fs) = pv_answers es @ pv_answers fs"
  "pv_answers (e # es) = pv_answer e @ pv_answers es"
  by (simp_all add: pv_answers_def)

abbreviation no_pv :: "event \<Rightarrow> bool" where
  "no_pv e \<equiv> pv_answer e = []"

lemma pv_answers_none: "list_all no_pv es \<Longrightarrow> pv_answers es = []"
  by (induction es) auto

text \<open>
  \<open>asks v n m Q\<close> is \<open>ensures v n m\<close> with the answers in sight: from a state whose world is viewed as \<open>n\<close>, the result, the answers that \<open>m\<close> has received
  and the view at the end satisfy \<open>Q\<close>.
\<close>

definition asks :: "('w \<Rightarrow> node) \<Rightarrow> node \<Rightarrow> ('w, 'z, 'a) prog \<Rightarrow> ('a \<Rightarrow> (string \<times> (goerror + int)) list \<Rightarrow> node \<Rightarrow> bool) \<Rightarrow> bool" where
  "asks v n m Q \<longleftrightarrow> (\<forall>s. v (world s) = n \<longrightarrow> (\<exists>es. events (snd (run_state m s)) = events s @ es \<and>
     Q (fst (run_state m s)) (pv_answers es) (v (world (snd (run_state m s))))))"

named_theorems ask_rules "rules that run a program call by call on the view of its world and the answers of the API server"

lemma asks_weaken: "asks v n m R \<Longrightarrow> (\<And>a gs n'. R a gs n' \<Longrightarrow> Q a gs n') \<Longrightarrow> asks v n m Q"
  unfolding asks_def by blast

lemma asks_return [ask_rules]: "Q a [] n \<Longrightarrow> asks v n (State_Monad.return a) Q"
  by (simp add: asks_def)

lemma asks_bind:
  fixes m :: "('w, 'z, 'a) prog"
  assumes "asks v n m R" and "\<And>a gs n'. R a gs n' \<Longrightarrow> asks v n' (f a) (\<lambda>b hs. Q b (gs @ hs))"
  shows "asks v n (State_Monad.bind m f) Q"
  unfolding asks_def
proof (intro allI impI)
  fix s :: "('w, 'z) sys_scheme" assume "v (world s) = n"
  obtain a t where m: "run_state m s = (a, t)" by fastforce
  obtain b u where f: "run_state (f a) t = (b, u)" by fastforce
  obtain es where es: "events t = events s @ es" "R a (pv_answers es) (v (world t))"
    using assms(1) \<open>v (world s) = n\<close> m unfolding asks_def by fastforce
  obtain fs where "events u = events t @ fs" "Q b (pv_answers es @ pv_answers fs) (v (world u))"
    using assms(2) [OF es(2)] f unfolding asks_def by fastforce
  with es m f show "\<exists>es. events (snd (run_state (State_Monad.bind m f) s)) = events s @ es \<and>
      Q (fst (run_state (State_Monad.bind m f) s)) (pv_answers es) (v (world (snd (run_state (State_Monad.bind m f) s))))"
    by auto
qed

lemma asks_silent:
  fixes m :: "('w, 'z, 'a) prog"
  assumes "ensures v n m R" and "only no_pv m"
  shows "asks v n m (\<lambda>a gs n'. gs = [] \<and> R a n')"
  unfolding asks_def
proof (intro allI impI)
  fix s :: "('w, 'z) sys_scheme" assume "v (world s) = n"
  moreover obtain es where "events (snd (run_state m s)) = events s @ es" "list_all no_pv es"
    using assms(2) unfolding only_def produces_def by blast
  ultimately show "\<exists>es. events (snd (run_state m s)) = events s @ es \<and> pv_answers es = [] \<and>
      R (fst (run_state m s)) (v (world (snd (run_state m s))))"
    using assms(1) pv_answers_none unfolding ensures_def by blast
qed

lemma asks_quiet_bind:
  assumes "ensures v n m R" and "only no_pv m" and "\<And>a n'. R a n' \<Longrightarrow> asks v n' (f a) Q"
  shows "asks v n (State_Monad.bind m f) Q"
  by (rule asks_bind [OF asks_silent [OF assms(1,2)]]) (auto intro: assms(3))

lemma asks_if [ask_rules]:
  "(b \<Longrightarrow> asks v n m Q) \<Longrightarrow> (\<not> b \<Longrightarrow> asks v n m' Q) \<Longrightarrow> asks v n (if b then m else m') Q"
  by simp

lemma asks_sum [ask_rules]:
  "(\<And>e. r = Inl e \<Longrightarrow> asks v n (f e) Q) \<Longrightarrow> (\<And>x. r = Inr x \<Longrightarrow> asks v n (g x) Q) \<Longrightarrow>
     asks v n (case r of Inl e \<Rightarrow> f e | Inr x \<Rightarrow> g x) Q"
  by (cases r) auto

lemma asks_option [ask_rules]:
  "(r = None \<Longrightarrow> asks v n m Q) \<Longrightarrow> (\<And>x. r = Some x \<Longrightarrow> asks v n (g x) Q) \<Longrightarrow>
     asks v n (case r of None \<Rightarrow> m | Some x \<Rightarrow> g x) Q"
  by (cases r) auto

lemma asks_prod [ask_rules]:
  "(\<And>x y. r = (x, y) \<Longrightarrow> asks v n (f x y) Q) \<Longrightarrow> asks v n (case r of (x, y) \<Rightarrow> f x y) Q"
  by (cases r) auto

lemma asks_outcome [ask_rules]:
  "(\<And>x. r = Done x \<Longrightarrow> asks v n (f x) Q) \<Longrightarrow> (\<And>m. r = Panic m \<Longrightarrow> asks v n (g m) Q) \<Longrightarrow>
     asks v n (case r of Done x \<Rightarrow> f x | Panic m \<Rightarrow> g m) Q"
  by (cases r) auto

lemma asks_node:
  assumes "\<And>n. asks v n m (Q n)"
  shows "Q (node_before v s) (result m s) (pv_answers (new_events m s)) (node_after v m s)"
  using assms [of "node_before v s"]
  by (auto simp: asks_def node_before_def node_after_def result_def new_events_def dest!: spec [of _ s])

lemma ensures_any: "ensures v n m (\<lambda>_ _. True)"
  by (simp add: ensures_def)

text \<open>Calls other than those of the API server.\<close>

lemma no_pv_calls:
  "only no_pv (Run h cmd)" "only no_pv (Stat h p)" "only no_pv (MkdirAll h p perm)" "only no_pv (ResizeFs h d t)"
  "only no_pv (checkFSType h d)" "only no_pv (formatDevice h d f)" "only no_pv (createVG h vg)"
  "only no_pv (IsMounted h t)" "only no_pv (Mount h d t f opts)" "only no_pv (VolumeAdd h t mi)"
  unfolding Run_def checkFSType_def formatDevice_def createVG_def getLocalDeviceNum_def IsMounted_def Mount_def Let_def
  by (intro trace_rules; simp add: pv_answer_def)+

section \<open>Creating and resizing\<close>

text \<open>Whenever the API server answers, the capacity is one: not negative and within 64 bits.\<close>

definition sane_capacity :: "'w host \<Rightarrow> string \<Rightarrow> bool" where
  "sane_capacity h vol \<longleftrightarrow> (\<forall>w pv w'. get_pv h vol w = (Inr pv, w') \<longrightarrow> 0 \<le> storage_bytes pv \<and> is_int64 (storage_bytes pv))"

lemma ask_getPvInfo:
  assumes "node_laws h v N T"
  shows "asks v n (getPvInfo h vol) (\<lambda>r gs n'. n' = n \<and> (\<exists>a w w'. get_pv h vol w = (a, w') \<and>
     gs = [(vol, map_sum id storage_bytes a)] \<and> r = pv_answer_info a))"
  unfolding asks_def
proof (intro allI impI)
  fix s :: "('a, 'c) sys_scheme" assume n: "v (world s) = n"
  obtain a w' where a: "get_pv h vol (world s) = (a, w')" by fastforce
  moreover have "v w' = n" using quiet_calls(3) [OF assms, of vol] a n unfolding quiet_def by (metis snd_conv)
  ultimately show "\<exists>es. events (snd (run_state (getPvInfo h vol) s)) = events s @ es \<and>
      (v (world (snd (run_state (getPvInfo h vol) s))) = n \<and> (\<exists>a w w'. get_pv h vol w = (a, w') \<and>
        pv_answers es = [(vol, map_sum id storage_bytes a)] \<and> fst (run_state (getPvInfo h vol) s) = pv_answer_info a))"
    by (intro exI [of _ "[GetPVEv vol (map_sum id storage_bytes a)]"] conjI exI [of _ a] exI [of _ "world s"] exI [of _ w'])
       (simp_all add: getPvInfo_def GetPV_def pv_answer_def pv_answer_info_def split: sum.split)
qed

text \<open>What the code takes from an answer, and the size of a volume that was sized by it.\<close>

lemma answer_sizes:
  assumes "sane_capacity h vol" and "get_pv h vol w = (a, w')"
  shows "\<exists>pv. pv_answer_info a = (fst (size_args (map_sum id storage_bytes a)), capacity_of (map_sum id storage_bytes a),
      snd (size_args (map_sum id storage_bytes a)), pv)"
    and "0 \<le> capacity_of (map_sum id storage_bytes a)" and "is_int64 (capacity_of (map_sum id storage_bytes a))"
proof -
  have ok: "0 \<le> storage_bytes pv \<and> is_int64 (storage_bytes pv)" if "a = Inr pv" for pv
    using assms that unfolding sane_capacity_def by blast
  show "\<exists>pv. pv_answer_info a = (fst (size_args (map_sum id storage_bytes a)), capacity_of (map_sum id storage_bytes a),
      snd (size_args (map_sum id storage_bytes a)), pv)"
    by (cases a) (simp_all add: pv_answer_info_def size_args_def capacity_of_def pv_info_size)
  show "0 \<le> capacity_of (map_sum id storage_bytes a)" "is_int64 (capacity_of (map_sum id storage_bytes a))"
    using ok by (cases a; simp add: capacity_of_def is_int64_def min_int64_def max_int64_def)+
qed

lemma ask_sizes:
  assumes "node_laws h v N T" and "sane_capacity h vol"
  shows "asks v n (getPvInfo h vol) (\<lambda>r gs n'. n' = n \<and> (\<exists>g pv. gs = [(vol, g)] \<and>
     r = (fst (size_args g), capacity_of g, snd (size_args g), pv) \<and> 0 \<le> capacity_of g \<and> is_int64 (capacity_of g)))"
  using answer_sizes [OF assms(2)] by (intro asks_weaken [OF ask_getPvInfo [OF assms(1)]]) (elim conjE exE, blast)

lemma size_args_ok:
  assumes "0 \<le> capacity_of g" and "is_int64 (capacity_of g)"
  shows "is_int64 (fst (size_args g))" "snd (size_args g) \<in> {[], ''m'', ''g''}"
    "fst (size_args g) * unit_bytes (snd (size_args g)) = lvm_bytes (size_args g)" "lvm_bytes (size_args g) \<le> capacity_of g"
proof -
  have "c div k \<le> c" if "0 < k" "0 \<le> c" for k c :: int using that by (metis div_by_1 zdiv_mono2 int_one_le_iff_zero_less zero_less_one)
  then have "is_int64 (fst (lvm_size c))" if "0 \<le> c" "is_int64 c" for c
    using that by (auto simp: lvm_size_def go_div_nonneg is_int64_def min_int64_def pos_imp_zdiv_nonneg_iff
        intro: order_trans [rotated] order_trans [OF _ pos_imp_zdiv_nonneg_iff [THEN iffD2]])
  with assms show "is_int64 (fst (size_args g))"
    by (cases g) (auto simp: size_args_def capacity_of_def is_int64_def min_int64_def max_int64_def)
  show "lvm_bytes (size_args g) \<le> capacity_of g"
    using assms(1) lvm_size_bounds(1) by (cases g) (auto simp: size_args_def capacity_of_def lvm_bytes_def)
qed (auto simp: size_args_def lvm_bytes_def lvm_size_def split: sum.split)

definition sized :: "string \<Rightarrow> string \<Rightarrow> bool \<Rightarrow> (string \<times> (goerror + int)) list \<Rightarrow> node \<Rightarrow> bool" where
  "sized vol d ok gs n \<longleftrightarrow> (ok \<longrightarrow> (\<exists>g. gs = [(vol, g)] \<and> has_bytes d (lvm_bytes (size_args g)) n))"

lemma err_of_None: "err_of r = None \<longleftrightarrow> (\<exists>x. r = Inr x)"
  by (cases r) auto

lemma sized_createVolume:
  assumes "node_laws h v N T" and "size_laws h v vg vol" and "sane_capacity h vol" and "lt = StripingType \<or> lt = LinearType"
  shows "asks v n (createVolume h vol vg pt lt) (\<lambda>r. sized vol (path_Join [''/dev'', vg, vol]) (r = None))"
proof -
  note vg = asks_quiet_bind [OF ensures_any [of v _ "if pt = LocalDisk then createVG h vg else State_Monad.return (Inr 0)"]]
  note ck = asks_quiet_bind [OF ensures_any [of v _ "Run h (NsenterCmd @ '' vgck '' @ vg)"] no_pv_calls(1)]
  have cmd: "asks v m (do { r \<leftarrow> Run h (create_cmd k vol (fst (size_args g)) (snd (size_args g)) vg); State_Monad.return (err_of r) })
      (\<lambda>r hs. sized vol (path_Join [''/dev'', vg, vol]) (r = None) ([(vol, g)] @ hs))"
    if "0 \<le> capacity_of g" "is_int64 (capacity_of g)" for m k g
    using size_args_ok [OF that]
    by (intro asks_quiet_bind [OF ensures_sized [OF size_effects(1) [OF assms(2)]] no_pv_calls(1)])
       (auto intro!: ask_rules simp: err_of_None sized_def)
  show ?thesis
    unfolding createVolume_def create_cmd_forms
  proof (rule asks_bind [OF ask_sizes [OF assms(1,3)]], elim conjE exE, simp only: prod.case)
    fix n' :: node and g pv
    assume "0 \<le> capacity_of g" "is_int64 (capacity_of g)"
    with cmd assms(4) show "asks v n (do {
       vg' \<leftarrow> (if pt = LocalDisk then createVG h vg else State_Monad.return (Inr 0));
       case vg' of
         Inl err \<Rightarrow> State_Monad.return (Some err)
       | Inr k \<Rightarrow> do {
           ck \<leftarrow> Run h (NsenterCmd @ '' vgck '' @ vg);
           case ck of
             Inl err \<Rightarrow> State_Monad.return (Some err)
           | Inr _ \<Rightarrow>
               if lt = StripingType then do {
                 r \<leftarrow> Run h (create_cmd (Some k) vol (fst (size_args g)) (snd (size_args g)) vg);
                 State_Monad.return (err_of r) }
               else if lt = LinearType then do {
                 r \<leftarrow> Run h (create_cmd None vol (fst (size_args g)) (snd (size_args g)) vg);
                 State_Monad.return (err_of r) }
               else State_Monad.return None } })
      (\<lambda>r hs. sized vol (path_Join [''/dev'', vg, vol]) (r = None) ([(vol, g)] @ hs))"
      by (intro vg ck ask_rules only_if no_pv_calls(7) only_return) (auto simp: sized_def)
  qed
qed

lemma sized_resizeVolume:
  assumes "node_laws h v N T" and "size_laws h v vg vol" and "sane_capacity h vol" and "(vg, vol) \<in> N" and "ns_rn ns = NewExecRunner h"
  shows "asks v n (resizeVolume h ns vol vg t) (\<lambda>r. sized vol (path_Join [''/dev'', vg, vol]) (r = None))"
proof -
  let ?d = "path_Join [''/dev'', vg, vol]"
  have ask: "ensures v m (Run h (lv_size_cmd ?d)) (\<lambda>r n'. n' = m \<and>
      (\<forall>out a. r = Inr out \<longrightarrow> ParseInt (TrimSpace (Split out ''.'' ! 0)) = Inr a \<longrightarrow> lv_size m ?d = Some a))" for m
    unfolding Run_def CombinedOutput_def
    by (rule ensures_quiet_bind [OF quiet_commands(2) [OF assms(1,4)]])
       (auto intro!: view_rules dest: size_answered [OF assms(2)])
  have fs: "ensures v m (rn_ResizeFS (ns_rn ns) ?d t) (\<lambda>r n'. n' = m)" "only no_pv (rn_ResizeFS (ns_rn ns) ?d t)" for m
    by (auto simp: assms(5) NewExecRunner_def no_pv_calls intro: view_ResizeFs [OF assms(1)])
  have grown: "asks v m (do {
       e \<leftarrow> Run h (lvextend_cmd (fst (size_args g)) (snd (size_args g)) ?d);
       case e of
         Inl err \<Rightarrow> State_Monad.return (Some err)
       | Inr _ \<Rightarrow> f }) (\<lambda>r hs. sized vol ?d (r = None) ([(vol, g)] @ hs))"
    if "0 \<le> capacity_of g" "is_int64 (capacity_of g)"
      and "\<And>m. has_bytes ?d (lvm_bytes (size_args g)) m \<Longrightarrow> asks v m f (\<lambda>r hs. sized vol ?d (r = None) ([(vol, g)] @ hs))" for m g f
    using size_args_ok [OF that(1,2)] that(3)
    by (intro asks_quiet_bind [OF ensures_sized [OF size_effects(2) [OF assms(2)]] no_pv_calls(1)])
       (auto intro!: ask_rules simp: sized_def)
  show ?thesis
    unfolding resizeVolume_def Let_def
    by (rule asks_bind [OF ask_sizes [OF assms(1,3)]], elim conjE exE, simp only: prod.case)
       (intro ask_rules asks_quiet_bind [OF ask no_pv_calls(1)] grown asks_quiet_bind [OF fs]; use size_args_ok(4) in
         \<open>force simp: sized_def has_bytes_def\<close>)
qed

section \<open>The handlers\<close>

lemma has_bytes_moves: "has_bytes d b n \<Longrightarrow> moves n n' \<Longrightarrow> has_bytes d b n'"
  unfolding has_bytes_def by (meson keeps_data_def moves_keep_data order_trans)

text \<open>A request whose volume can be sized: the laws hold for it, and its type is one that is created.\<close>

definition sizable :: "'w host \<Rightarrow> ('w \<Rightarrow> node) \<Rightarrow> NodePublishVolumeRequest \<Rightarrow> bool" where
  "sizable h v req \<longleftrightarrow> size_laws h v (ctx_or (pub_VolumeContext req) VgNameTag []) (pub_VolumeId req) \<and>
     sane_capacity h (pub_VolumeId req) \<and> ctx_or (pub_VolumeContext req) LvmTypeTag LinearType \<in> {StripingType, LinearType}"

abbreviation sized_req :: "NodePublishVolumeRequest \<Rightarrow> bool \<Rightarrow> (string \<times> (goerror + int)) list \<Rightarrow> node \<Rightarrow> bool" where
  "sized_req req \<equiv> sized (pub_VolumeId req) (lv_device req)"

lemma sized_publish_mount:
  assumes "node_laws h v N T" and "publish_ok N T req" and "valid_publish req" and "sizable h v req"
  shows "asks v n (publish_mount h (NewNodeServer h i) req (ctx_or (pub_VolumeContext req) VgNameTag []) f (lv_device req) False isMnt)
     (\<lambda>r. sized_req req (r = Inr ()))"
proof -
  have rs: "asks v m (resizeVolume h (NewNodeServer h i) (pub_VolumeId req) (ctx_or (pub_VolumeContext req) VgNameTag []) t)
      (\<lambda>r. sized_req req (r = None))" for m t
    unfolding lv_device_def
    by (rule sized_resizeVolume [OF assms(1)]) (use assms(2-4) in \<open>auto simp: sizable_def publish_ok_def\<close>)
  note ck = asks_quiet_bind [OF ensures_any [of v _ "checkFSType h (lv_device req)"] no_pv_calls(5)]
  note fm = asks_quiet_bind [OF ensures_any [of v _ "if _ then formatDevice h (lv_device req) f else State_Monad.return None"]]
  note mt = asks_quiet_bind [OF ensures_any [of v _ "if _ then Mount _ _ _ _ _ else State_Monad.return None"]]
  show ?thesis
    unfolding publish_mount_def Let_def NewNodeServer_parts NewMounter_parts
    by (intro ask_rules ck fm mt only_if no_pv_calls only_return asks_bind [OF rs]) (auto simp: sized_def)
qed

lemma sized_publish_volume:
  assumes "node_laws h v N T" and "publish_ok N T req" and "valid_publish req" and "sizable h v req"
  shows "asks v n (publish_volume h (NewNodeServer h i) req (ctx_or (pub_VolumeContext req) VgNameTag []) f (lv_device req) False)
     (\<lambda>r. sized_req req (r = Done (Inr ())))"
proof -
  note any = asks_quiet_bind [OF ensures_any no_pv_calls(8)] asks_quiet_bind [OF ensures_any no_pv_calls(2)]
    asks_quiet_bind [OF ensures_any no_pv_calls(3)]
  show ?thesis
    unfolding publish_volume_def Let_def NewNodeServer_parts NewMounter_parts
    by (intro ask_rules any asks_bind [OF sized_publish_mount [OF assms]]) (auto simp: sized_def)
qed

text \<open>The part of the handler that publishes a new volume asks nothing.\<close>

lemma publish_new_silent: "only no_pv (publish_finish h (NewNodeServer h i) req True cr)"
  unfolding publish_finish_def addDirectVolume_def publish_volume_def publish_mount_def Let_def NewNodeServer_parts NewMounter_parts
  by (intro only_bind only_if only_sum only_option only_return no_pv_calls) simp_all

lemma publish_uncreated_fails: "ensures v n (publish_finish h ns req new cr) (\<lambda>r n'. cr \<noteq> None \<longrightarrow> r \<noteq> Done (Inr ()))"
  by (cases cr) (auto simp: publish_finish_def ensures_any intro!: view_rules)

lemma sized_publish_prepare:
  assumes "node_laws h v N T" and "sizable h v req"
  shows "asks v n (publish_prepare h req) (\<lambda>r gs n'. (fst r \<longrightarrow> sized_req req (snd r = None) gs n') \<and> (\<not> fst r \<longrightarrow> gs = []))"
proof -
  have create: "asks v m (if new then createVolume h (pub_VolumeId req) (ctx_or (pub_VolumeContext req) VgNameTag []) pt
      (ctx_or (pub_VolumeContext req) LvmTypeTag LinearType) else State_Monad.return None)
      (\<lambda>r gs n'. (new \<longrightarrow> sized_req req (r = None) gs n') \<and> (\<not> new \<longrightarrow> gs = []))" for new pt m
    unfolding lv_device_def using assms
    by (auto simp: sizable_def intro!: asks_weaken [OF sized_createVolume [OF assms(1)]] ask_rules)
  show ?thesis
    unfolding publish_prepare_def Let_def
    by (intro asks_quiet_bind [OF ensures_any no_pv_calls(2)] asks_bind [OF create] ask_rules) auto
qed

lemma asks_setDirect: "asks v n (setDirect b) (\<lambda>_ gs n'. gs = [] \<and> n' = n)"
  by (simp add: asks_def setDirect_def)

lemma sized_NodePublishVolume:
  assumes "node_laws h v N T" and "publish_ok N T req" and "valid_publish req" and "sizable h v req" and "\<not> direct_of (pub_VolumeContext req)"
  shows "asks v n (NodePublishVolume h (NewNodeServer h i) req) (\<lambda>r. sized_req req (r = Done (Inr ())))"
proof -
  have finish: "asks v m (publish_finish h (NewNodeServer h i) req new cr) (\<lambda>r hs. sized_req req (r = Done (Inr ())) (gs @ hs))"
    if "(new \<longrightarrow> sized_req req (cr = None) gs m) \<and> (\<not> new \<longrightarrow> gs = [])" for m new cr gs
  proof (cases "cr = None \<and> \<not> new")
    case True
    with that show ?thesis
      using sized_publish_volume [OF assms(1-4)] by (simp add: publish_finish_def assms(5) device_of_lv)
  next
    case False
    show ?thesis
    proof (cases new)
      case True
      then have new: "new = True" by simp
      show ?thesis
        unfolding new
        by (rule asks_weaken [OF asks_silent [OF ensures_conj [OF view_publish_finish [OF assms(1-3)] publish_uncreated_fails] publish_new_silent]])
           (use that True in \<open>auto simp: sized_def published_def Let_def within_def intro: has_bytes_moves\<close>)
    next
      case new: False
      with False show ?thesis by (auto simp: publish_finish_def sized_def intro!: ask_rules)
    qed
  qed
  show ?thesis
    unfolding NodePublishVolume_eq [OF assms(3)]
    by (rule asks_bind [OF asks_setDirect], elim conjE, simp only: append_Nil, rule asks_bind [OF sized_publish_prepare [OF assms(1,4)]], rule asks_prod)
       (auto intro: finish)
qed

text \<open>Whenever the API server answers, it reports this group for the volume.\<close>

definition reported_group :: "'w host \<Rightarrow> string \<Rightarrow> string \<Rightarrow> bool" where
  "reported_group h vol vg \<longleftrightarrow> (\<forall>w pv w'. get_pv h vol w = (Inr pv, w') \<longrightarrow> GetVGNameFromCsiPV h (Some pv) = Done vg)"

text \<open>What expanding does after it has found the flag for direct volumes unset.\<close>

definition expand_rest :: "'w host \<Rightarrow> ('w, 'z) nodeServer \<Rightarrow> NodeExpandVolumeRequest \<Rightarrow> ('w, 'z, (goerror + unit) outcome) prog" where
  "expand_rest h ns req = do {
     (_, _, _, pv) \<leftarrow> getPvInfo h (exp_VolumeId req);
     case GetVGNameFromCsiPV h pv of
       Panic m \<Rightarrow> State_Monad.return (Panic m)
     | Done vgName \<Rightarrow>
         if vgName = [] then
           State_Monad.return (Done (Inl (StatusError Internal
             (''resizeVolume: Volume '' @ (case pv of None \<Rightarrow> [] | Some p \<Rightarrow> pv_Name p) @ '' with vgname empty''))))
         else do {
           r \<leftarrow> resizeVolume h ns (exp_VolumeId req) vgName (exp_VolumePath req);
           case r of
             Some err \<Rightarrow> State_Monad.return (Done (Inl (StatusError Internal
               (''NodeExpandVolume: Resize local volume '' @ exp_VolumeId req @ '' with error: '' @ Error (quote h) err))))
           | None \<Rightarrow> State_Monad.return (Done (Inr ()))
         }
   }"

lemma expand_ordinary:
  assumes "\<not> isDirect s" and "exp_VolumeId req \<noteq> []" and "exp_VolumePath req \<noteq> []" and "exp_RequiredBytes req \<noteq> None"
  shows "run_state (NodeExpandVolume h ns req) s = run_state (expand_rest h ns req) s"
  using assms by (auto simp: NodeExpandVolume_def expand_rest_def getDirect_def Let_def)

lemma no_group_panics: "\<exists>m. GetVGNameFromCsiPV h None = Panic m"
  by (simp add: GetVGNameFromCsiPV_def GetAllocatedInfoFromPVAnnotation_def)

lemma sized_expand_rest:
  assumes "node_laws h v N T" and "size_laws h v vg (exp_VolumeId req)" and "sane_capacity h (exp_VolumeId req)"
    and "reported_group h (exp_VolumeId req) vg" and "(vg, exp_VolumeId req) \<in> N"
  shows "asks v n (expand_rest h (NewNodeServer h i) req) (\<lambda>r gs n'. r = Done (Inr ()) \<longrightarrow>
     (\<exists>c g. gs = [(exp_VolumeId req, Inr c), (exp_VolumeId req, g)] \<and>
        has_bytes (path_Join [''/dev'', vg, exp_VolumeId req]) (lvm_bytes (size_args g)) n'))"
proof -
  let ?vol = "exp_VolumeId req"
  have rs: "asks v m (resizeVolume h (NewNodeServer h i) ?vol vg t) (\<lambda>r. sized ?vol (path_Join [''/dev'', vg, ?vol]) (r = None))" for m t
    by (rule sized_resizeVolume [OF assms(1-3,5)]) (simp add: NewNodeServer_parts)
  have pv: "asks v n (getPvInfo h ?vol) (\<lambda>r gs n'. (r = (0, 0, [], None) \<or>
      (\<exists>pv c. GetVGNameFromCsiPV h (Some pv) = Done vg \<and> r = pv_info pv \<and> gs = [(?vol, Inr c)])))"
  proof (rule asks_weaken [OF ask_getPvInfo [OF assms(1)]], elim conjE exE)
    fix r n' w w' gs and a :: "goerror + PersistentVolume"
    assume "get_pv h ?vol w = (a, w')" "gs = [(?vol, map_sum id storage_bytes a)]" "r = pv_answer_info a"
    then show "r = (0, 0, [], None) \<or> (\<exists>pv c. GetVGNameFromCsiPV h (Some pv) = Done vg \<and> r = pv_info pv \<and> gs = [(?vol, Inr c)])"
      using assms(4) by (cases a) (auto simp: pv_answer_info_def reported_group_def)
  qed
  show ?thesis
    unfolding expand_rest_def using no_group_panics [of h]
    by (intro asks_bind [OF pv]) (auto simp: pv_info_size sized_def intro!: ask_rules asks_bind [OF rs])
qed

text \<open>A failed request for the persistent volume makes resizing succeed without extending anything.\<close>

theorem failed_read_skips_resize:
  assumes "get_pv h vol (world s) = (Inl e, w1)"
    and "exec_combined h ''sh'' [''-c'', lv_size_cmd (path_Join [''/dev'', vg, vol])] w1 = ((out, None), w2)"
    and "out \<noteq> []" and "lv_size_of out = Inr n" and "0 \<le> n"
  shows "result (resizeVolume h (NewNodeServer h i) vol vg t) s = None \<and>
     new_events (resizeVolume h (NewNodeServer h i) vol vg t) s =
       [GetPVEv vol (Inl e), ExecEv ''sh'' [''-c'', lv_size_cmd (path_Join [''/dev'', vg, vol])] out None]"
  using assms
  by (simp add: result_def new_events_def resizeVolume_def getPvInfo_def Run_def host_call_defs lv_size_of_def Let_def)

section \<open>Properties\<close>

text \<open>The node of the examples with a volume of 4 GiB that is mounted on the target.\<close>

definition mounted_start :: "node nodeState" where
  "mounted_start = sim_start\<lparr>world := \<lparr>lv_size = [''/dev/g/v'' \<mapsto> 4 * Gi_bytes], fs_on = [''/dev/g/v'' \<mapsto> (''ext4'', 7)],
     mounted_on = [''/t'' \<mapsto> ''/dev/g/v''], made = 8\<rparr>\<rparr>"

lemma sim_size_arg: "is_int64 sz \<Longrightarrow> u \<in> {[], ''m'', ''g''} \<Longrightarrow> size_arg (show_int sz @ u) = sz * unit_bytes u"
proof -
  assume sz: "is_int64 sz" and u: "u \<in> {[], ''m'', ''g''}"
  have plain: "size_arg (show_int sz) = sz * Mi_bytes"
  proof -
    have "last (show_int sz) \<in> set (show_int sz)" by (rule last_in_set) (use Atoi_show [OF sz] in \<open>auto simp: Atoi_def parse_int64_def ParseUint_def\<close>)
    from show_int_chars [OF this] have "last (show_int sz) \<noteq> CHR ''g''" "last (show_int sz) \<noteq> CHR ''m''"
      by (auto simp: is_digit_def)
    then show ?thesis using Atoi_show [OF sz] by (simp add: size_arg_def)
  qed
  show ?thesis
    using u plain Atoi_show [OF sz] by (auto simp: size_arg_def unit_bytes_def Gi_bytes_def Mi_bytes_def butlast_append)
qed

lemma sim_size_laws:
  assumes "name_MatchString vg" and "name_MatchString vol"
  shows "size_laws (sim_host pv) id vg vol"
  unfolding size_laws_def Let_def
proof (intro conjI allI impI)
  fix k sz u assume "is_int64 sz" "u \<in> {[], ''m'', ''g''}"
  then show "effect (\<lambda>n. has_bytes (path_Join [''/dev'', vg, vol]) (sz * unit_bytes u)) id
      (exec_combined (sim_host pv) ''sh'' [''-c'', create_cmd k vol sz u vg])"
    by (auto simp: effect_def sim_exec_def sim_create [OF assms] Let_def tool_failed_def has_bytes_def sim_size_arg sim_size_arg [where u = "[]", simplified]
        split: option.splits)
next
  fix sz u assume "is_int64 sz" "u \<in> {[], ''m'', ''g''}"
  then show "effect (\<lambda>n. has_bytes (path_Join [''/dev'', vg, vol]) (sz * unit_bytes u)) id
      (exec_combined (sim_host pv) ''sh'' [''-c'', lvextend_cmd sz u (path_Join [''/dev'', vg, vol])])"
    by (auto simp: effect_def sim_exec_def sim_extend [OF assms] Let_def tool_failed_def has_bytes_def sim_size_arg sim_size_arg [where u = "[]", simplified]
        split: option.splits)
next
  fix w out w' a
  assume "exec_combined (sim_host pv) ''sh'' [''-c'', lv_size_cmd (path_Join [''/dev'', vg, vol])] w = ((out, None), w')"
    and "ParseInt (TrimSpace (Split out ''.'' ! 0)) = Inr a"
  then show "lv_size (id w) (path_Join [''/dev'', vg, vol]) = Some a"
    by (auto simp: sim_exec_def sim_size [OF assms] tool_failed_def size_answer show_int_trim ParseInt_show split: option.splits if_splits)
qed

lemma sim_capacity: "sane_capacity (sim_host sim_pv) vol" "has_capacity (sim_host sim_pv) vol (5 * Gi_bytes)"
  by (simp_all add: sane_capacity_def has_capacity_def)
     (simp_all add: sim_pv_def storage_bytes_def Gi_bytes_def is_int64_def min_int64_def max_int64_def)

lemma sample_sizable: "sizable (sim_host sim_pv) id sample_req"
proof -
  have "ctx_or (pub_VolumeContext sample_req) VgNameTag [] = ''g''" "pub_VolumeId sample_req = ''v''"
    "ctx_or (pub_VolumeContext sample_req) LvmTypeTag LinearType = LinearType"
    by (simp_all add: sample_req_def ctx_or_def)
  then show ?thesis
    by (simp add: sizable_def sim_size_laws sample_names sim_capacity del: name_MatchString.simps)
qed

text \<open>
  C7: A pod gets the space it asked for, as far as the API server tells. When a publish request succeeds for a volume that is not direct and is linear or striped, the
  handler has asked the API server for the persistent volume exactly once, and the logical volume exists and has at least the capacity that
  the answer gives, rounded down to whole GiB (below one GiB, to whole MiB), whether the request has created it,
  has extended it or has found it large enough. The API request may fail: \<open>g\<close> is then an error, the size that the code takes is zero, and
  the statement only says that the volume exists (\<open>failed_read_skips_resize\<close>: an existing volume is in this case not extended, and that is no
  error).
\<close>

theorem published_has_capacity:
  assumes "node_laws h v N T" and "publish_ok N T req" and "sizable h v req" and "\<not> direct_of (pub_VolumeContext req)"
    and "result (NodePublishVolume h (NewNodeServer h i) req) s = Done (Inr ())"
  shows "\<exists>g. pv_answers (new_events (NodePublishVolume h (NewNodeServer h i) req) s) = [(pub_VolumeId req, g)] \<and>
     (\<exists>a. lv_size (node_after v (NodePublishVolume h (NewNodeServer h i) req) s) (lv_device req) = Some a \<and> lvm_bytes (size_args g) \<le> a)"
proof (cases "valid_publish req")
  case True
  show ?thesis
    using asks_node [OF sized_NodePublishVolume [OF assms(1,2) True assms(3,4)], of i s] assms(5) by (simp add: sized_def has_bytes_def)
next
  case False
  then show ?thesis
    using assms(5) by (auto simp: NodePublishVolume_def valid_publish_def Let_def result_def split: if_splits)
qed

theorem published_has_capacity_witness:
  "node_laws (sim_host sim_pv) id sim_volumes sim_targets \<and> publish_ok sim_volumes sim_targets sample_req \<and> sizable (sim_host sim_pv) id sample_req \<and>
   (\<exists>g a. pv_answers (new_events (NodePublishVolume (sim_host sim_pv) (NewNodeServer (sim_host sim_pv) ''n'') sample_req) sim_start) = [(''v'', g)] \<and>
      lv_size (node_after id (NodePublishVolume (sim_host sim_pv) (NewNodeServer (sim_host sim_pv) ''n'') sample_req) sim_start) ''/dev/g/v'' =
      Some a \<and> lvm_bytes (size_args g) \<le> a)"
proof -
  have "result (NodePublishVolume (sim_host sim_pv) (NewNodeServer (sim_host sim_pv) ''n'') sample_req) sim_start = Done (Inr ())"
    by (rule ensures_at [OF live_NodePublishVolume [OF sim_laws sample_publishable]]) (simp_all add: sim_start_node sample_ready)
  from published_has_capacity [OF sim_laws sample_publish_ok(1) sample_sizable publishableD(3) [OF sample_publishable] this]
  have "\<exists>g a. pv_answers (new_events (NodePublishVolume (sim_host sim_pv) (NewNodeServer (sim_host sim_pv) ''n'') sample_req) sim_start) =
        [(pub_VolumeId sample_req, g)] \<and>
      lv_size (node_after id (NodePublishVolume (sim_host sim_pv) (NewNodeServer (sim_host sim_pv) ''n'') sample_req) sim_start) ''/dev/g/v'' =
      Some a \<and> lvm_bytes (size_args g) \<le> a"
    unfolding sample_publish_ok(3) by blast
  moreover have "pub_VolumeId sample_req = ''v''" by (simp add: sample_req_def)
  ultimately show ?thesis using sim_laws sample_publish_ok sample_sizable by (simp only: simp_thms)
qed

text \<open>
  C9: When an expand request succeeds while the flag for direct volumes is unset, the handler has asked the API server for the persistent volume twice. The first
  request has succeeded (it gives the group; the handler panics if it fails). The volume has at least the capacity that the answer to
  the second gives, rounded down as in the publish request. If the second request fails, the size that the code takes is zero: the expand request succeeds
  and the statement only says that the volume exists (nothing is extended then, see \<open>failed_read_skips_resize\<close>). With the flag set, the request succeeds and nothing is done, whatever the volume.
\<close>

theorem expanded_has_capacity:
  assumes "node_laws h v N T" and "size_laws h v vg (exp_VolumeId req)" and "sane_capacity h (exp_VolumeId req)"
    and "reported_group h (exp_VolumeId req) vg" and "(vg, exp_VolumeId req) \<in> N"
    and "result (NodeExpandVolume h (NewNodeServer h i) req) s = Done (Inr ())"
  shows "if isDirect s then run_state (NodeExpandVolume h (NewNodeServer h i) req) s = (Done (Inr ()), s)
     else \<exists>c g. pv_answers (new_events (NodeExpandVolume h (NewNodeServer h i) req) s) = [(exp_VolumeId req, Inr c), (exp_VolumeId req, g)] \<and>
       (\<exists>a. lv_size (node_after v (NodeExpandVolume h (NewNodeServer h i) req) s) (path_Join [''/dev'', vg, exp_VolumeId req]) = Some a \<and>
         lvm_bytes (size_args g) \<le> a)"
proof -
  have args: "exp_VolumeId req \<noteq> []" "exp_VolumePath req \<noteq> []" "exp_RequiredBytes req \<noteq> None"
    using assms(6) by (auto simp: NodeExpandVolume_def result_def Let_def split: if_splits option.splits)
  show ?thesis
  proof (cases "isDirect s")
    case True
    with args show ?thesis by (auto simp: NodeExpandVolume_def getDirect_def Let_def)
  next
    case False
    note eq = expand_ordinary [OF False args, of h "NewNodeServer h i"]
    from asks_node [OF sized_expand_rest [OF assms(1-5)], of i s] assms(6)
    have "\<exists>c g. pv_answers (new_events (expand_rest h (NewNodeServer h i) req) s) = [(exp_VolumeId req, Inr c), (exp_VolumeId req, g)] \<and>
        has_bytes (path_Join [''/dev'', vg, exp_VolumeId req]) (lvm_bytes (size_args g)) (node_after v (expand_rest h (NewNodeServer h i) req) s)"
      by (simp add: result_def eq)
    with False show ?thesis by (simp add: has_bytes_def node_after_def new_events_def eq)
  qed
qed

theorem expanded_has_capacity_witness:
  "node_laws (sim_host sim_pv) id sim_volumes sim_targets \<and> size_laws (sim_host sim_pv) id ''g'' ''v'' \<and> sane_capacity (sim_host sim_pv) ''v'' \<and>
   reported_group (sim_host sim_pv) ''v'' ''g'' \<and>
   (\<exists>g a. lv_size (node_after id (NodeExpandVolume (sim_host sim_pv) (NewNodeServer (sim_host sim_pv) ''n'') sample_expand) mounted_start) ''/dev/g/v'' =
      Some a \<and> lvm_bytes (size_args g) \<le> a)"
proof -
  have group: "GetVGNameFromCsiPV (sim_host sim_pv) (Some sim_pv) = Done ''g''"
    by (simp add: sim_pv_def GetVGNameFromCsiPV_def GetAllocatedInfoFromPVAnnotation_def Let_def)
  then have rep: "reported_group (sim_host sim_pv) ''v'' ''g''"
    by (simp add: reported_group_def)
  have pv: "ensures id n (getPvInfo (sim_host sim_pv) ''v'') (\<lambda>r n'. n' = n \<and> r = pv_info sim_pv)" for n
    by (rule ensures_weaken [OF view_pv_answer [OF sim_laws]]) (simp add: pv_answer_info_def)
  have resize: "ensures id n (resizeVolume (sim_host sim_pv) (NewNodeServer (sim_host sim_pv) ''n'') ''v'' ''g'' ''/t'') (\<lambda>r n'. r = None)"
    if "lv_size n ''/dev/g/v'' = Some (4 * Gi_bytes)" "fs_on n ''/dev/g/v'' = Some (''ext4'', 7)" "mounted_on n ''/t'' = Some ''/dev/g/v''" for n
    using that sample_names sample_volume sim_capacity(2)
    by (intro live_resizeVolume [OF sim_laws sim_healthy_lvm, where c = "5 * Gi_bytes" and a = "4 * Gi_bytes" and f = "''ext4''" and opts = "[]"] sim_healthy_fs)
       (simp_all add: sample_values sim_group_def Gi_bytes_def is_int64_def min_int64_def max_int64_def del: name_MatchString.simps)
  have "ensures id n (expand_rest (sim_host sim_pv) (NewNodeServer (sim_host sim_pv) ''n'') sample_expand) (\<lambda>r n'. r = Done (Inr ()))"
    if "lv_size n ''/dev/g/v'' = Some (4 * Gi_bytes)" "fs_on n ''/dev/g/v'' = Some (''ext4'', 7)" "mounted_on n ''/t'' = Some ''/dev/g/v''" for n
    unfolding expand_rest_def
    by (auto simp: sample_expand_def pv_info_size group that intro!: ensures_seq [OF pv] ensures_seq [OF resize] view_rules)
  from ensures_at [OF this, of mounted_start]
  have "result (expand_rest (sim_host sim_pv) (NewNodeServer (sim_host sim_pv) ''n'') sample_expand) mounted_start = Done (Inr ())"
    by (simp add: node_before_def mounted_start_def)
  moreover have start: "\<not> isDirect mounted_start" by (simp add: mounted_start_def sim_start_def)
  ultimately have ok: "result (NodeExpandVolume (sim_host sim_pv) (NewNodeServer (sim_host sim_pv) ''n'') sample_expand) mounted_start = Done (Inr ())"
    by (simp add: result_def expand_ordinary sample_expand_def)
  have vol: "exp_VolumeId sample_expand = ''v''" by (simp add: sample_expand_def)
  show ?thesis
    using expanded_has_capacity [OF sim_laws, of "''g''" sample_expand "''n''" mounted_start] ok start
      rep sim_laws sim_size_laws [OF sample_names] sim_capacity(1) sample_volume
    by (auto simp: vol sample_values simp del: name_MatchString.simps)
qed

end
