(* ===== verification/Go_Store.thy ===== *)
theory Go_Store
  imports Go_Base
begin

text \<open>
  The contract of the maps that the packages keep behind methods (scheduler names of claims, weights of
  volume types, volumes with an operation in flight): reading gives what was last written. The locale
  \<open>store\<close> states it for single writes and derives it for sequences of writes, \<open>removable_store\<close> adds
  removal and derives it for whole histories of calls. Keys may be restricted to those on which the
  implementation keeps its entries apart, states to those that satisfy its invariant.
\<close>

datatype ('k, 'v) call = PutCall 'k 'v | DelCall 'k

primrec call_key :: "('k, 'v) call \<Rightarrow> 'k" where
  "call_key (PutCall k v) = k"
| "call_key (DelCall k) = k"

primrec call_value :: "'v \<Rightarrow> ('k, 'v) call \<Rightarrow> 'v" where
  "call_value d (PutCall k v) = v"
| "call_value d (DelCall k) = d"

primrec apply_call :: "('k \<Rightarrow> 'v \<Rightarrow> 's \<Rightarrow> 's) \<Rightarrow> ('k \<Rightarrow> 's \<Rightarrow> 's) \<Rightarrow> ('k, 'v) call \<Rightarrow> 's \<Rightarrow> 's" where
  "apply_call put del (PutCall k v) s = put k v s"
| "apply_call put del (DelCall k) s = del k s"

text \<open>The value of a key after a history of calls: that of the last call on the key.\<close>

definition last_value :: "'v \<Rightarrow> ('k, 'v) call list \<Rightarrow> 'k \<Rightarrow> 'v \<Rightarrow> 'v" where
  "last_value d cs k v0 = (case filter (\<lambda>c. call_key c = k) (rev cs) of [] \<Rightarrow> v0 | c # _ \<Rightarrow> call_value d c)"

lemma last_value_snoc [simp]:
  "last_value d (cs @ [c]) k v0 = (if call_key c = k then call_value d c else last_value d cs k v0)"
  by (simp add: last_value_def)

lemma last_value_Nil [simp]: "last_value d [] k v0 = v0"
  by (simp add: last_value_def)

locale store =
  fixes inv :: "'s \<Rightarrow> bool" and valid :: "'k \<Rightarrow> bool"
    and get :: "'s \<Rightarrow> 'k \<Rightarrow> 'v" and put :: "'k \<Rightarrow> 'v \<Rightarrow> 's \<Rightarrow> 's"
  assumes put_inv: "inv s \<Longrightarrow> inv (put k v s)"
    and get_put: "inv s \<Longrightarrow> valid k \<Longrightarrow> valid k' \<Longrightarrow> get (put k v s) k' = (if k' = k then v else get s k')"
begin

lemma puts_inv: "inv s \<Longrightarrow> inv (fold (\<lambda>(k, v). put k v) kvs s)"
  by (induction kvs arbitrary: s) (auto simp: put_inv)

lemma get_puts:
  assumes "inv s" and "list_all (\<lambda>(k, v). valid k) kvs" and "valid k"
  shows "get (fold (\<lambda>(k, v). put k v) kvs s) k = (case map_of (rev kvs) k of Some v \<Rightarrow> v | None \<Rightarrow> get s k)"
  using assms
proof (induction kvs rule: rev_induct)
  case (snoc kv kvs)
  then show ?case using puts_inv [of s kvs] by (cases kv) (auto simp: get_put)
qed simp

end

locale removable_store = store inv valid get put
  for inv :: "'s \<Rightarrow> bool" and valid :: "'k \<Rightarrow> bool"
    and get :: "'s \<Rightarrow> 'k \<Rightarrow> 'v" and put :: "'k \<Rightarrow> 'v \<Rightarrow> 's \<Rightarrow> 's" +
  fixes dflt :: 'v and del :: "'k \<Rightarrow> 's \<Rightarrow> 's"
  assumes del_inv: "inv s \<Longrightarrow> inv (del k s)"
    and get_del: "inv s \<Longrightarrow> valid k \<Longrightarrow> valid k' \<Longrightarrow> get (del k s) k' = (if k' = k then dflt else get s k')"
begin

lemma call_inv: "inv s \<Longrightarrow> inv (apply_call put del c s)"
  by (cases c) (auto simp: put_inv del_inv)

lemma history_inv: "inv s \<Longrightarrow> inv (fold (apply_call put del) cs s)"
  by (induction cs arbitrary: s) (auto simp: call_inv)

lemma get_history:
  assumes "inv s" and "list_all (\<lambda>c. valid (call_key c)) cs" and "valid k"
  shows "get (fold (apply_call put del) cs s) k = last_value dflt cs k (get s k)"
  using assms
proof (induction cs rule: rev_induct)
  case (snoc c cs)
  then show ?case using history_inv [of s cs] by (cases c) (auto simp: get_put get_del)
qed simp

end

end
