(* ===== verification/Csi_Interface.thy ===== *)
theory Csi_Interface
  imports Go_Strings Go_Store
begin

text \<open>
  \<open>pkg/csi/interface.go\<close>: the capabilities of the services and the two tables of the scheduler. A method
  of \<open>PvcPodSchedulerMap\<close> runs under the lock of the table, so it is one atomic step.
\<close>

section \<open>Capabilities\<close>

datatype node_cap = STAGE_UNSTAGE_VOLUME | NODE_EXPAND_VOLUME | GET_VOLUME_STATS

datatype controller_cap = CREATE_DELETE_VOLUME | PUBLISH_UNPUBLISH_VOLUME | CREATE_DELETE_SNAPSHOT | EXPAND_VOLUME

datatype access_mode = SINGLE_NODE_WRITER | MULTI_NODE_MULTI_WRITER

definition VolumeCaps :: "access_mode list" where
  "VolumeCaps = [SINGLE_NODE_WRITER]"

definition ControllerCaps :: "controller_cap list" where
  "ControllerCaps = [CREATE_DELETE_VOLUME, CREATE_DELETE_SNAPSHOT, EXPAND_VOLUME]"

definition NodeCaps :: "node_cap list" where
  "NodeCaps = [STAGE_UNSTAGE_VOLUME, NODE_EXPAND_VOLUME, GET_VOLUME_STATS]"

section \<open>The scheduler of a claim\<close>

record PvcPodSchedulerMap =
  pvc_info :: "string \<rightharpoonup> string"

definition pvc_key :: "string \<times> string \<Rightarrow> string" where
  "pvc_key k = fst k @ ''/'' @ snd k"

definition newPvcPodSchedulerMap :: PvcPodSchedulerMap where
  "newPvcPodSchedulerMap = \<lparr>pvc_info = Map.empty\<rparr>"

definition pvc_Add :: "string \<times> string \<Rightarrow> string \<Rightarrow> PvcPodSchedulerMap \<Rightarrow> PvcPodSchedulerMap" where
  "pvc_Add k schedulerName m = m\<lparr>pvc_info := (pvc_info m)(pvc_key k \<mapsto> schedulerName)\<rparr>"

definition pvc_Get :: "PvcPodSchedulerMap \<Rightarrow> string \<times> string \<Rightarrow> string" where
  "pvc_Get m k = (case pvc_info m (pvc_key k) of None \<Rightarrow> [] | Some v \<Rightarrow> v)"

definition pvc_Remove :: "string \<times> string \<Rightarrow> PvcPodSchedulerMap \<Rightarrow> PvcPodSchedulerMap" where
  "pvc_Remove k m = m\<lparr>pvc_info := (pvc_info m)(pvc_key k := None)\<rparr>"

section \<open>The architecture of a scheduler\<close>

definition SchedulerArchExtender :: string where "SchedulerArchExtender = ''extender''"
definition SchedulerArchFramework :: string where "SchedulerArchFramework = ''scheduling-framework''"
definition SchedulerArchUnknown :: string where "SchedulerArchUnknown = ''unknown''"

record SchedulerArchMap =
  arch_info :: "string \<rightharpoonup> string"

definition newSchedulerArchMap :: "string list \<Rightarrow> string list \<Rightarrow> SchedulerArchMap" where
  "newSchedulerArchMap extenderSchedulerNames frameworkSchedulerNames =
     (let info0 = Map.empty;
          info1 = fold (\<lambda>name info. info(name \<mapsto> SchedulerArchExtender)) extenderSchedulerNames info0;
          info2 = fold (\<lambda>name info. info(name \<mapsto> SchedulerArchFramework)) frameworkSchedulerNames info1
      in \<lparr>arch_info = info2\<rparr>)"

definition arch_Get :: "SchedulerArchMap \<Rightarrow> string \<Rightarrow> string" where
  "arch_Get m schedulerName = (case arch_info m schedulerName of None \<Rightarrow> SchedulerArchUnknown | Some arch \<Rightarrow> arch)"

section \<open>Behaviour\<close>

text \<open>Namespaces of Kubernetes objects hold no slash; this keeps the keys of different claims apart.\<close>

definition valid_claim :: "string \<times> string \<Rightarrow> bool" where
  "valid_claim k \<longleftrightarrow> CHR ''/'' \<notin> set (fst k)"

lemma pvc_key_inj:
  assumes "valid_claim k" and "valid_claim k'" and "pvc_key k = pvc_key k'"
  shows "k = k'"
proof -
  have "Cut (pvc_key j) ''/'' = Some j" if "valid_claim j" for j
    using that by (simp add: pvc_key_def valid_claim_def Cut_char)
  with assms show ?thesis by (metis option.inject)
qed

interpretation claims: removable_store "\<lambda>_. True" valid_claim pvc_Get pvc_Add "[]" pvc_Remove
  by unfold_locales (auto simp: pvc_Get_def pvc_Add_def pvc_Remove_def dest: pvc_key_inj)

lemma fold_arch: "fold (\<lambda>name info. info(name \<mapsto> a)) ns m x = (if x \<in> set ns then Some a else m x)"
  by (induction ns arbitrary: m) auto

section \<open>Theorems\<close>

text \<open>
  C35: After any history of \<open>Add\<close> and \<open>Remove\<close> calls on a new table, for claims whose namespaces hold no slash,
  \<open>Get\<close> returns the scheduler of the last \<open>Add\<close> for the claim, or the empty string when the claim was never
  added or was removed last.
\<close>

theorem claim_scheduler_history:
  assumes "list_all (\<lambda>c. valid_claim (call_key c)) cs" and "valid_claim k"
  shows "pvc_Get (fold (apply_call pvc_Add pvc_Remove) cs newPvcPodSchedulerMap) k = last_value [] cs k []"
  using claims.get_history [OF TrueI assms, of newPvcPodSchedulerMap]
  by (simp add: pvc_Get_def newPvcPodSchedulerMap_def)

theorem claim_scheduler_history_witness:
  "pvc_Get (fold (apply_call pvc_Add pvc_Remove)
     [PutCall (''ns'', ''a'') ''x'', PutCall (''ns'', ''b'') ''y'', DelCall (''ns'', ''b'')] newPvcPodSchedulerMap) (''ns'', ''a'') = ''x''"
  using claim_scheduler_history [of "[PutCall (''ns'', ''a'') ''x'', PutCall (''ns'', ''b'') ''y'', DelCall (''ns'', ''b'')]" "(''ns'', ''a'')"]
  by (simp add: valid_claim_def last_value_def)

text \<open>
  The architecture of a scheduler is the framework if it is among the framework names (also when it is
  listed in both), else the extender if it is among the extender names, else unknown.
\<close>

theorem scheduler_arch_lookup:
  "arch_Get (newSchedulerArchMap es fs) n =
     (if n \<in> set fs then SchedulerArchFramework else if n \<in> set es then SchedulerArchExtender else SchedulerArchUnknown)"
  by (simp add: newSchedulerArchMap_def arch_Get_def fold_arch)

end
