(* ===== verification/Lvm_Driver.thy ===== *)
theory Lvm_Driver
  imports Lvm_NodeServer Csi_Interface Sample_Host
begin

text \<open>
  The rest of the CSI services: \<open>pkg/csi/lvm/controllerserver.go\<close>, \<open>identityserver.go\<close>, \<open>lvm.go\<close> and the
  handlers of \<open>nodeserver.go\<close> that only answer from constants. The driver object is the one of the
  csi-common package, \<open>driver.go\<close>, whose methods the controller and the constructor call.
\<close>

section \<open>The driver object of csi-common\<close>

record CSIDriver =
  drv_name :: string
  drv_nodeID :: string
  drv_version :: string
  drv_cap :: "controller_cap list"
  drv_vc :: "access_mode list"

definition NewCSIDriver :: "string \<Rightarrow> string \<Rightarrow> string \<Rightarrow> CSIDriver option" where
  "NewCSIDriver name v nodeID =
     (if name = [] then None
      else if nodeID = [] then None
      else if v = [] then None
      else Some \<lparr>drv_name = name, drv_nodeID = nodeID, drv_version = v, drv_cap = [], drv_vc = []\<rparr>)"

primrec cap_String :: "controller_cap \<Rightarrow> string" where
  "cap_String CREATE_DELETE_VOLUME = ''CREATE_DELETE_VOLUME''"
| "cap_String PUBLISH_UNPUBLISH_VOLUME = ''PUBLISH_UNPUBLISH_VOLUME''"
| "cap_String CREATE_DELETE_SNAPSHOT = ''CREATE_DELETE_SNAPSHOT''"
| "cap_String EXPAND_VOLUME = ''EXPAND_VOLUME''"

definition ValidateControllerServiceRequest :: "CSIDriver \<Rightarrow> controller_cap \<Rightarrow> goerror option" where
  "ValidateControllerServiceRequest d c =
     (if c \<in> set (drv_cap d) then None else Some (StatusError InvalidArgument (cap_String c)))"

section \<open>Controller service\<close>

type_synonym topology = "string \<rightharpoonup> string"

record TopologyRequirement =
  req_Preferred :: "topology list"
  req_Requisite :: "topology list"

record CreateVolumeRequest =
  cr_Name :: string
  cr_VolumeCapabilities :: "access_mode list option"
  cr_RequiredBytes :: "int option"
  cr_Parameters :: "string \<rightharpoonup> string"
  cr_AccessibilityRequirements :: "TopologyRequirement option"

record Volume =
  vol_VolumeId :: string
  vol_CapacityBytes :: int
  vol_VolumeContext :: "string \<rightharpoonup> string"
  vol_AccessibleTopology :: "topology list"

fun pick_loop :: "topology list \<Rightarrow> string option" where
  "pick_loop [] = None"
| "pick_loop (t # ts) = (case t TopologyNodeKey of Some nodeID \<Rightarrow> Some nodeID | None \<Rightarrow> pick_loop ts)"

definition pickNodeID :: "TopologyRequirement option \<Rightarrow> string" where
  "pickNodeID requirement =
     (case requirement of
        None \<Rightarrow> []
      | Some r \<Rightarrow>
          (case pick_loop (req_Preferred r) of
             Some nodeID \<Rightarrow> nodeID
           | None \<Rightarrow> (case pick_loop (req_Requisite r) of Some nodeID \<Rightarrow> nodeID | None \<Rightarrow> [])))"

text \<open>\<open>GetCapacityRange().GetRequiredBytes()\<close> is 0 for a nil range.\<close>

definition required_bytes :: "int option \<Rightarrow> int" where
  "required_bytes r = (case r of None \<Rightarrow> 0 | Some b \<Rightarrow> b)"

definition CreateVolume :: "CSIDriver \<Rightarrow> CreateVolumeRequest \<Rightarrow> goerror + Volume" where
  "CreateVolume d req =
     (case ValidateControllerServiceRequest d CREATE_DELETE_VOLUME of
        Some err \<Rightarrow> Inl err
      | None \<Rightarrow>
          if cr_Name req = [] then Inl (StatusError InvalidArgument ''Volume Name cannot be empty'')
          else if cr_VolumeCapabilities req = None then
            Inl (StatusError InvalidArgument ''Volume Capabilities cannot be empty'')
          else
            (let volumeID = cr_Name req;
                 nodeID = pickNodeID (cr_AccessibilityRequirements req)
             in if nodeID = [] then
                  Inr \<lparr>vol_VolumeId = volumeID, vol_CapacityBytes = required_bytes (cr_RequiredBytes req),
                    vol_VolumeContext = cr_Parameters req, vol_AccessibleTopology = []\<rparr>
                else
                  Inr \<lparr>vol_VolumeId = volumeID, vol_CapacityBytes = required_bytes (cr_RequiredBytes req),
                    vol_VolumeContext = cr_Parameters req,
                    vol_AccessibleTopology = [[TopologyNodeKey \<mapsto> nodeID]]\<rparr>))"

definition ControllerGetVolume :: "string \<Rightarrow> goerror + unit" where
  "ControllerGetVolume volumeId = Inl (StatusError Unimplemented [])"

definition DeleteVolume :: "string \<Rightarrow> goerror + unit" where
  "DeleteVolume volumeId = Inr ()"

definition ControllerUnpublishVolume :: "string \<Rightarrow> goerror + unit" where
  "ControllerUnpublishVolume volumeId = Inr ()"

definition ControllerPublishVolume :: "string \<Rightarrow> goerror + unit" where
  "ControllerPublishVolume volumeId = Inr ()"

text \<open>The answer: the new capacity and whether the node has to expand the file system.\<close>

definition ControllerExpandVolume :: "int option \<Rightarrow> goerror + (int \<times> bool)" where
  "ControllerExpandVolume requiredBytes = Inr (required_bytes requiredBytes, True)"

section \<open>Identity service and constant answers of the node service\<close>

record identityServer =
  ids_Driver :: CSIDriver

definition newIdentityServer :: "CSIDriver \<Rightarrow> identityServer" where
  "newIdentityServer d = \<lparr>ids_Driver = d\<rparr>"

text \<open>\<open>GetPluginInfo\<close> is the method of the embedded default server.\<close>

definition GetPluginInfo :: "identityServer \<Rightarrow> goerror + string \<times> string" where
  "GetPluginInfo ids =
     (if drv_name (ids_Driver ids) = [] then Inl (StatusError Unavailable ''Driver name not configured'')
      else if drv_version (ids_Driver ids) = [] then Inl (StatusError Unavailable ''Driver is missing version'')
      else Inr (drv_name (ids_Driver ids), drv_version (ids_Driver ids)))"

record controllerServer =
  cs_Driver :: CSIDriver

definition newControllerServer :: "CSIDriver \<Rightarrow> controllerServer" where
  "newControllerServer d = \<lparr>cs_Driver = d\<rparr>"

datatype plugin_cap = CONTROLLER_SERVICE | VOLUME_ACCESSIBILITY_CONSTRAINTS | VolumeExpansion_OFFLINE

definition GetPluginCapabilities :: "plugin_cap list" where
  "GetPluginCapabilities = [CONTROLLER_SERVICE, VOLUME_ACCESSIBILITY_CONSTRAINTS, VolumeExpansion_OFFLINE]"

record NodeGetInfoResponse =
  info_NodeId :: string
  info_AccessibleTopology :: topology

definition GetNodeID :: "('w, 'z) nodeServer \<Rightarrow> string" where
  "GetNodeID ns = ns_nodeID ns"

definition NodeGetInfo :: "('w, 'z) nodeServer \<Rightarrow> goerror + NodeGetInfoResponse" where
  "NodeGetInfo ns = Inr \<lparr>info_NodeId = ns_nodeID ns, info_AccessibleTopology = [TopologyNodeKey \<mapsto> ns_nodeID ns]\<rparr>"

definition NodeGetCapabilities :: "goerror + node_cap list" where
  "NodeGetCapabilities = Inr NodeCaps"

definition NodeStageVolume :: "goerror + unit" where
  "NodeStageVolume = Inr ()"

definition NodeUnstageVolume :: "goerror + unit" where
  "NodeUnstageVolume = Inr ()"

section \<open>The driver\<close>

record ('w, 'z) LVM =
  lvm_driver :: CSIDriver
  lvm_endpoint :: string
  lvm_idServer :: identityServer
  lvm_nodeServer :: "('w, 'z) nodeServer"
  lvm_controllerServer :: controllerServer

definition driverName :: string where "driverName = ''lvmplugin.csi.kubeservice.cn''"
definition csiVersion :: string where "csiVersion = ''1.0.0''"
definition InstanceID :: string where "InstanceID = ''instance-id''"

text \<open>
  \<open>NewCSIDriver\<close> returns nil for an empty node id; the methods that add capabilities then write to a field of nil.
\<close>

definition NewDriver :: "'w host \<Rightarrow> string \<Rightarrow> string \<Rightarrow> ('w, 'z, ('w, 'z) LVM outcome) prog" where
  "NewDriver h nodeID0 endpoint = do {
     nodeID \<leftarrow> (if nodeID0 = [] then GetMetaData h InstanceID else State_Monad.return nodeID0);
     case NewCSIDriver driverName csiVersion nodeID of
       None \<Rightarrow> State_Monad.return (Panic ''nil pointer dereference'')
     | Some d \<Rightarrow> do {
         let d1 = d\<lparr>drv_cap := [CREATE_DELETE_VOLUME, PUBLISH_UNPUBLISH_VOLUME, EXPAND_VOLUME]\<rparr>;
         let d2 = d1\<lparr>drv_vc := [MULTI_NODE_MULTI_WRITER]\<rparr>;
         State_Monad.return (Done \<lparr>lvm_driver = d2, lvm_endpoint = endpoint,
           lvm_idServer = newIdentityServer d2, lvm_nodeServer = NewNodeServer h nodeID,
           lvm_controllerServer = newControllerServer d2\<rparr>)
       }
   }"

section \<open>Serving\<close>

text \<open>
  \<open>ParseEndpoint\<close>, on endpoints in ASCII, and the server of csi-common. A fatal message ends the process; a server that listens serves and
  never returns: \<open>Wait\<close> waits for a group that nobody finishes.
\<close>

definition ParseEndpoint :: "string \<Rightarrow> goerror + string \<times> string" where
  "ParseEndpoint ep =
     (let s = SplitN2 ep ''://''
      in if (HasPrefix (map to_lower ep) ''unix://'' \<or> HasPrefix (map to_lower ep) ''tcp://'') \<and> s ! 1 \<noteq> []
         then Inr (s ! 0, s ! 1)
         else Inl (ErrorString (''Invalid endpoint: '' @ ep)))"

datatype served = ServeFatal string | Serving string string

definition serve :: "'w host \<Rightarrow> string \<Rightarrow> ('w, 'z, served) prog" where
  "serve h endpoint = (case ParseEndpoint endpoint of
     Inl err \<Rightarrow> State_Monad.return (ServeFatal (Error (quote h) err))
   | Inr (proto, addr0) \<Rightarrow> do {
       let addr = (if proto = ''unix'' then ''/'' @ addr0 else addr0);
       rm \<leftarrow> (if proto = ''unix'' then Remove h addr else State_Monad.return None);
       case (case rm of Some err \<Rightarrow> if IsNotExist err then None else Some err | None \<Rightarrow> None) of
         Some err \<Rightarrow> State_Monad.return (ServeFatal (''Failed to remove '' @ addr @ '', error: '' @ Error (quote h) err))
       | None \<Rightarrow> do {
           l_err \<leftarrow> Listen h proto addr;
           case l_err of
             Some err \<Rightarrow> State_Monad.return (ServeFatal (''Failed to listen: '' @ Error (quote h) err))
           | None \<Rightarrow> State_Monad.return (Serving proto addr)
         }
     })"

definition lvm_Run :: "'w host \<Rightarrow> ('w, 'z) LVM \<Rightarrow> ('w, 'z, served) prog" where
  "lvm_Run h lvm = serve h (lvm_endpoint lvm)"

section \<open>Behaviour\<close>

lemma pick_loop_append: "pick_loop (xs @ ys) = (case pick_loop xs of None \<Rightarrow> pick_loop ys | Some n \<Rightarrow> Some n)"
  by (induction xs) (auto split: option.split)

lemma pickNodeID_eq:
  "pickNodeID (Some r) = (case pick_loop (req_Preferred r @ req_Requisite r) of None \<Rightarrow> [] | Some n \<Rightarrow> n)"
  by (auto simp: pickNodeID_def pick_loop_append split: option.split)

section \<open>Theorems\<close>

text \<open>
  \<open>pickNodeID\<close> takes the node of the first topology that names one, the preferred topologies before the
  required ones, each in their order.
\<close>

theorem pickNodeID_first:
  "pickNodeID (Some r) = (case filter (\<lambda>t. t TopologyNodeKey \<noteq> None) (req_Preferred r @ req_Requisite r) of
     [] \<Rightarrow> [] | t # _ \<Rightarrow> the (t TopologyNodeKey))"
proof -
  have "(case pick_loop ts of None \<Rightarrow> [] | Some n \<Rightarrow> n) =
      (case filter (\<lambda>t. t TopologyNodeKey \<noteq> None) ts of [] \<Rightarrow> [] | t # _ \<Rightarrow> the (t TopologyNodeKey))" for ts
    by (induction ts) (auto split: option.split)
  then show ?thesis by (simp only: pickNodeID_eq)
qed

text \<open>
  For a driver that \<open>NewDriver\<close> returned, \<open>CreateVolume\<close> succeeds exactly when the request has a name and volume
  capabilities, and then returns the name as the volume id, the requested size (0 if there is none) and
  the parameters unchanged; a refused request gets \<open>InvalidArgument\<close>.
\<close>

theorem CreateVolume_accepts:
  assumes "result (NewDriver h nodeID0 endpoint) s = Done l"
  shows "(case CreateVolume (lvm_driver l) req of
      Inr v \<Rightarrow> cr_Name req \<noteq> [] \<and> cr_VolumeCapabilities req \<noteq> None \<and> vol_VolumeId v = cr_Name req \<and>
        vol_CapacityBytes v = required_bytes (cr_RequiredBytes req) \<and> vol_VolumeContext v = cr_Parameters req
    | Inl err \<Rightarrow> (cr_Name req = [] \<or> cr_VolumeCapabilities req = None) \<and> (\<exists>m. err = StatusError InvalidArgument m))"
proof -
  have "CREATE_DELETE_VOLUME \<in> set (drv_cap (lvm_driver l))"
    using assms by (auto simp: result_def NewDriver_def NewCSIDriver_def Let_def split: prod.splits option.splits if_splits)
  then show ?thesis
    by (auto simp: CreateVolume_def ValidateControllerServiceRequest_def Let_def)
qed

definition sample_create :: CreateVolumeRequest where
  "sample_create = \<lparr>cr_Name = ''pvc-1'', cr_VolumeCapabilities = Some [SINGLE_NODE_WRITER], cr_RequiredBytes = Some 5,
     cr_Parameters = Map.empty, cr_AccessibilityRequirements = None\<rparr>"

theorem CreateVolume_accepts_witness:
  "\<exists>l v. result (NewDriver quiet_host ''n'' ''unix:///x'') start = Done l \<and>
     CreateVolume (lvm_driver l) sample_create = Inr v \<and> vol_VolumeId v = ''pvc-1'' \<and> vol_CapacityBytes v = 5"
proof -
  obtain l where l: "result (NewDriver quiet_host ''n'' ''unix:///x'') start = Done l"
    by (simp add: result_def NewDriver_def NewCSIDriver_def driverName_def csiVersion_def Let_def)
  show ?thesis
    using CreateVolume_accepts [OF l, of sample_create] l
    by (cases "CreateVolume (lvm_driver l) sample_create") (auto simp: sample_create_def required_bytes_def)
qed

text \<open>
  A volume requested for the topology that the node service reports is bound to exactly that topology, so that
  it is scheduled to the node that will hold it. The node id of a running driver is never empty.
\<close>

theorem topology_roundtrip:
  assumes l: "result (NewDriver h nodeID0 endpoint) s = Done l"
    and info: "NodeGetInfo (lvm_nodeServer l) = Inr info"
    and req: "cr_Name req \<noteq> []" "cr_VolumeCapabilities req \<noteq> None"
      "cr_AccessibilityRequirements req = Some r" "req_Preferred r = info_AccessibleTopology info # ts"
  shows "info_NodeId info \<noteq> [] \<and>
    (\<exists>v. CreateVolume (lvm_driver l) req = Inr v \<and> vol_AccessibleTopology v = [info_AccessibleTopology info])"
proof -
  have n: "ns_nodeID (lvm_nodeServer l) \<noteq> []" "CREATE_DELETE_VOLUME \<in> set (drv_cap (lvm_driver l))"
    using l by (auto simp: result_def NewDriver_def NewNodeServer_def NewCSIDriver_def Let_def
        split: prod.splits option.splits if_splits)
  have "pickNodeID (Some r) = info_NodeId info"
    using req(4) info by (auto simp: pickNodeID_def NodeGetInfo_def)
  then show ?thesis
    using n info req by (auto simp: CreateVolume_def ValidateControllerServiceRequest_def NodeGetInfo_def Let_def)
qed

theorem topology_roundtrip_witness:
  "\<exists>l v. result (NewDriver quiet_host ''n'' ''unix:///x'') start = Done l \<and>
     CreateVolume (lvm_driver l) (sample_create\<lparr>cr_AccessibilityRequirements :=
       Some \<lparr>req_Preferred = [[TopologyNodeKey \<mapsto> ''n'']], req_Requisite = []\<rparr>\<rparr>) = Inr v \<and>
     vol_AccessibleTopology v = [[TopologyNodeKey \<mapsto> ''n'']]"
proof -
  obtain l where l: "result (NewDriver quiet_host ''n'' ''unix:///x'') start = Done l" and
      i: "NodeGetInfo (lvm_nodeServer l) = Inr \<lparr>info_NodeId = ''n'', info_AccessibleTopology = [TopologyNodeKey \<mapsto> ''n'']\<rparr>"
    by (simp add: result_def NewDriver_def NewCSIDriver_def driverName_def csiVersion_def Let_def NewNodeServer_def
        NodeGetInfo_def)
  show ?thesis
    using topology_roundtrip [OF l i, of "sample_create\<lparr>cr_AccessibilityRequirements :=
       Some \<lparr>req_Preferred = [[TopologyNodeKey \<mapsto> ''n'']], req_Requisite = []\<rparr>\<rparr>"
       "\<lparr>req_Preferred = [[TopologyNodeKey \<mapsto> ''n'']], req_Requisite = []\<rparr>" "[]"] l
    by (auto simp: sample_create_def)
qed

text \<open>
  C30: \<open>NewDriver\<close> panics exactly when it is given no node id and the metadata service gives none (the request to it
  failed or the answer was empty).
\<close>

theorem NewDriver_panics_iff:
  "panics (result (NewDriver h nodeID0 endpoint) s) \<longleftrightarrow>
     nodeID0 = [] \<and> (case fst (http_get h (MetadataURL @ InstanceID) (world s)) of Inl err \<Rightarrow> True | Inr body \<Rightarrow> body = [])"
  by (auto simp: result_def NewDriver_def GetMetaData_def host_call_defs NewCSIDriver_def driverName_def csiVersion_def Let_def
      split: prod.split sum.split)

text \<open>
  A driver on a unix endpoint serves its socket: it unlinks the path, which may be missing, listens there and makes no other
  call. It ends the process only when the unlink fails for another reason or the listen fails. The plugin it
  announces has the name and version of the driver.
\<close>

theorem driver_serves_socket:
  assumes "result (NewDriver h nodeID0 (''unix://'' @ a)) s = Done l" and "a \<noteq> []"
  shows "(case result (lvm_Run h l) s' of
      Serving proto addr \<Rightarrow> proto = ''unix'' \<and> addr = ''/'' @ a \<and>
        (\<exists>rm. (\<forall>err. rm = Some err \<longrightarrow> IsNotExist err) \<and>
           new_events (lvm_Run h l) s' = [RemoveEv (''/'' @ a) rm, ListenEv ''unix'' (''/'' @ a) None])
    | ServeFatal m \<Rightarrow>
        (\<exists>err. new_events (lvm_Run h l) s' = [RemoveEv (''/'' @ a) (Some err)] \<and> \<not> IsNotExist err) \<or>
        (\<exists>rm err. new_events (lvm_Run h l) s' = [RemoveEv (''/'' @ a) rm, ListenEv ''unix'' (''/'' @ a) (Some err)])) \<and>
    GetPluginInfo (lvm_idServer l) = Inr (''lvmplugin.csi.kubeservice.cn'', ''1.0.0'')"
proof -
  have l: "lvm_endpoint l = ''unix://'' @ a" "drv_name (ids_Driver (lvm_idServer l)) = driverName"
      "drv_version (ids_Driver (lvm_idServer l)) = csiVersion"
    using assms(1) by (auto simp: result_def NewDriver_def NewCSIDriver_def newIdentityServer_def Let_def
        split: prod.splits option.splits if_splits)
  have p: "ParseEndpoint (''unix://'' @ a) = Inr (''unix'', a)"
    using assms(2) by (simp add: ParseEndpoint_def SplitN2_def Cut.simps HasPrefix_def to_lower_def)
  have "GetPluginInfo (lvm_idServer l) = Inr (''lvmplugin.csi.kubeservice.cn'', ''1.0.0'')"
    by (simp add: GetPluginInfo_def l driverName_def csiVersion_def)
  moreover obtain rm w where rm: "os_remove h (''/'' @ a) (world s') = (rm, w)" by fastforce
  moreover obtain le w' where le: "net_listen h ''unix'' (''/'' @ a) w = (le, w')" by fastforce
  moreover have run: "lvm_Run h l = serve h (''unix://'' @ a)" by (simp add: lvm_Run_def l)
  ultimately show ?thesis
    unfolding run serve_def p
    by (cases rm; cases le; cases "\<exists>e. rm = Some e \<and> IsNotExist e")
       (auto simp: result_def new_events_def host_call_defs Let_def)
qed

theorem driver_serves_socket_witness:
  "\<exists>l. result (NewDriver quiet_host ''n'' (''unix://'' @ ''x'')) start = Done l \<and>
     GetPluginInfo (lvm_idServer l) = Inr (''lvmplugin.csi.kubeservice.cn'', ''1.0.0'') \<and>
     (case result (lvm_Run quiet_host l) start of Serving proto addr \<Rightarrow> addr = ''/x'' | _ \<Rightarrow> True)"
proof -
  obtain l where l: "result (NewDriver quiet_host ''n'' (''unix://'' @ ''x'')) start = Done l"
    by (simp add: result_def NewDriver_def NewCSIDriver_def driverName_def csiVersion_def Let_def)
  show ?thesis
    using driver_serves_socket [OF l, of start] l by (cases "result (lvm_Run quiet_host l) start") auto
qed

end
