(* ===== verification/Lvm_InFlight.thy ===== *)
theory Lvm_InFlight
  imports Go_Store
begin

text \<open>
  \<open>pkg/csi/lvm/inflight.go\<close>: the table of volumes with an operation in flight. Every method runs under the
  mutex, so a concurrent execution is a sequence of method calls in some order; the theorems are
  about all such sequences.
\<close>

record InFlight =
  inFlight :: "string set"

definition NewInFlight :: InFlight where
  "NewInFlight = \<lparr>inFlight = {}\<rparr>"

definition Insert :: "string \<Rightarrow> InFlight \<Rightarrow> bool \<times> InFlight" where
  "Insert key db = (if key \<in> inFlight db then (False, db) else (True, db\<lparr>inFlight := insert key (inFlight db)\<rparr>))"

definition Delete :: "string \<Rightarrow> InFlight \<Rightarrow> InFlight" where
  "Delete key db = db\<lparr>inFlight := inFlight db - {key}\<rparr>"

section \<open>Histories\<close>

text \<open>One atomic call with its answer, and the executions: sequences of calls from a new table.\<close>

datatype flight_call = InsertCall string bool | DeleteCall string

inductive flight_step :: "InFlight \<Rightarrow> flight_call \<Rightarrow> InFlight \<Rightarrow> bool" where
  insert: "Insert k db = (ok, db') \<Longrightarrow> flight_step db (InsertCall k ok) db'"
| delete: "flight_step db (DeleteCall k) (Delete k db)"

inductive_cases insertE: "flight_step db (InsertCall k ok) db'"
inductive_cases deleteE: "flight_step db (DeleteCall k) db'"

inductive execution :: "flight_call list \<Rightarrow> InFlight \<Rightarrow> bool" where
  start: "execution [] NewInFlight"
| step: "execution cs db \<Longrightarrow> flight_step db c db' \<Longrightarrow> execution (cs @ [c]) db'"

text \<open>The key is held after a history: it was inserted with success and not deleted since.\<close>

fun held_step :: "string \<Rightarrow> flight_call \<Rightarrow> bool \<Rightarrow> bool" where
  "held_step k (InsertCall k' ok) b = (b \<or> k' = k \<and> ok)"
| "held_step k (DeleteCall k') b = (b \<and> k' \<noteq> k)"

definition held :: "string \<Rightarrow> flight_call list \<Rightarrow> bool" where
  "held k cs = fold (held_step k) cs False"

lemma held_snoc [simp]: "held k (cs @ [c]) = held_step k c (held k cs)"
  by (simp add: held_def)

lemma held_Nil [simp]: "\<not> held k []"
  by (simp add: held_def)

lemma execution_held: "execution cs db \<Longrightarrow> k \<in> inFlight db \<longleftrightarrow> held k cs"
proof (induction arbitrary: k rule: execution.induct)
  case start
  show ?case by (simp add: NewInFlight_def)
next
  case (step cs db c db')
  show ?case
  proof (cases c)
    case (InsertCall x ok)
    with step.hyps(2) have "Insert x db = (ok, db')" by (auto elim: insertE)
    with InsertCall step.IH [of k] show ?thesis
      using step.IH [of x] by (cases "held x cs") (auto simp: Insert_def)
  next
    case (DeleteCall x)
    with step.hyps(2) have "db' = Delete x db" by (auto elim: deleteE)
    with DeleteCall step.IH [of k] show ?thesis by (auto simp: Delete_def)
  qed
qed

lemma execution_prefix: "execution cs db \<Longrightarrow> cs = xs @ ys \<Longrightarrow> \<exists>db'. execution xs db'"
proof (induction arbitrary: ys rule: execution.induct)
  case start
  then show ?case using execution.start by auto
next
  case (step cs db c db')
  show ?case
  proof (cases ys rule: rev_cases)
    case Nil
    then show ?thesis using step execution.step by (metis append_Nil2)
  next
    case (snoc ys' y)
    with step show ?thesis by auto
  qed
qed

lemma execution_last:
  "execution cs db \<Longrightarrow> cs = xs @ [c] \<Longrightarrow> \<exists>db0. execution xs db0 \<and> flight_step db0 c db"
  by (cases rule: execution.cases) auto

lemma insert_answer:
  assumes "execution (xs @ [InsertCall k ok]) db"
  shows "ok \<longleftrightarrow> \<not> held k xs"
proof -
  obtain db0 where "execution xs db0" "flight_step db0 (InsertCall k ok) db"
    using execution_last [OF assms refl] by blast
  then show ?thesis
    using execution_held [of xs db0 k] by (auto elim!: insertE simp: Insert_def split: if_splits)
qed

section \<open>Theorems\<close>

text \<open>
  In every execution, \<open>Insert\<close> answers true exactly when the key is not in flight: it has not been inserted
  with success since its last deletion.
\<close>

theorem insert_answers_free:
  assumes "execution (xs @ InsertCall k ok # ys) db"
  shows "ok \<longleftrightarrow> \<not> held k xs"
proof -
  obtain db' where "execution (xs @ [InsertCall k ok]) db'"
    using execution_prefix [OF assms, of "xs @ [InsertCall k ok]" ys] by auto
  then show ?thesis by (rule insert_answer)
qed

lemma sample_execution: "\<exists>db. execution [InsertCall ''v'' True, InsertCall ''v'' False, DeleteCall ''v'', InsertCall ''v'' True] db"
proof -
  have a: "execution ([] @ [InsertCall ''v'' True]) \<lparr>inFlight = {''v''}\<rparr>"
    by (rule execution.step [OF execution.start]) (intro flight_step.intros, simp add: Insert_def NewInFlight_def)
  have b: "execution (([] @ [InsertCall ''v'' True]) @ [InsertCall ''v'' False]) \<lparr>inFlight = {''v''}\<rparr>"
    by (rule execution.step [OF a]) (intro flight_step.intros, simp add: Insert_def)
  have c: "execution ((([] @ [InsertCall ''v'' True]) @ [InsertCall ''v'' False]) @ [DeleteCall ''v'']) (Delete ''v'' \<lparr>inFlight = {''v''}\<rparr>)"
    by (rule execution.step [OF b]) (intro flight_step.intros)
  have "execution (((([] @ [InsertCall ''v'' True]) @ [InsertCall ''v'' False]) @ [DeleteCall ''v'']) @ [InsertCall ''v'' True]) \<lparr>inFlight = {''v''}\<rparr>"
    by (rule execution.step [OF c]) (intro flight_step.intros, simp add: Insert_def Delete_def)
  then show ?thesis by auto
qed

theorem insert_answers_free_witness: "\<not> held ''v'' [InsertCall ''v'' True, InsertCall ''v'' False, DeleteCall ''v'']"
proof -
  obtain db where "execution ([InsertCall ''v'' True, InsertCall ''v'' False, DeleteCall ''v''] @ InsertCall ''v'' True # []) db"
    using sample_execution by auto
  from insert_answers_free [OF this] show ?thesis by simp
qed

text \<open>
  C22: Mutual exclusion: between two successful insertions of the same key there is a deletion of that key, in
  every order in which concurrent calls may take the lock.
\<close>

theorem inflight_exclusive:
  assumes "execution (xs @ InsertCall k True # ys @ InsertCall k True # zs) db"
  shows "DeleteCall k \<in> set ys"
proof (rule ccontr)
  assume no: "DeleteCall k \<notin> set ys"
  have "execution ((xs @ InsertCall k True # ys) @ InsertCall k True # zs) db" using assms by simp
  then obtain db' where "execution ((xs @ InsertCall k True # ys) @ [InsertCall k True]) db'"
    using execution_prefix [of _ db "(xs @ InsertCall k True # ys) @ [InsertCall k True]" zs] by auto
  then have "\<not> held k (xs @ InsertCall k True # ys)" using insert_answer by blast
  moreover have "held k (xs @ InsertCall k True # ys)"
    using no
  proof (induction ys rule: rev_induct)
    case Nil
    show ?case by simp
  next
    case (snoc y ys)
    then have "held k (xs @ InsertCall k True # ys)" "y \<noteq> DeleteCall k" by auto
    then show ?case using held_snoc [of k "xs @ InsertCall k True # ys" y] by (cases y) auto
  qed
  ultimately show False by simp
qed

theorem inflight_exclusive_witness: "DeleteCall ''v'' \<in> set [InsertCall ''v'' False, DeleteCall ''v'']"
proof -
  obtain db where "execution ([] @ InsertCall ''v'' True # [InsertCall ''v'' False, DeleteCall ''v''] @ InsertCall ''v'' True # []) db"
    using sample_execution by auto
  then show ?thesis by (rule inflight_exclusive)
qed

text \<open>
  C23: A deleted key can be taken again: after a history in which the key was deleted and not inserted with success since, the
  next \<open>Insert\<close> of it succeeds, whatever else the history holds. So no volume stays locked once every operation has
  released it.
\<close>

theorem inflight_released:
  assumes "execution (xs @ DeleteCall k # ys) db" and "InsertCall k True \<notin> set ys"
  shows "fst (Insert k db) \<and> execution ((xs @ DeleteCall k # ys) @ [InsertCall k True]) (snd (Insert k db))"
proof -
  have "\<not> held k (xs @ DeleteCall k # ys)"
    using assms(2)
  proof (induction ys rule: rev_induct)
    case Nil
    show ?case by simp
  next
    case (snoc y ys)
    then have "\<not> held k (xs @ DeleteCall k # ys)" "y \<noteq> InsertCall k True" by auto
    then show ?case using held_snoc [of k "xs @ DeleteCall k # ys" y] by (cases y) auto
  qed
  then have "k \<notin> inFlight db" using execution_held [OF assms(1)] by simp
  then have "Insert k db = (True, db\<lparr>inFlight := insert k (inFlight db)\<rparr>)" by (simp add: Insert_def)
  then show ?thesis
    using execution.step [OF assms(1) flight_step.insert [of k db True]] by simp
qed

theorem inflight_released_witness: "fst (Insert ''v'' \<lparr>inFlight = {''w''}\<rparr>)"
proof -
  have "execution [InsertCall ''v'' True] \<lparr>inFlight = {''v''}\<rparr>"
    using execution.step [OF execution.start flight_step.insert [of "''v''"]] by (simp add: Insert_def NewInFlight_def)
  from execution.step [OF this flight_step.delete [of _ "''v''"]]
  have "execution [InsertCall ''v'' True, DeleteCall ''v''] \<lparr>inFlight = {}\<rparr>" by (simp add: Delete_def)
  from execution.step [OF this flight_step.insert [of "''w''"]]
  have "execution [InsertCall ''v'' True, DeleteCall ''v'', InsertCall ''w'' True] \<lparr>inFlight = {''w''}\<rparr>"
    by (simp add: Insert_def)
  then show ?thesis
    using inflight_released [of "[InsertCall ''v'' True]" "''v''" "[InsertCall ''w'' True]" "\<lparr>inFlight = {''w''}\<rparr>"] by simp
qed

end
