(* ===== verification/Csi_Device.thy ===== *)
theory Csi_Device
  imports Sample_Host
begin

text \<open>
  \<open>pkg/csi/device\<close>: reading the block devices and partitions of the node from \<open>/sys\<close>. Sizes are
  \<open>uint64\<close>: the sector count, parsed as a signed integer, is converted and multiplied by 512 modulo \<open>2^64\<close>.
\<close>

record Device =
  dev_Name :: string
  dev_IsPartition :: bool
  dev_ReadOnly :: bool
  dev_MediaType :: string
  dev_Total :: uint64

definition getFileContext :: "'w host \<Rightarrow> string \<Rightarrow> ('w, 'z, goerror + string) prog" where
  "getFileContext h filePath = do {
     r \<leftarrow> ReadFile h filePath;
     State_Monad.return (case r of
         Inl err \<Rightarrow> Inl (ErrorString (''read file '' @ filePath @ '' error: '' @ Error (quote h) err))
       | Inr b \<Rightarrow> Inr (TrimRight b (CHR 0x0A)))
   }"

abbreviation MediaTypeSSD :: string where "MediaTypeSSD \<equiv> ''ssd''"
abbreviation MediaTypeHDD :: string where "MediaTypeHDD \<equiv> ''hdd''"

definition media_of :: "string \<Rightarrow> string" where
  "media_of data = (if data = ''1'' then MediaTypeHDD else MediaTypeSSD)"

definition GetBlockInfo :: "'w host \<Rightarrow> string \<Rightarrow> string \<Rightarrow> ('w, 'z, goerror + Device) prog" where
  "GetBlockInfo h sysPath blockName = do {
     let blockPath = path_Join [sysPath, ''/block'', blockName];
     m \<leftarrow> getFileContext h (path_Join [blockPath, ''queue/rotational'']);
     case m of
       Inl err \<Rightarrow> State_Monad.return (Inl err)
     | Inr media \<Rightarrow> do {
         r \<leftarrow> getFileContext h (path_Join [blockPath, ''ro'']);
         case r of
           Inl err \<Rightarrow> State_Monad.return (Inl err)
         | Inr ro \<Rightarrow> do {
             t \<leftarrow> getFileContext h (path_Join [blockPath, ''size'']);
             case t of
               Inl err \<Rightarrow> State_Monad.return (Inl err)
             | Inr data \<Rightarrow>
                 (case Atoi data of
                    Inl err \<Rightarrow> State_Monad.return (Inl err)
                  | Inr datatmp \<Rightarrow> State_Monad.return (Inr \<lparr>
                      dev_Name = ''/dev/'' @ blockName, dev_IsPartition = False, dev_ReadOnly = (ro = ''1''),
                      dev_MediaType = media_of media, dev_Total = word_of_int datatmp * 512\<rparr>))
           }
       }
   }"

text \<open>The body of the loop over the directory entries, for an entry whose name starts with the block name.\<close>

definition partition_info :: "'w host \<Rightarrow> string \<Rightarrow> string \<Rightarrow> ('w, 'z, goerror + Device) prog" where
  "partition_info h blockPath partName = do {
     m \<leftarrow> getFileContext h (path_Join [blockPath, ''queue/rotational'']);
     case m of
       Inl err \<Rightarrow> State_Monad.return (Inl err)
     | Inr media \<Rightarrow> do {
         r \<leftarrow> getFileContext h (path_Join [blockPath, partName, ''ro'']);
         case r of
           Inl err \<Rightarrow> State_Monad.return (Inl err)
         | Inr ro \<Rightarrow> do {
             t \<leftarrow> getFileContext h (path_Join [blockPath, partName, ''size'']);
             case t of
               Inl err \<Rightarrow> State_Monad.return (Inl err)
             | Inr data \<Rightarrow>
                 (case Atoi data of
                    Inl err \<Rightarrow> State_Monad.return (Inl err)
                  | Inr datatmp \<Rightarrow> State_Monad.return (Inr \<lparr>
                      dev_Name = ''/dev/'' @ partName, dev_IsPartition = True, dev_ReadOnly = (ro = ''1''),
                      dev_MediaType = media_of media, dev_Total = word_of_int datatmp * 512\<rparr>))
           }
       }
   }"

fun partition_loop :: "'w host \<Rightarrow> string \<Rightarrow> string \<Rightarrow> string list \<Rightarrow> Device list \<Rightarrow>
  ('w, 'z, goerror + Device list) prog" where
  "partition_loop h blockPath blockName [] devices = State_Monad.return (Inr devices)"
| "partition_loop h blockPath blockName (name # dirs) devices =
     (if HasPrefix name blockName then do {
        d \<leftarrow> partition_info h blockPath name;
        case d of
          Inl err \<Rightarrow> State_Monad.return (Inl err)
        | Inr device \<Rightarrow> partition_loop h blockPath blockName dirs (devices @ [device])
      }
      else partition_loop h blockPath blockName dirs devices)"

definition GetPartitionsInfo :: "'w host \<Rightarrow> string \<Rightarrow> string \<Rightarrow> ('w, 'z, goerror + Device list) prog" where
  "GetPartitionsInfo h sysPath blockName = do {
     let blockPath = path_Join [sysPath, ''/block'', blockName];
     r \<leftarrow> ReadDir h blockPath;
     case r of
       Inl err \<Rightarrow> State_Monad.return (Inl err)
     | Inr dirs \<Rightarrow> partition_loop h blockPath blockName dirs []
   }"

section \<open>Behaviour\<close>

text \<open>The content of a file without the newlines at its end; Atoi of it is the value the code uses.\<close>

definition read_int :: "string \<Rightarrow> goerror + int" where
  "read_int b = Atoi (TrimRight b (CHR 0x0A))"

lemma produces_getFileContext_bind [produce_rules]:
  assumes "\<And>err m. produces (f (Inl m)) (\<lambda>b es. Q b (ReadFileEv p (Inl err) # es))"
    and "\<And>c. produces (f (Inr (TrimRight c (CHR 0x0A)))) (\<lambda>b es. Q b (ReadFileEv p (Inr c) # es))"
  shows "produces (State_Monad.bind (getFileContext h p) f) Q"
proof (rule produces_bind)
  show "produces (getFileContext h p) (\<lambda>r es. (\<exists>err m. r = Inl m \<and> es = [ReadFileEv p (Inl err)]) \<or>
     (\<exists>c. r = Inr (TrimRight c (CHR 0x0A)) \<and> es = [ReadFileEv p (Inr c)]))"
    unfolding getFileContext_def host_call_defs by (intro produce_rules) (auto split: sum.split)
qed (use assms in auto)

text \<open>What a device record says, in terms of the files that were read.\<close>

definition describes :: "string \<Rightarrow> string \<Rightarrow> string \<Rightarrow> Device \<Rightarrow> event list \<Rightarrow> bool" where
  "describes mediaPath dir name d es \<longleftrightarrow> dev_Name d = ''/dev/'' @ name \<and>
     (\<exists>m. ReadFileEv mediaPath (Inr m) \<in> set es \<and>
        dev_MediaType d = (if TrimRight m (CHR 0x0A) = ''1'' then ''hdd'' else ''ssd'')) \<and>
     (\<exists>r. ReadFileEv (path_Join [dir, ''ro'']) (Inr r) \<in> set es \<and> dev_ReadOnly d = (TrimRight r (CHR 0x0A) = ''1'')) \<and>
     (\<exists>c n. ReadFileEv (path_Join [dir, ''size'']) (Inr c) \<in> set es \<and> read_int c = Inr n \<and>
        dev_Total d = word_of_int (n * 512))"

lemma GetBlockInfo_describes:
  "produces (GetBlockInfo h sysPath name) (\<lambda>r es. \<forall>d. r = Inr d \<longrightarrow> \<not> dev_IsPartition d \<and>
     describes (path_Join [path_Join [sysPath, ''/block'', name], ''queue/rotational''])
       (path_Join [sysPath, ''/block'', name]) name d es)"
  unfolding GetBlockInfo_def Let_def
  by (intro produce_rules) (auto simp: describes_def media_of_def read_int_def)

lemma sector_bytes:
  assumes "0 \<le> n" and "n < 2 ^ 55"
  shows "uint (word_of_int (n * 512) :: 64 word) = n * 512"
  unfolding uint_word_of_int using assms by simp

text \<open>
  C34: \<open>GetBlockInfo\<close> describes the device from the files under \<open>/sys\<close>: rotational devices are hdd, all others
  ssd, and the size in bytes is 512 times the sector count, exactly, for every count below \<open>2^55\<close>.
\<close>

theorem block_info_faithful:
  assumes "result (GetBlockInfo h sysPath name) s = Inr d"
  shows "\<not> dev_IsPartition d \<and>
    describes (path_Join [path_Join [sysPath, ''/block'', name], ''queue/rotational''])
      (path_Join [sysPath, ''/block'', name]) name d (new_events (GetBlockInfo h sysPath name) s) \<and>
    (\<forall>n. dev_Total d = word_of_int (n * 512) \<and> 0 \<le> n \<and> n < 2 ^ 55 \<longrightarrow> uint (dev_Total d) = n * 512)"
  using produces_new [OF GetBlockInfo_describes, of h sysPath name s] assms sector_bytes by auto

definition sys_host :: "unit host" where
  "sys_host = quiet_host\<lparr>read_file := (\<lambda>p w. (Inr ''1'', w)), read_dir := (\<lambda>p w. (Inr [''a1'', ''x'', ''a2''], w))\<rparr>"

lemma Atoi_1 [simp]: "Atoi ''1'' = Inr 1"
  by (simp add: Atoi_def parse_int64_def ParseUint_def is_digit_def digit_val_def)

theorem block_info_faithful_witness:
  "\<exists>d. result (GetBlockInfo sys_host ''/sys'' ''a'') start = Inr d \<and> \<not> dev_IsPartition d \<and> uint (dev_Total d) = 512"
proof -
  have r: "result (GetBlockInfo sys_host ''/sys'' ''a'') start = Inr \<lparr>
      dev_Name = ''/dev/a'', dev_IsPartition = False, dev_ReadOnly = True, dev_MediaType = ''hdd'',
      dev_Total = word_of_int 1 * 512\<rparr>"
    by (simp add: result_def GetBlockInfo_def getFileContext_def host_call_defs Let_def sys_host_def sample_defs
        media_of_def TrimRight_def)
  show ?thesis using block_info_faithful [OF r] r by (auto dest: spec [of _ 1])
qed

lemma partition_info_describes:
  "produces (partition_info h blockPath name) (\<lambda>r es. \<forall>d. r = Inr d \<longrightarrow> dev_IsPartition d \<and> dev_Name d = ''/dev/'' @ name)"
  unfolding partition_info_def by (intro produce_rules) auto

lemma partition_loop_names:
  fixes h :: "'w host"
  shows "produces (partition_loop h blockPath blockName names ds :: ('w, 'z, goerror + Device list) prog) (\<lambda>r es. \<forall>ds'. r = Inr ds' \<longrightarrow>
     (\<exists>new. ds' = ds @ new \<and> list_all dev_IsPartition new \<and>
        map dev_Name new = map (\<lambda>n. ''/dev/'' @ n) (filter (\<lambda>n. HasPrefix n blockName) names)))"
proof (induction names arbitrary: ds)
  case Nil
  show ?case by (auto intro: produce_rules)
next
  case (Cons name names)
  show ?case
  proof (cases "HasPrefix name blockName")
    case False
    then show ?thesis using Cons.IH [of ds] by simp
  next
    case True
    have "produces (case d of Inl err \<Rightarrow> State_Monad.return (Inl err)
        | Inr device \<Rightarrow> (partition_loop h blockPath blockName names (ds @ [device]) :: ('w, 'z, goerror + Device list) prog)) (\<lambda>r es'. \<forall>ds'. r = Inr ds' \<longrightarrow>
       (\<exists>new. ds' = ds @ new \<and> list_all dev_IsPartition new \<and>
          map dev_Name new = map (\<lambda>n. ''/dev/'' @ n) (name # filter (\<lambda>n. HasPrefix n blockName) names)))"
      if d: "\<forall>x. d = Inr x \<longrightarrow> dev_IsPartition x \<and> dev_Name x = ''/dev/'' @ name" for d
    proof (cases d)
      case (Inl err)
      then show ?thesis by (auto intro: produce_rules)
    next
      case (Inr x)
      show ?thesis
        unfolding Inr sum.case
        by (rule produces_weaken [OF Cons.IH]) (use d Inr in force)
    qed
    then show ?thesis
      using True by (auto intro!: produces_bind [OF partition_info_describes])
  qed
qed

text \<open>
  \<open>GetPartitionsInfo\<close> returns one record for each entry of the block device's directory whose name starts
  with the block name, in the order of the directory and with the name \<open>/dev/<entry>\<close>, each marked as a
  partition; if reading any of them fails, the call fails.
\<close>

theorem partitions_listed:
  assumes "result (GetPartitionsInfo h sysPath blockName) s = Inr ds"
  shows "list_all dev_IsPartition ds \<and>
    (\<exists>names. ReadDirEv (path_Join [sysPath, ''/block'', blockName]) (Inr names) \<in>
        set (new_events (GetPartitionsInfo h sysPath blockName) s) \<and>
      map dev_Name ds = map (\<lambda>n. ''/dev/'' @ n) (filter (\<lambda>n. HasPrefix n blockName) names))"
proof -
  have "produces (GetPartitionsInfo h sysPath blockName) (\<lambda>r es. \<forall>ds. r = Inr ds \<longrightarrow> list_all dev_IsPartition ds \<and>
    (\<exists>names. ReadDirEv (path_Join [sysPath, ''/block'', blockName]) (Inr names) \<in> set es \<and>
      map dev_Name ds = map (\<lambda>n. ''/dev/'' @ n) (filter (\<lambda>n. HasPrefix n blockName) names)))"
    unfolding GetPartitionsInfo_def host_call_defs Let_def
    by (intro produce_rules produces_weaken [OF partition_loop_names]) auto
  from produces_new [OF this, of s] assms show ?thesis by blast
qed

theorem partitions_listed_witness:
  "\<exists>ds. result (GetPartitionsInfo sys_host ''/sys'' ''a'') start = Inr ds \<and> list_all dev_IsPartition ds \<and> length ds = 2"
proof -
  let ?d = "\<lambda>n. \<lparr>dev_Name = ''/dev/'' @ n, dev_IsPartition = True, dev_ReadOnly = True, dev_MediaType = ''hdd'',
      dev_Total = word_of_int 1 * 512\<rparr>"
  have "result (GetPartitionsInfo sys_host ''/sys'' ''a'') start = Inr [?d ''a1'', ?d ''a2'']"
    by (simp add: result_def GetPartitionsInfo_def partition_info_def getFileContext_def host_call_defs Let_def sys_host_def
        sample_defs media_of_def TrimRight_def HasPrefix_def)
  then show ?thesis using partitions_listed [of sys_host "''/sys''" "''a''" start] by fastforce
qed

end
