(* ===== verification/Utils_Cgroup.thy ===== *)
theory Utils_Cgroup
  imports Go_Strings
begin

text \<open>
  \<open>pkg/utils/cgroup_driver.go\<close>: the names of the cgroup directories of pods and containers for the
  two cgroup drivers, and the parsers of such names. A formatter is the record of functions
  of the source; slices of strings are checked, so that a parser could panic.
\<close>

section \<open>Formatters\<close>

type_synonym PodQOSClass = string

definition Burstable :: PodQOSClass where "Burstable = ''Burstable''"
definition BestEffort :: PodQOSClass where "BestEffort = ''BestEffort''"
definition Guaranteed :: PodQOSClass where "Guaranteed = ''Guaranteed''"

definition Cgroupfs :: string where "Cgroupfs = ''cgroupfs''"
definition Systemd :: string where "Systemd = ''systemd''"

definition cgroup_Validate :: "string \<Rightarrow> bool" where
  "cgroup_Validate c \<longleftrightarrow> c = Cgroupfs \<or> c = Systemd"

record formatter =
  ParentDir :: string
  QOSDirFn :: "PodQOSClass \<Rightarrow> string"
  PodDirFn :: "PodQOSClass \<Rightarrow> string \<Rightarrow> string"
  ContainerDirFn :: "string \<Rightarrow> goerror + string"
  PodIDParser :: "string \<Rightarrow> (goerror + string) outcome"
  ContainerIDParser :: "string \<Rightarrow> (goerror + string) outcome"

text \<open>The slice expression \<open>s[lo:hi]\<close>.\<close>

definition go_slice :: "string \<Rightarrow> int \<Rightarrow> int \<Rightarrow> string outcome" where
  "go_slice s lo hi =
     (if 0 \<le> lo \<and> lo \<le> hi \<and> hi \<le> int (length s) then Done (take (nat hi - nat lo) (drop (nat lo) s))
      else Panic ''slice bounds out of range'')"

text \<open>The loop over the patterns that both parsers of the systemd formatter share.\<close>

fun parse_patterns :: "(string \<times> string) list \<Rightarrow> string \<Rightarrow> (goerror + string) outcome" where
  "parse_patterns [] basename = Done (Inl (ErrorString (''fail to parse pod id: '' @ basename)))"
| "parse_patterns ((pre, suf) # ps) basename =
     (if HasPrefix basename pre \<and> HasSuffix basename suf then
        (case go_slice basename (int (length pre)) (int (length basename) - int (length suf)) of
           Panic m \<Rightarrow> Panic m
         | Done s \<Rightarrow> Done (Inr s))
      else parse_patterns ps basename)"

definition pod_patterns :: "(string \<times> string) list" where
  "pod_patterns = [(''kubepods-besteffort-pod'', ''.slice''), (''kubepods-burstable-pod'', ''.slice''),
     (''kubepods-pod'', ''.slice'')]"

definition container_patterns :: "(string \<times> string) list" where
  "container_patterns = [(''docker-'', ''.scope''), (''cri-containerd-'', ''.scope'')]"

abbreviation KubeRootNameSystemd :: string where "KubeRootNameSystemd \<equiv> ''kubepods.slice/''"
abbreviation KubeBurstableNameSystemd :: string where "KubeBurstableNameSystemd \<equiv> ''kubepods-burstable.slice/''"
abbreviation KubeBesteffortNameSystemd :: string where "KubeBesteffortNameSystemd \<equiv> ''kubepods-besteffort.slice/''"
abbreviation KubeRootNameCgroupfs :: string where "KubeRootNameCgroupfs \<equiv> ''kubepods/''"
abbreviation KubeBurstableNameCgroupfs :: string where "KubeBurstableNameCgroupfs \<equiv> ''burstable/''"
abbreviation KubeBesteffortNameCgroupfs :: string where "KubeBesteffortNameCgroupfs \<equiv> ''besteffort/''"

definition cgroupPathFormatterInSystemd :: formatter where
  "cgroupPathFormatterInSystemd = \<lparr>
     ParentDir = KubeRootNameSystemd,
     QOSDirFn = (\<lambda>qos.
       if qos = Burstable then KubeBurstableNameSystemd
       else if qos = BestEffort then KubeBesteffortNameSystemd
       else if qos = Guaranteed then ''/''
       else ''/''),
     PodDirFn = (\<lambda>qos podUID.
       let ident = ReplaceAll podUID ''-'' ''_'' in
       if qos = Burstable then ''kubepods-burstable-pod'' @ ident @ ''.slice/''
       else if qos = BestEffort then ''kubepods-besteffort-pod'' @ ident @ ''.slice/''
       else if qos = Guaranteed then ''kubepods-pod'' @ ident @ ''.slice/''
       else ''/''),
     ContainerDirFn = (\<lambda>ident.
       let hashID = Split ident ''://'' in
       if length hashID < 2 then Inl (ErrorString (''parse container id '' @ ident @ '' failed''))
       else if hashID ! 0 = ''docker'' then Inr (''docker-'' @ hashID ! 1 @ ''.scope/'')
       else if hashID ! 0 = ''containerd'' then Inr (''cri-containerd-'' @ hashID ! 1 @ ''.scope/'')
       else Inl (ErrorString (''unknown container protocol '' @ ident))),
     PodIDParser = parse_patterns pod_patterns,
     ContainerIDParser = parse_patterns container_patterns\<rparr>"

definition cgroupPathFormatterInCgroupfs :: formatter where
  "cgroupPathFormatterInCgroupfs = \<lparr>
     ParentDir = KubeRootNameCgroupfs,
     QOSDirFn = (\<lambda>qos.
       if qos = Burstable then KubeBurstableNameCgroupfs
       else if qos = BestEffort then KubeBesteffortNameCgroupfs
       else if qos = Guaranteed then ''/''
       else ''/''),
     PodDirFn = (\<lambda>qos podUID. ''pod'' @ podUID @ ''/''),
     ContainerDirFn = (\<lambda>ident.
       let hashID = Split ident ''://'' in
       if length hashID < 2 then Inl (ErrorString (''parse container id '' @ ident @ '' failed''))
       else if hashID ! 0 = ''docker'' \<or> hashID ! 0 = ''containerd'' then Inr (hashID ! 1 @ ''/'')
       else Inl (ErrorString (''unknown container protocol '' @ ident))),
     PodIDParser = (\<lambda>basename.
       if HasPrefix basename ''pod'' then
         (case go_slice basename 3 (int (length basename)) of Panic m \<Rightarrow> Panic m | Done s \<Rightarrow> Done (Inr s))
       else Done (Inl (ErrorString (''fail to parse pod id: '' @ basename)))),
     ContainerIDParser = (\<lambda>basename. Done (Inr basename))\<rparr>"

text \<open>The package variable \<open>CgroupPathFormatter\<close> starts with the systemd formatter.\<close>

definition CgroupPathFormatter0 :: formatter where
  "CgroupPathFormatter0 = cgroupPathFormatterInSystemd"

definition SetupCgroupPathFormatter :: "string \<Rightarrow> formatter \<Rightarrow> formatter" where
  "SetupCgroupPathFormatter driver f =
     (if driver = Systemd then cgroupPathFormatterInSystemd
      else if driver = Cgroupfs then cgroupPathFormatterInCgroupfs
      else f)"

section \<open>Slices in the parsers\<close>

text \<open>
  When a string has a prefix and a suffix that cannot overlap, it is the prefix, a middle part and
  the suffix, and cutting both off gives the middle.
\<close>

definition no_overlap :: "string \<Rightarrow> string \<Rightarrow> bool" where
  "no_overlap p q \<longleftrightarrow> list_all (\<lambda>n. drop (length p - n) p \<noteq> take n q) [1..<Suc (min (length p) (length q))]"

lemma prefix_suffix_middle:
  assumes "HasPrefix s p" and "HasSuffix s q" and "no_overlap p q"
  obtains m where "s = p @ m @ q"
proof -
  obtain t where t: "s = p @ t" using assms(1) by (auto simp: HasPrefix_iff)
  obtain u where u: "s = u @ q" using assms(2) by (auto simp: HasSuffix_iff)
  from t u have "p @ t = u @ q" by simp
  then consider (far) us where "t = us @ q" | (near) us where "p = u @ us" "q = us @ t"
    by (auto simp: append_eq_append_conv2)
  then show thesis
  proof cases
    case far
    with t that show thesis by blast
  next
    case near
    have "us = []"
    proof (rule ccontr)
      assume "us \<noteq> []"
      then have "length us \<in> set [1..<Suc (min (length p) (length q))]"
        using near by (cases us) auto
      moreover have "drop (length p - length us) p = take (length us) q"
        using near by simp
      ultimately show False using assms(3) by (auto simp: no_overlap_def list_all_iff)
    qed
    with near t that [of "[]"] show thesis by simp
  qed
qed

lemma go_slice_middle:
  "go_slice (p @ m @ q) (int (length p)) (int (length (p @ m @ q)) - int (length q)) = Done m"
  by (simp add: go_slice_def nat_add_distrib)

lemma parse_patterns_cases:
  assumes "list_all (\<lambda>(p, q). no_overlap p q) ps"
  shows "\<not> panics (parse_patterns ps s) \<and>
    (\<forall>m. parse_patterns ps s = Done (Inr m) \<longrightarrow> (\<exists>(p, q) \<in> set ps. s = p @ m @ q))"
  using assms
proof (induction ps)
  case (Cons x ps)
  obtain p q where x: "x = (p, q)" by (cases x)
  show ?case
  proof (cases "HasPrefix s p \<and> HasSuffix s q")
    case True
    then obtain m where "s = p @ m @ q"
      using prefix_suffix_middle [of s p q] Cons.prems x by auto
    then show ?thesis using True go_slice_middle [of p m q] x by auto
  next
    case False
    with Cons x show ?thesis by auto
  qed
qed simp

lemma patterns_no_overlap:
  "list_all (\<lambda>(p, q). no_overlap p q) pod_patterns" "list_all (\<lambda>(p, q). no_overlap p q) container_patterns"
  by (simp_all add: pod_patterns_def container_patterns_def no_overlap_def upt_rec)

lemma parse_pod_dirs:
  "parse_patterns pod_patterns (''kubepods-besteffort-pod'' @ m @ ''.slice'') = Done (Inr m)"
  "parse_patterns pod_patterns (''kubepods-burstable-pod'' @ m @ ''.slice'') = Done (Inr m)"
  "parse_patterns pod_patterns (''kubepods-pod'' @ m @ ''.slice'') = Done (Inr m)"
  using go_slice_middle [of "''kubepods-besteffort-pod''" m "''.slice''"]
    go_slice_middle [of "''kubepods-burstable-pod''" m "''.slice''"]
    go_slice_middle [of "''kubepods-pod''" m "''.slice''"]
  by (simp_all add: pod_patterns_def HasPrefix_def HasSuffix_def)

lemma parse_container_dirs:
  "parse_patterns container_patterns (''docker-'' @ m @ ''.scope'') = Done (Inr m)"
  "parse_patterns container_patterns (''cri-containerd-'' @ m @ ''.scope'') = Done (Inr m)"
  using go_slice_middle [of "''docker-''" m "''.scope''"] go_slice_middle [of "''cri-containerd-''" m "''.scope''"]
  by (simp_all add: container_patterns_def HasPrefix_def HasSuffix_def)

section \<open>The contract of a formatter\<close>

text \<open>
  A directory name without its final slash is what the parsers take. The parser of pod names gives
  back the user id in the form \<open>norm\<close> the formatter writes it, the parser of container names the
  identifier.
\<close>

locale cgroup_formatter =
  fixes f :: formatter and norm :: "string \<Rightarrow> string"
  assumes pod_dir: "qos \<in> {Burstable, BestEffort, Guaranteed} \<Longrightarrow>
      \<exists>d. PodDirFn f qos uid = d @ ''/'' \<and> PodIDParser f d = Done (Inr (norm uid))"
    and container_dir: "rt \<in> {''docker'', ''containerd''} \<Longrightarrow> \<not> Contains cid ''://'' \<Longrightarrow>
      \<exists>d. ContainerDirFn f (rt @ ''://'' @ cid) = Inr (d @ ''/'') \<and> ContainerIDParser f d = Done (Inr cid)"
    and parsers_total: "\<not> panics (PodIDParser f s)" "\<not> panics (ContainerIDParser f s)"
begin

lemma pod_dirs_differ:
  assumes "{qos, qos'} \<subseteq> {Burstable, BestEffort, Guaranteed}" and "norm uid \<noteq> norm uid'"
  shows "PodDirFn f qos uid \<noteq> PodDirFn f qos' uid'"
  using pod_dir [of qos uid] pod_dir [of qos' uid'] assms by auto

lemma container_dirs_differ:
  assumes "{rt, rt'} \<subseteq> {''docker'', ''containerd''}" and "\<not> Contains cid ''://''" "\<not> Contains cid' ''://''"
    and "cid \<noteq> cid'"
  shows "ContainerDirFn f (rt @ ''://'' @ cid) \<noteq> ContainerDirFn f (rt' @ ''://'' @ cid')"
  using container_dir [of rt cid] container_dir [of rt' cid'] assms by auto

end

lemma Split_runtime:
  assumes "\<not> Contains cid ''://''"
  shows "Split (''docker://'' @ cid) ''://'' = [''docker'', cid]"
    "Split (''containerd://'' @ cid) ''://'' = [''containerd'', cid]"
  using Split_no_sep [OF _ assms] by (subst Split.simps, simp)+

interpretation systemd: cgroup_formatter cgroupPathFormatterInSystemd "\<lambda>uid. ReplaceAll uid ''-'' ''_''"
proof (unfold_locales, goal_cases)
  case (1 qos uid)
  then show ?case
    using parse_pod_dirs [of "ReplaceAll uid ''-'' ''_''"]
    by (auto simp: cgroupPathFormatterInSystemd_def Let_def Burstable_def BestEffort_def Guaranteed_def)
next
  case (2 rt cid)
  then show ?case
    using Split_runtime [of cid] parse_container_dirs [of cid]
    by (auto simp: cgroupPathFormatterInSystemd_def Let_def)
qed (simp_all add: cgroupPathFormatterInSystemd_def parse_patterns_cases patterns_no_overlap)

interpretation cgroupfs: cgroup_formatter cgroupPathFormatterInCgroupfs "\<lambda>uid. uid"
proof (unfold_locales, goal_cases)
  case (1 qos uid)
  show ?case by (simp add: cgroupPathFormatterInCgroupfs_def HasPrefix_def go_slice_def nat_add_distrib)
next
  case (2 rt cid)
  then show ?case
    using Split_runtime [of cid] by (auto simp: cgroupPathFormatterInCgroupfs_def Let_def)
next
  case (3 s)
  then show ?case
    by (auto simp: cgroupPathFormatterInCgroupfs_def HasPrefix_iff go_slice_def)
qed (simp add: cgroupPathFormatterInCgroupfs_def)

section \<open>Theorems\<close>

lemma norm_uid_inj:
  assumes "CHR ''_'' \<notin> set uid" "CHR ''_'' \<notin> set uid'"
    and "ReplaceAll uid ''-'' ''_'' = ReplaceAll uid' ''-'' ''_''"
  shows "uid = uid'"
  using assms
proof (induction uid arbitrary: uid')
  case Nil
  then show ?case by (simp add: ReplaceAll_char)
next
  case (Cons c cs)
  then obtain d ds where "uid' = d # ds" by (cases uid') (auto simp: ReplaceAll_char)
  with Cons show ?case by (auto simp: ReplaceAll_char split: if_splits)
qed

text \<open>
  C33: The systemd formatter and its parsers agree: for the three service classes, parsing the pod directory
  (without its final slash) gives the user id with dashes written as underscores, and parsing the directory
  of a docker or containerd container gives its identifier.
\<close>

theorem systemd_names_roundtrip:
  "(qos \<in> {Burstable, BestEffort, Guaranteed} \<longrightarrow>
      (\<exists>d. PodDirFn cgroupPathFormatterInSystemd qos uid = d @ ''/'' \<and>
         PodIDParser cgroupPathFormatterInSystemd d = Done (Inr (ReplaceAll uid ''-'' ''_'')))) \<and>
   (rt \<in> {''docker'', ''containerd''} \<and> \<not> Contains cid ''://'' \<longrightarrow>
      (\<exists>d. ContainerDirFn cgroupPathFormatterInSystemd (rt @ ''://'' @ cid) = Inr (d @ ''/'') \<and>
         ContainerIDParser cgroupPathFormatterInSystemd d = Done (Inr cid)))"
  using systemd.pod_dir systemd.container_dir by blast

theorem systemd_names_roundtrip_witness:
  "\<exists>d. PodDirFn cgroupPathFormatterInSystemd Burstable ''a-b'' = d @ ''/'' \<and>
     PodIDParser cgroupPathFormatterInSystemd d = Done (Inr (ReplaceAll ''a-b'' ''-'' ''_''))"
  using systemd_names_roundtrip [of Burstable "''a-b''"] by simp

text \<open>
  The parsers of the systemd formatter never panic, whatever the name, although they cut the name by
  lengths; a name they accept is one of the patterns with the returned identifier in the middle.
\<close>

theorem systemd_parsers_safe:
  "\<not> panics (PodIDParser cgroupPathFormatterInSystemd s) \<and> \<not> panics (ContainerIDParser cgroupPathFormatterInSystemd s) \<and>
   (PodIDParser cgroupPathFormatterInSystemd s = Done (Inr m) \<longrightarrow>
      (\<exists>(p, q) \<in> set pod_patterns. s = p @ m @ q)) \<and>
   (ContainerIDParser cgroupPathFormatterInSystemd s = Done (Inr m) \<longrightarrow>
      (\<exists>(p, q) \<in> set container_patterns. s = p @ m @ q))"
  using parse_patterns_cases [OF patterns_no_overlap(1), of s] parse_patterns_cases [OF patterns_no_overlap(2), of s]
  by (simp add: cgroupPathFormatterInSystemd_def)

theorem systemd_parsers_safe_witness:
  "PodIDParser cgroupPathFormatterInSystemd ''kubepods-pod1.slice'' = Done (Inr ''1'') \<and>
   (\<exists>(p, q) \<in> set pod_patterns. ''kubepods-pod1.slice'' = p @ ''1'' @ q)"
proof -
  have "PodIDParser cgroupPathFormatterInSystemd ''kubepods-pod1.slice'' = Done (Inr ''1'')"
    using parse_pod_dirs(3) [of "''1''"] by (simp add: cgroupPathFormatterInSystemd_def)
  then show ?thesis using systemd_parsers_safe [of "''kubepods-pod1.slice''" "''1''"] by blast
qed

text \<open>
  Two pods never share a directory of the systemd driver: pods whose user ids differ, and hold no
  underscore (Kubernetes user ids are hexadecimal digits and dashes), have different directories, also
  across the service classes.
\<close>

theorem systemd_pod_dirs_distinct:
  assumes "{qos, qos'} \<subseteq> {Burstable, BestEffort, Guaranteed}"
    and "CHR ''_'' \<notin> set uid" "CHR ''_'' \<notin> set uid'" and "uid \<noteq> uid'"
  shows "PodDirFn cgroupPathFormatterInSystemd qos uid \<noteq> PodDirFn cgroupPathFormatterInSystemd qos' uid'"
  using systemd.pod_dirs_differ [OF assms(1)] norm_uid_inj [OF assms(2,3)] assms(4) by blast

theorem systemd_pod_dirs_distinct_witness:
  "PodDirFn cgroupPathFormatterInSystemd Burstable ''a-1'' \<noteq> PodDirFn cgroupPathFormatterInSystemd Guaranteed ''a1''"
  by (rule systemd_pod_dirs_distinct) simp_all

end
