(* ===== verification/Utils_Types.thy ===== *)
theory Utils_Types
  imports Utils_Util Go_Store "HOL-Library.AList"
begin

text \<open>
  \<open>pkg/utils/types.go\<close>: the volume types and the anti-affinity weights. The allocation records and their
  annotations are in theory \<open>Utils_Alloc\<close>.
\<close>

section \<open>Volume types\<close>

definition ValidVolumeType :: "string list" where
  "ValidVolumeType = [''MountPoint'', ''LVM'', ''Device'', ''Quota'']"

fun volume_type_loop :: "string list \<Rightarrow> string \<Rightarrow> string option" where
  "volume_type_loop [] s = None"
| "volume_type_loop (v # vs) s = (if v = s then Some v else volume_type_loop vs s)"

definition VolumeTypeFromString :: "'w host \<Rightarrow> string \<Rightarrow> goerror + string" where
  "VolumeTypeFromString h s = (case volume_type_loop ValidVolumeType s of
     Some v \<Rightarrow> Inr v
   | None \<Rightarrow> Inl (ErrorString (''invalid Local Volume type: '' @ quote h s @ '', valid values are '' @
       ''['' @ Join ValidVolumeType '' '' @ '']'')))"

section \<open>Anti-affinity weights\<close>

text \<open>
  \<open>weights\<close> is the address of a map in a heap of maps, or none for the nil map: \<open>Items(false)\<close> hands
  out the map itself, \<open>Items(true)\<close> a fresh copy, and \<open>Put\<close> replaces an empty map by a new one.
\<close>

type_synonym weight_map = "(string \<times> int) list"
type_synonym weight_heap = "weight_map list"

record NodeAntiAffinityWeight =
  weights :: "nat option"

type_synonym weight_state = "NodeAntiAffinityWeight \<times> weight_heap"

definition new_map :: "weight_map \<Rightarrow> weight_heap \<Rightarrow> nat \<times> weight_heap" where
  "new_map m hp = (length hp, hp @ [m])"

definition weights_of :: "weight_state \<Rightarrow> weight_map" where
  "weights_of st = (case weights (fst st) of None \<Rightarrow> [] | Some a \<Rightarrow> snd st ! a)"

definition NewNodeAntiAffinityWeight :: "weight_heap \<Rightarrow> weight_state" where
  "NewNodeAntiAffinityWeight hp = (let (a, hp') = new_map [] hp in (\<lparr>weights = Some a\<rparr>, hp'))"

definition weight_Put :: "string \<Rightarrow> int \<Rightarrow> weight_state \<Rightarrow> weight_state" where
  "weight_Put volumeType weight st =
     (let (w, hp) = (if length (weights_of st) \<le> 0
                     then (let (a, hp') = new_map [] (snd st) in (\<lparr>weights = Some a\<rparr>, hp'))
                     else st)
      in (case weights w of
            None \<Rightarrow> (w, hp)
          | Some a \<Rightarrow> (w, hp[a := AList.update volumeType weight (hp ! a)])))"

definition weight_Get :: "weight_state \<Rightarrow> string \<Rightarrow> int" where
  "weight_Get st volumeType = (case map_of (weights_of st) volumeType of None \<Rightarrow> 0 | Some v \<Rightarrow> v)"

definition weight_Items :: "bool \<Rightarrow> weight_state \<Rightarrow> nat option \<times> weight_state" where
  "weight_Items copy st =
     (if \<not> copy then (weights (fst st), st)
      else (let (a, hp) = new_map (fold (\<lambda>(k, v). AList.update k v) (weights_of st) []) (snd st)
            in (Some a, (fst st, hp))))"

section \<open>Behaviour\<close>

text \<open>The map of the structure is allocated; keys of a map are distinct.\<close>

definition weights_inv :: "weight_state \<Rightarrow> bool" where
  "weights_inv st \<longleftrightarrow> (case weights (fst st) of None \<Rightarrow> True | Some a \<Rightarrow> a < length (snd st)) \<and>
     list_all (\<lambda>m. distinct (map fst m)) (snd st)"

lemma weights_of_Put:
  "weights_inv st \<Longrightarrow> weights_of (weight_Put k v st) = AList.update k v (weights_of st)"
  by (cases st; cases "weights (fst st)")
     (auto simp: weight_Put_def weights_of_def new_map_def weights_inv_def Let_def)

interpretation weights: store weights_inv "\<lambda>_. True" weight_Get weight_Put
proof
  fix st k v
  assume "weights_inv st"
  then show "weights_inv (weight_Put k v st)"
    by (cases st; cases "weights (fst st)")
       (auto simp: weight_Put_def weights_of_def new_map_def weights_inv_def Let_def list_all_iff
          distinct_update dest!: subsetD [OF set_update_subset_insert])
next
  fix st :: weight_state and k k' v
  assume "weights_inv st"
  then show "weight_Get (weight_Put k v st) k' = (if k' = k then v else weight_Get st k')"
    by (simp add: weight_Get_def weights_of_Put update_conv')
qed

lemma volume_type_loop: "volume_type_loop vs s = (if s \<in> set vs then Some s else None)"
  by (induction vs) auto

lemma Put_frame:
  assumes "weights (fst st) \<noteq> Some a" and "a < length (snd st)"
  shows "snd (weight_Put k v st) ! a = snd st ! a \<and> weights (fst (weight_Put k v st)) \<noteq> Some a \<and>
    a < length (snd (weight_Put k v st))"
  using assms
  by (cases st; cases "weights (fst st)")
     (auto simp: weight_Put_def weights_of_def new_map_def Let_def nth_append nth_list_update)

lemma Puts_frame:
  assumes "weights (fst st) \<noteq> Some a" and "a < length (snd st)"
  shows "snd (fold (\<lambda>(k, v). weight_Put k v) kvs st) ! a = snd st ! a"
  using assms
proof (induction kvs arbitrary: st)
  case (Cons kv kvs)
  then show ?case using Put_frame [of st a "fst kv" "snd kv"] by (cases kv) auto
qed simp

section \<open>Theorems\<close>

text \<open>
  After any sequence of \<open>Put\<close> calls on a new weight table, \<open>Get\<close> returns the weight put last for the volume
  type, and 0 for a type without one.
\<close>

theorem weights_last_put:
  assumes "list_all (\<lambda>m. distinct (map fst m)) hp"
  shows "weight_Get (fold (\<lambda>(k, v). weight_Put k v) kvs (NewNodeAntiAffinityWeight hp)) k =
     (case map_of (rev kvs) k of Some v \<Rightarrow> v | None \<Rightarrow> 0)"
proof -
  have "weights_inv (NewNodeAntiAffinityWeight hp)" "weight_Get (NewNodeAntiAffinityWeight hp) k = 0"
    using assms by (simp_all add: NewNodeAntiAffinityWeight_def new_map_def weights_inv_def weight_Get_def weights_of_def)
  then show ?thesis using weights.get_puts [of "NewNodeAntiAffinityWeight hp" kvs k] by (simp add: list_all_iff split: option.split)
qed

theorem weights_last_put_witness:
  "weight_Get (fold (\<lambda>(k, v). weight_Put k v) [(''LVM'', 3), (''LVM'', 5)] (NewNodeAntiAffinityWeight [])) ''LVM'' = 5"
  using weights_last_put [of "[]" "[(''LVM'', 3), (''LVM'', 5)]" "''LVM''"] by simp

text \<open>
  \<open>Items(true)\<close> returns a copy: it holds the weights of the table, and no later \<open>Put\<close> changes it. \<open>Items(false)\<close>
  returns the map of the table itself, so a \<open>Put\<close> on a non-empty table shows in it.
\<close>

theorem items_copy_isolated:
  assumes "weights_inv st" and "weight_Items True st = (Some a, st')"
  shows "map_of (snd (fold (\<lambda>(k, v). weight_Put k v) kvs st') ! a) = map_of (weights_of st) \<and>
    (weights_of st \<noteq> [] \<longrightarrow> (\<exists>b. weight_Items False st = (Some b, st) \<and>
       map_of (snd (weight_Put k v st) ! b) k = Some v))"
proof -
  have a: "a = length (snd st)" "st' = (fst st, snd st @ [fold (\<lambda>(k, v). AList.update k v) (weights_of st) []])"
    using assms(2) by (auto simp: weight_Items_def new_map_def Let_def)
  have d: "distinct (map fst (weights_of st))"
    using assms(1) by (auto simp: weights_inv_def weights_of_def list_all_iff split: option.splits)
  have "weights (fst st') \<noteq> Some a" "a < length (snd st')"
    using assms(1) a by (auto simp: weights_inv_def split: option.splits)
  from Puts_frame [OF this, of kvs] have "snd (fold (\<lambda>(k, v). weight_Put k v) kvs st') ! a =
      fold (\<lambda>(k, v). AList.update k v) (weights_of st) []"
    using a by simp
  then have "map_of (snd (fold (\<lambda>(k, v). weight_Put k v) kvs st') ! a) = map_of (weights_of st)"
    using d map_of_inject_set [of "rev (weights_of st)" "weights_of st"]
    by (simp add: fold_update_map_of flip: rev_map)
  moreover have "\<exists>b. weight_Items False st = (Some b, st) \<and> map_of (snd (weight_Put k v st) ! b) k = Some v"
    if "weights_of st \<noteq> []"
    using that assms(1)
    by (cases st; cases "weights (fst st)")
       (auto simp: weight_Items_def weight_Put_def weights_of_def weights_inv_def update_conv')
  ultimately show ?thesis by blast
qed

theorem items_copy_isolated_witness:
  "map_of (snd (fold (\<lambda>(k, v). weight_Put k v) [(''LVM'', 5)]
     (snd (weight_Items True (\<lparr>weights = Some 0\<rparr>, [[(''LVM'', 3)]])))) ! 1) ''LVM'' = Some 3"
  using items_copy_isolated [of "(\<lparr>weights = Some 0\<rparr>, [[(''LVM'', 3)]])" 1 "snd (weight_Items True (\<lparr>weights = Some 0\<rparr>, [[(''LVM'', 3)]]))"
      "[(''LVM'', 5)]"]
  by (simp add: weights_inv_def weight_Items_def new_map_def weights_of_def)

text \<open>\<open>VolumeTypeFromString\<close> accepts exactly the four volume types, in their exact spelling, and returns the type named.\<close>

theorem volume_type_parsed:
  "VolumeTypeFromString h s = Inr v \<longleftrightarrow> v = s \<and> s \<in> {''MountPoint'', ''LVM'', ''Device'', ''Quota''}"
  by (auto simp: VolumeTypeFromString_def volume_type_loop ValidVolumeType_def)

end
