(* ===== verification/Utils_Connector.thy ===== *)
theory Utils_Connector
  imports Go_Strings
begin

text \<open>
  The host connector of \<open>pkg/utils/util.go\<close>: a command is sent over a unix socket to a daemon on the host,
  and the first 2048 bytes of the reply are read. The socket is an argument: three operations on an
  unspecified state.
\<close>

record 'n socket =
  sock_Dial :: "'n \<Rightarrow> goerror option \<times> 'n"
  sock_Write :: "string \<Rightarrow> 'n \<Rightarrow> goerror option \<times> 'n"
  sock_Read :: "'n \<Rightarrow> string \<times> 'n"

text \<open>The reply: \<open>response[8:]\<close> panics when the reply is shorter than eight bytes.\<close>

definition connector_reply :: "string \<Rightarrow> (string \<times> goerror option) outcome" where
  "connector_reply response =
     (if HasPrefix response ''Success'' then
        (if 8 \<le> length response then Done (drop 8 response, None) else Panic ''slice bounds out of range'')
      else Done (response, Some (ErrorString (''Exec command error:'' @ response))))"

definition ConnectorRun ::
  "'n socket \<Rightarrow> (string \<Rightarrow> string) \<Rightarrow> string \<Rightarrow> 'n \<Rightarrow> (string \<times> goerror option) outcome \<times> 'n" where
  "ConnectorRun sk q cmd n =
     (case sock_Dial sk n of
        (Some err, n1) \<Rightarrow> (Done (Error q err, Some err), n1)
      | (None, n1) \<Rightarrow>
          (case sock_Write sk cmd n1 of
             (Some err, n2) \<Rightarrow> (Done (Error q err, Some err), n2)
           | (None, n2) \<Rightarrow> (case sock_Read sk n2 of (buf, n3) \<Rightarrow> (connector_reply (take 2048 buf), n3))))"

definition DoMountInHost :: "'n socket \<Rightarrow> (string \<Rightarrow> string) \<Rightarrow> string \<Rightarrow> 'n \<Rightarrow> goerror option outcome \<times> 'n" where
  "DoMountInHost sk q mntCmd n =
     (case ConnectorRun sk q mntCmd n of
        (Panic m, n1) \<Rightarrow> (Panic m, n1)
      | (Done (out, Some err), n1) \<Rightarrow> (Done (Some (ErrorString (''Mount is failed in host, mntCmd:'' @ mntCmd @ '', err: '' @
          Error q err @ '', out: '' @ out))), n1)
      | (Done (out, None), n1) \<Rightarrow> (Done None, n1))"

text \<open>
  \<open>ConnectorRun\<close> panics exactly when the connection works and the daemon's reply is the seven bytes "Success" and
  nothing more; it reports success exactly for longer replies with that prefix, and returns what follows the
  eighth byte (of at most 2048).
\<close>

theorem connector_outcome:
  assumes "sock_Dial sk n = (None, n1)" and "sock_Write sk cmd n1 = (None, n2)" and "sock_Read sk n2 = (buf, n3)"
  shows "(panics (fst (ConnectorRun sk q cmd n)) \<longleftrightarrow> buf = ''Success'') \<and>
    (fst (ConnectorRun sk q cmd n) = Done (out, None) \<longleftrightarrow> (\<exists>c. take 2048 buf = ''Success'' @ c # out))"
proof -
  let ?b = "take 2048 buf"
  have run: "fst (ConnectorRun sk q cmd n) = connector_reply ?b"
    using assms by (simp add: ConnectorRun_def)
  show ?thesis
  proof (cases "HasPrefix ?b ''Success''")
    case False
    then have "buf \<noteq> ''Success''" "\<nexists>c. ?b = ''Success'' @ c # out"
      by (auto simp: HasPrefix_iff)
    with False show ?thesis by (simp add: run connector_reply_def)
  next
    case True
    then obtain t where t: "?b = ''Success'' @ t" by (auto simp: HasPrefix_iff)
    show ?thesis
    proof (cases t)
      case Nil
      with t have "length (take 2048 buf) = 7" by simp
      then have "?b = buf" by simp
      with Nil t show ?thesis by (simp add: run connector_reply_def HasPrefix_def)
    next
      case (Cons c t')
      with t have "buf \<noteq> ''Success''" by auto
      with Cons t show ?thesis by (simp add: run connector_reply_def HasPrefix_def)
    qed
  qed
qed

definition echo_socket :: "string \<Rightarrow> unit socket" where
  "echo_socket reply = \<lparr>sock_Dial = (\<lambda>n. (None, n)), sock_Write = (\<lambda>c n. (None, n)), sock_Read = (\<lambda>n. (reply, n))\<rparr>"

theorem connector_outcome_witness:
  "panics (fst (ConnectorRun (echo_socket ''Success'') id ''ls'' ())) \<and>
   fst (ConnectorRun (echo_socket ''Success:ok'') id ''ls'' ()) = Done (''ok'', None)"
  using connector_outcome [of "echo_socket ''Success''" "()" "()" "''ls''" "()" "''Success''" "()" id]
    connector_outcome [of "echo_socket ''Success:ok''" "()" "()" "''ls''" "()" "''Success:ok''" "()" id "''ok''"]
  by (simp add: echo_socket_def)

end
