(* ===== verification/Utils_JsonFiles.thy ===== *)
theory Utils_JsonFiles
  imports Utils_Util Sample_Host
begin

text \<open>
  The files of \<open>pkg/utils/util.go\<close>: JSON objects of strings that are written, read and extended, files that
  are written and synced, and the metrics files of a published volume. The theorems state the round
  trips through a file and what an interrupted or failing call leaves.
\<close>

section \<open>JSON files\<close>

definition ReadJSONFile :: "'w host \<Rightarrow> string \<Rightarrow> ('w, 'z, goerror + string_map) prog" where
  "ReadJSONFile h file = do {
     raw \<leftarrow> ReadFile h file;
     State_Monad.return (case raw of
         Inl err \<Rightarrow> Inl err
       | Inr s \<Rightarrow> (case Unmarshal (quote h) dec_string_map (Some []) s of
             (Some err, _) \<Rightarrow> Inl err
           | (None, jsonObj) \<Rightarrow> Inr jsonObj))
   }"

text \<open>
  The structure that is written is given by its fields: the name of each and what \<open>Value.String()\<close> returns for
  it. The error of \<open>Marshal\<close> is ignored; there is none for strings.
\<close>

fun write_fields :: "(string \<times> string) list \<Rightarrow> (string \<times> string) list \<Rightarrow> (string \<times> string) list" where
  "write_fields [] maps = maps"
| "write_fields ((name, v) # fs) maps = write_fields fs (if v \<noteq> [] then AList.update name v maps else maps)"

definition WriteJSONFile :: "'w host \<Rightarrow> (string \<times> string) list \<Rightarrow> string \<Rightarrow> ('w, 'z, goerror option) prog" where
  "WriteJSONFile h obj file = do {
     err \<leftarrow> WriteFile h file (Marshal_map (Some (write_fields obj []))) 420;
     case err of Some e \<Rightarrow> State_Monad.return (Some e) | None \<Rightarrow> State_Monad.return None
   }"

definition LoadJSONData :: "'w host \<Rightarrow> string \<Rightarrow> ('w, 'z, goerror + string_map) prog" where
  "LoadJSONData h dataFileName = do {
     o_err \<leftarrow> Open h dataFileName;
     case o_err of
       Some err \<Rightarrow> State_Monad.return (Inl (ErrorString
         (''failed to open json data file ['' @ dataFileName @ '']: '' @ Error (quote h) err)))
     | None \<Rightarrow> do {
         st \<leftarrow> ReadOpen h dataFileName;
         _ \<leftarrow> Close h dataFileName;
         State_Monad.return (case Decode (quote h) dec_string_map (Some []) st of
             (Some err, _) \<Rightarrow> Inl (ErrorString
               (''failed to parse json data file ['' @ dataFileName @ '']: '' @ Error (quote h) err))
           | (None, data) \<Rightarrow> Inr data)
       }
   }"

text \<open>
  The loop over the new data, in any order: entries with the prefix are put into the current map. A
  write to the nil map panics.
\<close>

definition app_prefix :: string where "app_prefix = ''csi.ecloud.cmss.com/''"

fun append_loop :: "(string \<times> string) list \<Rightarrow> string_map \<Rightarrow> string_map outcome" where
  "append_loop [] cur = Done cur"
| "append_loop ((key, val) # kvs) cur =
     (if HasPrefix key app_prefix then
        (case cur of
           None \<Rightarrow> Panic ''assignment to entry in nil map''
         | Some m \<Rightarrow> append_loop kvs (Some (AList.update key val m)))
      else append_loop kvs cur)"

definition AppendJSONData :: "'w host \<Rightarrow> string \<Rightarrow> (string \<times> string) list \<Rightarrow> ('w, 'z, goerror option outcome) prog" where
  "AppendJSONData h dataFilePath appData = do {
     cur \<leftarrow> LoadJSONData h dataFilePath;
     case cur of
       Inl err \<Rightarrow> State_Monad.return (Done (Some err))
     | Inr curData \<Rightarrow>
         (case append_loop appData curData of
            Panic msg \<Rightarrow> State_Monad.return (Panic msg)
          | Done newData \<Rightarrow> do {
              err \<leftarrow> WriteFile h dataFilePath (Marshal_map newData) 420;
              case err of
                Some e \<Rightarrow> State_Monad.return (Done (Some e))
              | None \<Rightarrow> State_Monad.return (Done None)
            })
   }"

section \<open>Synced files\<close>

definition Fsync :: "'w host \<Rightarrow> string \<Rightarrow> ('w, 'z, goerror option) prog" where
  "Fsync h f = SyncOpen h f"

definition ErrShortWrite :: goerror where "ErrShortWrite = ErrorString ''short write''"

definition WriteAndSyncFile :: "'w host \<Rightarrow> string \<Rightarrow> string \<Rightarrow> nat \<Rightarrow> ('w, 'z, goerror option) prog" where
  "WriteAndSyncFile h filename d perm = do {
     o_err \<leftarrow> OpenFile h filename ''O_WRONLY|O_CREATE|O_TRUNC'' perm;
     case o_err of
       Some err \<Rightarrow> State_Monad.return (Some err)
     | None \<Rightarrow> do {
         (n, w_err) \<leftarrow> WriteOpen h filename d;
         let err = (if w_err = None \<and> n < length d then Some ErrShortWrite else w_err);
         err \<leftarrow> (if err = None then Fsync h filename else State_Monad.return err);
         err1 \<leftarrow> Close h filename;
         State_Monad.return (if err = None then err1 else err)
       }
   }"

definition utils_RemoveAll :: "'w host \<Rightarrow> string \<Rightarrow> ('w, 'z, goerror option) prog" where
  "utils_RemoveAll h deletePath = RemoveAll h deletePath"

definition utils_MkdirAll :: "'w host \<Rightarrow> string \<Rightarrow> nat \<Rightarrow> ('w, 'z, goerror option) prog" where
  "utils_MkdirAll h path mode = MkdirAll h path mode"

text \<open>A lookup in the volume context of a request: a missing key gives the empty string.\<close>

definition ctx_get :: "(string \<rightharpoonup> string) \<Rightarrow> string \<Rightarrow> string" where
  "ctx_get m k = (case m k of None \<Rightarrow> [] | Some v \<Rightarrow> v)"

definition WriteMetricsInfo :: "'w host \<Rightarrow> string \<Rightarrow> NodePublishVolumeRequest \<Rightarrow> string \<Rightarrow> string \<Rightarrow> string \<Rightarrow> string \<Rightarrow>
    ('w, 'z, unit) prog" where
  "WriteMetricsInfo h metricsPathPrefix req metricsTop clientName storageBackendName fsName =
     (let podUIDPath = metricsPathPrefix @ ctx_get (pub_VolumeContext req) ''csi.storage.k8s.io/pod.uid'' @ ''/'';
          mountPointPath = podUIDPath @ pub_VolumeId req @ ''/'';
          podInfoName = ''pod_info'';
          mountPointName = ''mount_point_info''
      in do {
        ex \<leftarrow> IsFileExisting h mountPointPath;
        _ \<leftarrow> (if \<not> ex then utils_MkdirAll h mountPointPath 493 else State_Monad.return None);
        ex \<leftarrow> IsFileExisting h (podUIDPath @ podInfoName);
        _ \<leftarrow> (if \<not> ex then
               (let info = ctx_get (pub_VolumeContext req) ''csi.storage.k8s.io/pod.namespace'' @ '' '' @
                      ctx_get (pub_VolumeContext req) ''csi.storage.k8s.io/pod.name'' @ '' '' @
                      ctx_get (pub_VolumeContext req) ''csi.storage.k8s.io/pod.uid'' @ '' '' @ metricsTop
                in WriteAndSyncFile h (podUIDPath @ podInfoName) info 420)
              else State_Monad.return None);
        ex \<leftarrow> IsFileExisting h (mountPointPath @ mountPointName);
        _ \<leftarrow> (if \<not> ex then
               (let info = clientName @ '' '' @ storageBackendName @ '' '' @ fsName @ '' '' @
                      pub_VolumeId req @ '' '' @ pub_TargetPath req
                in WriteAndSyncFile h (mountPointPath @ mountPointName) info 420)
              else State_Monad.return None);
        State_Monad.return ()
      })"

section \<open>Lemmas on the maps\<close>

lemma write_fields_fold:
  "write_fields obj m = fold (\<lambda>(k, v). AList.update k v) (filter (\<lambda>(k, v). v \<noteq> []) obj) m"
  by (induction obj m rule: write_fields.induct) auto

text \<open>Entries with the prefix, and the loop as a fold over them.\<close>

definition prefixed :: "(string \<times> string) list \<Rightarrow> (string \<times> string) list" where
  "prefixed kvs = filter (\<lambda>(k, v). HasPrefix k app_prefix) kvs"

lemma prefixed_simps [simp]:
  "prefixed [] = []"
  "prefixed ((k, v) # kvs) = (if HasPrefix k app_prefix then (k, v) # prefixed kvs else prefixed kvs)"
  by (simp_all add: prefixed_def)

lemma append_loop_Some: "append_loop kvs (Some m) = Done (Some (fold (\<lambda>(k, v). AList.update k v) (prefixed kvs) m))"
  by (induction kvs arbitrary: m) auto

lemma append_loop_None:
  "append_loop kvs None = (if prefixed kvs = [] then Done None else Panic ''assignment to entry in nil map'')"
  by (induction kvs) (auto split: if_splits)

text \<open>What a decoder of a map of strings returns has distinct keys and valid strings.\<close>

lemma dec_entries_valid:
  "dec_entries dec_string [] ctx ms m sv = (m', sv', ab) \<Longrightarrow> list_all (\<lambda>x. valid_utf8 (fst x) \<and> json_valid (snd x)) ms \<Longrightarrow>
     map_valid m \<Longrightarrow> map_valid m'"
proof (induction ms arbitrary: m sv)
  case (Cons e ms)
  obtain k j where e: "e = (k, j)" by (cases e)
  obtain x sv1 where d: "dec_string ctx j [] sv = (x, sv1, None)" "valid_utf8 x"
    using Cons.prems(2) e by (cases j) (auto simp: dec_string_def wrong_type_def)
  have "map_valid (AList.update k x m)"
    using Cons.prems(2,3) e d(2) by (auto intro: map_valid_update)
  with Cons e d show ?case by auto
qed auto

lemma decode_map_valid:
  assumes "decode_value dec_string_map (Some []) j = (e, Some m)" "json_valid j"
  shows "map_valid m"
proof (cases j)
  case (JObj ms)
  obtain m' sv ab where d: "dec_entries dec_string [] ([], []) ms [] None = (m', sv, ab)" by (metis prod_cases3)
  moreover have "map_valid []" by (simp add: map_valid_def)
  ultimately have "map_valid m'" using dec_entries_valid assms(2) JObj by fastforce
  then show ?thesis
    using assms(1) d JObj by (auto simp: decode_value_def dec_string_map_def dec_map_def split: option.splits)
qed (use assms in \<open>auto simp: decode_value_def dec_string_map_def dec_map_def wrong_type_def map_valid_def\<close>)

lemma stream_value_valid: "stream_value q st = Inr j \<Longrightarrow> json_valid j"
  by (auto simp: stream_value_def dest!: json_run_valid split: prod.splits option.splits sum.splits json_error.splits if_splits)

lemma Decode_map_valid: "Decode q dec_string_map (Some []) st = (e, Some m) \<Longrightarrow> map_valid m"
  by (auto simp: Decode_def map_valid_def dest: decode_map_valid stream_value_valid split: sum.splits)

section \<open>Theorems\<close>

text \<open>
  What \<open>WriteJSONFile\<close> writes is read back: a later \<open>ReadJSONFile\<close> of a file with that content returns exactly the fields
  that are not empty.
\<close>

theorem json_file_roundtrip:
  assumes "map_valid (filter (\<lambda>(k, v). v \<noteq> []) obj)"
    and "new_events (WriteJSONFile h obj file) s = [WriteFileEv file content err]"
    and "read_file h' file (world s') = (Inr content, w)"
  shows "\<exists>m. result (ReadJSONFile h' file) s' = Inr (Some m) \<and> map_of m = map_of (filter (\<lambda>(k, v). v \<noteq> []) obj)"
proof -
  let ?m = "write_fields obj []"
  have c: "content = Marshal_map (Some ?m)"
    using assms(2) by (auto simp: new_events_def WriteJSONFile_def host_call_defs split: prod.splits option.splits)
  have v: "map_valid ?m"
    using assms(1) map_valid_fold [of "[]"] by (simp add: write_fields_fold map_valid_def)
  have "map_of (sort_key fst ?m) = map_of (filter (\<lambda>(k, v). v \<noteq> []) obj)"
    using assms(1) v by (simp add: map_of_sort_key map_valid_def write_fields_fold fold_update_map_of distinct_map_of_rev)
  moreover have "result (ReadJSONFile h' file) s' = Inr (Some (sort_key fst ?m))"
    using assms(3) Unmarshal_Marshal_map [OF v]
    by (simp add: result_def ReadJSONFile_def host_call_defs c)
  ultimately show ?thesis by simp
qed

definition stored_host :: "string \<Rightarrow> unit host" where
  "stored_host c = quiet_host\<lparr>read_file := (\<lambda>p w. (Inr c, w)), os_read := (\<lambda>p w. ((c, None), w))\<rparr>"

theorem json_file_roundtrip_witness:
  "\<exists>m. result (ReadJSONFile (stored_host (Marshal_map (Some [(''Name'', ''a'')]))) ''/f'') start = Inr (Some m) \<and>
     map_of m = map_of [(''Name'', ''a'')]"
  using json_file_roundtrip [of "[(''Name'', ''a''), (''Path'', [])]" quiet_host "''/f''" start "Marshal_map (Some [(''Name'', ''a'')])" None
      "stored_host (Marshal_map (Some [(''Name'', ''a'')]))" start "()"]
  by (simp add: map_valid_def valid_utf8_ascii code_of_def new_events_def WriteJSONFile_def host_call_defs sample_defs stored_host_def)

lemma run_Load_Append:
  "run_state (LoadJSONData h p) s = (r, s1) \<Longrightarrow>
   run_state (AppendJSONData h p app) s = (case r of
     Inl err \<Rightarrow> (Done (Some err), s1)
   | Inr cur \<Rightarrow> (case append_loop app cur of
       Panic msg \<Rightarrow> (Panic msg, s1)
     | Done m \<Rightarrow> (case write_file h p (Marshal_map m) 420 (world s1) of
         (err, w) \<Rightarrow> (Done err, s1\<lparr>world := w, events := events s1 @ [WriteFileEv p (Marshal_map m) err]\<rparr>))))"
  by (simp add: AppendJSONData_def host_call_defs split: sum.split outcome.split prod.split option.split)

lemma Load_valid: "result (LoadJSONData h p) s = Inr (Some cur) \<Longrightarrow> map_valid cur"
  by (auto simp: result_def LoadJSONData_def host_call_defs dest: Decode_map_valid split: prod.splits option.splits)

lemma produces_Load: "produces (LoadJSONData h p) (\<lambda>_ _. True)"
  unfolding LoadJSONData_def host_call_defs by (intro produce_rules) simp_all

text \<open>
  C37: \<open>AppendJSONData\<close> on a file that holds an object keeps its entries and adds those of the new data whose keys have
  the prefix of the driver, and only those: it writes the file once, after reading and closing it, and a later
  \<open>LoadJSONData\<close> of what it wrote returns the old map overridden by the new entries.
\<close>

theorem append_json_persists:
  assumes "result (LoadJSONData h p) s = Inr (Some cur)" and "map_valid app"
  shows "\<exists>content err. result (AppendJSONData h p app) s = Done err \<and>
    new_events (AppendJSONData h p app) s = new_events (LoadJSONData h p) s @ [WriteFileEv p content err] \<and>
    (\<forall>s' w1 w2. os_open h' p (world s') = (None, w1) \<longrightarrow> os_read h' p w1 = ((content, None), w2) \<longrightarrow>
       (\<exists>m. result (LoadJSONData h' p) s' = Inr (Some m) \<and> map_of m = map_of cur ++ map_of (prefixed app)))"
proof -
  let ?m = "fold (\<lambda>(k, v). AList.update k v) (prefixed app) cur"
  obtain s1 where load: "run_state (LoadJSONData h p) s = (Inr (Some cur), s1)"
    using assms(1) by (cases "run_state (LoadJSONData h p) s") (simp add: result_def)
  obtain err w where wr: "write_file h p (Marshal_map (Some ?m)) 420 (world s1) = (err, w)" by fastforce
  have run: "run_state (AppendJSONData h p app) s =
      (Done err, s1\<lparr>world := w, events := events s1 @ [WriteFileEv p (Marshal_map (Some ?m)) err]\<rparr>)"
    using run_Load_Append [OF load] wr by (simp add: append_loop_Some)
  have ev: "events s1 = events s @ new_events (LoadJSONData h p) s"
    using produces_events [OF produces_Load, of h p s] load by simp
  have app: "list_all (\<lambda>(k, v). valid_utf8 k \<and> valid_utf8 v) (prefixed app)" "distinct (map fst (prefixed app))"
    using assms(2) by (auto simp: map_valid_def prefixed_def list_all_iff distinct_map inj_on_def)
  then have v: "map_valid ?m" by (intro map_valid_fold Load_valid [OF assms(1)])
  have "map_of (sort_key fst ?m) = map_of cur ++ map_of (prefixed app)"
    using v app(2) by (simp add: map_valid_def map_of_sort_key fold_update_map_of distinct_map_of_rev)
  moreover have "result (LoadJSONData h' p) s' = Inr (Some (sort_key fst ?m))"
    if "os_open h' p (world s') = (None, w1)" "os_read h' p w1 = ((Marshal_map (Some ?m), None), w2)" for s' w1 w2
    using that Decode_Marshal_map [OF v, of "quote h'" "[]"]
    by (simp add: result_def LoadJSONData_def host_call_defs split: prod.split)
  moreover have "result (AppendJSONData h p app) s = Done err" using run by (simp add: result_def)
  moreover have "new_events (AppendJSONData h p app) s =
      new_events (LoadJSONData h p) s @ [WriteFileEv p (Marshal_map (Some ?m)) err]"
    using run ev by (simp add: new_events_def)
  ultimately show ?thesis by blast
qed

theorem append_json_persists_witness:
  "\<exists>content err. result (AppendJSONData (stored_host (Marshal_map (Some [(''a'', ''1'')]))) ''/f'' [(''csi.ecloud.cmss.com/x'', ''2''), (''y'', ''3'')]) start =
     Done err \<and> new_events (AppendJSONData (stored_host (Marshal_map (Some [(''a'', ''1'')]))) ''/f'' [(''csi.ecloud.cmss.com/x'', ''2''), (''y'', ''3'')]) start =
     new_events (LoadJSONData (stored_host (Marshal_map (Some [(''a'', ''1'')]))) ''/f'') start @ [WriteFileEv ''/f'' content err]"
proof -
  have "result (LoadJSONData (stored_host (Marshal_map (Some [(''a'', ''1'')]))) ''/f'') start = Inr (Some [(''a'', ''1'')])"
    using Decode_Marshal_map [of "[(''a'', ''1'')]" "\<lambda>s. s" "[]"]
    by (simp add: result_def LoadJSONData_def host_call_defs sample_defs stored_host_def map_valid_def valid_utf8_ascii code_of_def)
  from append_json_persists [OF this, of "[(''csi.ecloud.cmss.com/x'', ''2''), (''y'', ''3'')]" quiet_host]
  show ?thesis by (auto simp: map_valid_def valid_utf8_ascii code_of_def)
qed

text \<open>
  Go iterates over the map of new data in no particular order; it does not matter: two enumerations of the same
  map give the same run of \<open>AppendJSONData\<close>, down to the bytes written.
\<close>

theorem append_json_any_order:
  assumes "distinct (map fst app)" and "distinct (map fst app')" and "map_of app = map_of app'"
  shows "run_state (AppendJSONData h p app) s = run_state (AppendJSONData h p app') s"
proof -
  obtain r s1 where load: "run_state (LoadJSONData h p) s = (r, s1)" by fastforce
  have "set app = set app'" using map_of_inject_set assms by blast
  then have set_eq: "set (prefixed app) = set (prefixed app')" by (simp add: prefixed_def)
  have dist: "distinct (map fst (prefixed app))" "distinct (map fst (prefixed app'))"
    using assms(1,2) by (auto simp: prefixed_def distinct_map inj_on_def)
  have "map_of (prefixed app) = map_of (prefixed app')" using map_of_inject_set dist set_eq by blast
  moreover have "Marshal_map (Some (fold (\<lambda>(k, v). AList.update k v) (prefixed app) cur)) =
      Marshal_map (Some (fold (\<lambda>(k, v). AList.update k v) (prefixed app') cur))" if "r = Inr (Some cur)" for cur
  proof -
    have "distinct (map fst cur)" using Load_valid [of h p s cur] load that by (simp add: result_def map_valid_def)
    with calculation dist have "sort_key fst (fold (\<lambda>(k, v). AList.update k v) (prefixed app) cur) =
        sort_key fst (fold (\<lambda>(k, v). AList.update k v) (prefixed app') cur)"
      by (intro sorted_unique fold_update_distinct) (simp_all add: fold_update_map_of distinct_map_of_rev)
    then show ?thesis by (simp add: Marshal_map_def map_json_def)
  qed
  ultimately show ?thesis
    using set_eq unfolding run_Load_Append [OF load]
    by (cases r; cases "case r of Inr cur \<Rightarrow> cur | _ \<Rightarrow> None")
       (auto simp: append_loop_Some append_loop_None dest: arg_cong [where f = set] split: prod.split)
qed

theorem append_json_any_order_witness:
  "run_state (AppendJSONData quiet_host ''/f'' [(''a'', ''1''), (''b'', ''2'')]) start =
     run_state (AppendJSONData quiet_host ''/f'' [(''b'', ''2''), (''a'', ''1'')]) start"
  by (rule append_json_any_order) (auto simp: fun_eq_iff)

text \<open>
  \<open>AppendJSONData\<close> panics exactly when the file holds \<open>null\<close>, which decodes to the nil map, and some key of the new data has
  the prefix: the entry is then written to the nil map.
\<close>

theorem append_json_panics_iff:
  "panics (result (AppendJSONData h p app) s) \<longleftrightarrow>
     result (LoadJSONData h p) s = Inr None \<and> (\<exists>k v. (k, v) \<in> set app \<and> HasPrefix k ''csi.ecloud.cmss.com/'')"
proof -
  obtain r s1 where load: "run_state (LoadJSONData h p) s = (r, s1)" by fastforce
  have ex: "prefixed app \<noteq> [] \<longleftrightarrow> (\<exists>k v. (k, v) \<in> set app \<and> HasPrefix k ''csi.ecloud.cmss.com/'')"
    by (auto simp: prefixed_def filter_empty_conv app_prefix_def)
  show ?thesis
  proof (cases r)
    case (Inr cur)
    then show ?thesis
      unfolding ex [symmetric] result_def run_Load_Append [OF load] using load
      by (cases cur) (auto simp: append_loop_Some append_loop_None split: prod.split)
  qed (simp add: result_def run_Load_Append [OF load] load)
qed

text \<open>
  C38: \<open>WriteAndSyncFile\<close> returns no error exactly when the file was opened, a write of the whole data, a sync and the close
  succeeded, in that order and with no other call. A file that was opened is closed on every path.
\<close>

theorem write_and_sync_complete:
  "(result (WriteAndSyncFile h f d perm) s = None \<longleftrightarrow>
      (\<exists>n. length d \<le> n \<and> new_events (WriteAndSyncFile h f d perm) s =
        [OpenEv f None, WriteEv f d (n, None), SyncEv f None, CloseEv f None])) \<and>
   (OpenEv f None \<in> set (new_events (WriteAndSyncFile h f d perm) s) \<longrightarrow>
      (\<exists>c. last (new_events (WriteAndSyncFile h f d perm) s) = CloseEv f c))"
  by (auto simp: result_def new_events_def WriteAndSyncFile_def Fsync_def host_call_defs Let_def ErrShortWrite_def
      split: prod.splits option.splits if_splits)

theorem write_and_sync_complete_witness:
  "\<exists>c. last (new_events (WriteAndSyncFile quiet_host ''/f'' ''x'' 420) start) = CloseEv ''/f'' c"
proof -
  have "OpenEv ''/f'' None \<in> set (new_events (WriteAndSyncFile quiet_host ''/f'' ''x'' 420) start)"
    by (simp add: new_events_def WriteAndSyncFile_def Fsync_def host_call_defs sample_defs)
  then show ?thesis using write_and_sync_complete [of quiet_host "''/f''" "''x''" 420 start] by blast
qed

text \<open>Files that a program opens only after it has seen that they do not exist.\<close>

definition opens :: "string \<Rightarrow> event \<Rightarrow> bool" where
  "opens q e \<longleftrightarrow> (\<exists>r. e = OpenEv q r)"

definition absent :: "string \<Rightarrow> event \<Rightarrow> bool" where
  "absent q e \<longleftrightarrow> (\<exists>err. e = StatEv q (Inl err) \<and> IsNotExist err)"

lemma only_WriteAndSyncFile:
  "(\<And>r. P (OpenEv f r)) \<Longrightarrow> (\<And>r. P (WriteEv f d r)) \<Longrightarrow> (\<And>r. P (SyncEv f r)) \<Longrightarrow> (\<And>r. P (CloseEv f r)) \<Longrightarrow>
     only P (WriteAndSyncFile h f d perm)"
  unfolding WriteAndSyncFile_def Fsync_def Let_def by (intro trace_rules) auto

lemma IsFileExisting_absent:
  "produces (IsFileExisting h f) (\<lambda>ex es. list_all (\<lambda>e. \<not> opens q e) es \<and> (\<not> ex \<longrightarrow> list_ex (absent f) es))"
  unfolding IsFileExisting_def host_call_defs
  by (intro produce_rules) (auto simp: opens_def absent_def split: sum.splits if_splits)

lemma guards_write_missing:
  assumes "guards (opens q) (absent q) m"
  shows "guards (opens q) (absent q) (do {
     ex \<leftarrow> IsFileExisting h f;
     _ \<leftarrow> (if \<not> ex then WriteAndSyncFile h f d perm else State_Monad.return None);
     m })"
proof (cases "f = q")
  case True
  have "only (\<lambda>_. True) m" using assms by (auto simp: guards_def only_def list_all_iff elim!: produces_weaken)
  then show ?thesis
    unfolding True
    by (intro guards_test [OF IsFileExisting_absent]) (auto intro!: trace_rules only_WriteAndSyncFile assms)
next
  case False
  then have "only (\<lambda>e. \<not> opens q e) (WriteAndSyncFile h f d perm)"
    by (intro only_WriteAndSyncFile) (auto simp: opens_def)
  moreover have "only (\<lambda>e. \<not> opens q e) (IsFileExisting h f)"
    unfolding only_def by (rule produces_weaken [OF IsFileExisting_absent [of h f q]]) simp
  ultimately show ?thesis by (intro guards_only_bind) (auto intro!: trace_rules guards_of_only assms)
qed

text \<open>
  \<open>WriteMetricsInfo\<close> never opens, and so never truncates, a file that it has not first seen to be absent.
\<close>

theorem metrics_info_kept:
  assumes "new_events (WriteMetricsInfo h pre req mtop client backend fs) s = xs @ OpenEv q r # ys"
  shows "\<exists>err. StatEv q (Inl err) \<in> set xs \<and> IsNotExist err"
proof -
  have "guards (opens q) (absent q) (WriteMetricsInfo h pre req mtop client backend fs)"
    unfolding WriteMetricsInfo_def Let_def
    by (intro guards_only_bind guards_write_missing trace_rules)
       (auto simp: IsFileExisting_def utils_MkdirAll_def opens_def intro!: trace_rules)
  then have "list_ex (absent q) xs"
    using guarded_prefix [of "opens q" "absent q" xs "OpenEv q r" ys] guards_new assms by (metis opens_def)
  then show ?thesis by (auto simp: list_ex_iff absent_def)
qed

definition bare_host :: "unit host" where
  "bare_host = quiet_host\<lparr>os_stat := (\<lambda>p w. (Inl (SysError ENotExist []), w))\<rparr>"

definition some_publish :: NodePublishVolumeRequest where
  "some_publish = \<lparr>pub_VolumeId = ''v'', pub_TargetPath = ''/t'', pub_VolumeContext = Map.empty, pub_Readonly = False, pub_MountFlags = []\<rparr>"

theorem metrics_info_kept_witness:
  "\<exists>err. StatEv ''/m//pod_info'' (Inl err) \<in> set [StatEv ''/m//v/'' (Inl (SysError ENotExist [])), MkdirAllEv ''/m//v/'' None,
      StatEv ''/m//pod_info'' (Inl (SysError ENotExist []))] \<and> IsNotExist err"
  by (rule metrics_info_kept [where h = bare_host and pre = "''/m/''" and req = some_publish and s = start and r = None])
     (simp add: new_events_def WriteMetricsInfo_def IsFileExisting_def utils_MkdirAll_def WriteAndSyncFile_def Fsync_def Let_def
       host_call_defs sample_defs bare_host_def some_publish_def ctx_get_def IsNotExist_def)

end
