(* ===== verification/Go_Net.thy ===== *)
theory Go_Net
  imports Go_Json_Scan Go_Strconv
begin

text \<open>
  IP addresses of Go's package \<open>net\<close> (Go 1.19): \<open>ParseIP\<close> and the method \<open>String\<close>. An address is the list of its
  bytes, the empty list for nil; a parsed address has 16 bytes, an IPv4 address in its mapped form.
\<close>

section \<open>Numbers\<close>

text \<open>\<open>dtoi\<close> and \<open>xtoi\<close>: a decimal or hexadecimal number at the front of a string, and the rest.\<close>

fun dtoi_loop :: "nat \<Rightarrow> string \<Rightarrow> (nat \<times> string) option" where
  "dtoi_loop n [] = Some (n, [])"
| "dtoi_loop n (c # s) =
     (if is_digit c then
        (let n' = n * 10 + digit_val c in if 0xFFFFFF \<le> n' then None else dtoi_loop n' s)
      else Some (n, c # s))"

definition dtoi :: "string \<Rightarrow> (nat \<times> string) option" where
  "dtoi s = (if s = [] \<or> \<not> is_digit (hd s) then None else dtoi_loop 0 s)"

fun xtoi_loop :: "nat \<Rightarrow> string \<Rightarrow> (nat \<times> string) option" where
  "xtoi_loop n [] = Some (n, [])"
| "xtoi_loop n (c # s) =
     (if is_hex c then
        (let n' = n * 16 + hex_val c in if 0xFFFFFF \<le> n' then None else xtoi_loop n' s)
      else Some (n, c # s))"

definition xtoi :: "string \<Rightarrow> (nat \<times> string) option" where
  "xtoi s = (if s = [] \<or> \<not> is_hex (hd s) then None else xtoi_loop 0 s)"

section \<open>Parsing\<close>

text \<open>The loop over the four octets: how many are left, the rest of the string, the octets read.\<close>

fun ipv4_loop :: "nat \<Rightarrow> string \<Rightarrow> nat list \<Rightarrow> nat list option" where
  "ipv4_loop 0 s p = (if s \<noteq> [] then None else Some p)"
| "ipv4_loop (Suc k) s p =
     (if s = [] then None
      else if p \<noteq> [] \<and> hd s \<noteq> CHR ''.'' then None
      else (let s' = (if p \<noteq> [] then tl s else s)
            in (case dtoi s' of
                  None \<Rightarrow> None
                | Some (n, r) \<Rightarrow>
                    if 0xFF < n then None
                    else if 1 < length s' - length r \<and> hd s' = CHR ''0'' then None
                    else ipv4_loop k r (p @ [n]))))"

definition IPv4 :: "nat list \<Rightarrow> nat list" where
  "IPv4 p = replicate 10 0 @ [0xFF, 0xFF] @ p"

definition parseIPv4 :: "string \<Rightarrow> nat list" where
  "parseIPv4 s = (case ipv4_loop 4 s [] of None \<Rightarrow> [] | Some p \<Rightarrow> IPv4 p)"

text \<open>The loop over the groups: the bytes read, the position of the ellipsis and the rest of the string.\<close>

function ipv6_loop :: "nat list \<Rightarrow> nat option \<Rightarrow> string \<Rightarrow> (nat list \<times> nat option \<times> string) option" where
  "ipv6_loop ip ell s =
     (if 16 \<le> length ip then Some (ip, ell, s)
      else (case xtoi s of
          None \<Rightarrow> None
        | Some (n, r) \<Rightarrow>
            if 0xFFFF < n then None
            else if r \<noteq> [] \<and> hd r = CHR ''.'' then
              (if ell = None \<and> length ip \<noteq> 12 then None
               else if 16 < length ip + 4 then None
               else (let ip4 = parseIPv4 s
                     in if ip4 = [] then None else Some (ip @ drop 12 ip4, ell, [])))
            else (let ip' = ip @ [n div 256, n mod 256]
                  in if r = [] then Some (ip', ell, [])
                     else if hd r \<noteq> CHR '':'' \<or> length r = 1 then None
                     else if hd (tl r) = CHR '':'' then
                       (if ell \<noteq> None then None
                        else if tl (tl r) = [] then Some (ip', Some (length ip'), [])
                        else ipv6_loop ip' (Some (length ip')) (tl (tl r)))
                     else ipv6_loop ip' ell (tl r))))"
  by pat_completeness auto
termination
  by (relation "measure (\<lambda>(ip, ell, s). 16 - length ip)") auto

declare ipv6_loop.simps [simp del]

text \<open>The bytes behind the ellipsis are moved to the end.\<close>

definition ipv6_expand :: "nat list \<Rightarrow> nat option \<Rightarrow> nat list" where
  "ipv6_expand ip ell =
     (if length ip < 16 then
        (case ell of None \<Rightarrow> [] | Some e \<Rightarrow> take e ip @ replicate (16 - length ip) 0 @ drop e ip)
      else if ell \<noteq> None then []
      else ip)"

definition parseIPv6 :: "string \<Rightarrow> nat list" where
  "parseIPv6 s =
     (let lead = (take 2 s = ''::'')
      in if lead \<and> drop 2 s = [] then replicate 16 0
         else (case ipv6_loop [] (if lead then Some 0 else None) (if lead then drop 2 s else s) of
             None \<Rightarrow> []
           | Some (ip, ell, rest) \<Rightarrow> if rest \<noteq> [] then [] else ipv6_expand ip ell))"

fun first_sep :: "string \<Rightarrow> char option" where
  "first_sep [] = None"
| "first_sep (c # s) = (if c = CHR ''.'' \<or> c = CHR '':'' then Some c else first_sep s)"

definition ParseIP :: "string \<Rightarrow> nat list" where
  "ParseIP s = (case first_sep s of
     None \<Rightarrow> []
   | Some c \<Rightarrow> if c = CHR ''.'' then parseIPv4 s else parseIPv6 s)"

section \<open>Printing\<close>

fun show_hex :: "nat \<Rightarrow> string" where
  "show_hex n = (if n < 16 then [hex_digit n] else show_hex (n div 16) @ [hex_digit n])"

declare show_hex.simps [simp del]

definition To4 :: "nat list \<Rightarrow> nat list" where
  "To4 ip = (if length ip = 4 then ip
     else if length ip = 16 \<and> take 12 ip = replicate 10 0 @ [0xFF, 0xFF] then drop 12 ip
     else [])"

text \<open>The eight groups of two bytes, and the longest run of zero groups: its start and length, the first one of that length.\<close>

fun ip_groups :: "nat list \<Rightarrow> nat list" where
  "ip_groups (a # b # ip) = (a * 256 + b) # ip_groups ip"
| "ip_groups _ = []"

definition zero_run :: "nat list \<Rightarrow> nat \<Rightarrow> nat" where
  "zero_run gs i = length (takeWhile (\<lambda>g. g = 0) (drop i gs))"

function longest_run :: "nat list \<Rightarrow> nat \<Rightarrow> nat \<times> nat \<Rightarrow> nat \<times> nat" where
  "longest_run gs i e =
     (if length gs \<le> i then e
      else if snd e < zero_run gs i then longest_run gs (i + zero_run gs i + 1) (i, zero_run gs i)
      else longest_run gs (i + 1) e)"
  by pat_completeness auto
termination
  by (relation "measure (\<lambda>(gs, i, e). length gs - i)") auto

function print_groups :: "nat list \<Rightarrow> nat \<times> nat \<Rightarrow> nat \<Rightarrow> string" where
  "print_groups gs e i =
     (if length gs \<le> i then []
      else if 1 < snd e \<and> i = fst e then
        (if length gs \<le> i + snd e then ''::''
         else ''::'' @ show_hex (gs ! (i + snd e)) @ print_groups gs e (i + snd e + 1))
      else (if 0 < i then '':'' else []) @ show_hex (gs ! i) @ print_groups gs e (i + 1))"
  by pat_completeness auto
termination
  by (relation "measure (\<lambda>(gs, e, i). length gs - i)") auto

declare longest_run.simps [simp del] print_groups.simps [simp del]

definition hex_bytes :: "nat list \<Rightarrow> string" where
  "hex_bytes ip = concat (map (\<lambda>b. [hex_digit (b div 16), hex_digit b]) ip)"

definition ip_String :: "nat list \<Rightarrow> string" where
  "ip_String ip =
     (if ip = [] then ''<nil>''
      else if length (To4 ip) = 4 then Join (map show_nat (To4 ip)) ''.''
      else if length ip \<noteq> 16 then CHR ''?'' # hex_bytes ip
      else print_groups (ip_groups ip) (longest_run (ip_groups ip) 0 (0, 0)) 0)"

section \<open>Properties\<close>

definition is_ip :: "nat list \<Rightarrow> bool" where
  "is_ip ip \<longleftrightarrow> length ip = 16 \<and> list_all (\<lambda>b. b < 256) ip"

lemma ipv4_loop_bytes:
  "ipv4_loop k s p = Some q \<Longrightarrow> list_all (\<lambda>b. b < 256) p \<Longrightarrow> length q = length p + k \<and> list_all (\<lambda>b. b < 256) q"
  by (induction k s p rule: ipv4_loop.induct) (auto simp: Let_def split: if_splits option.splits)

lemma parseIPv4_type: "parseIPv4 s = [] \<or> is_ip (parseIPv4 s)"
  using ipv4_loop_bytes [of 4 s "[]"] by (auto simp: parseIPv4_def IPv4_def is_ip_def list_all_iff split: option.split)

lemma ipv6_loop_bytes:
  "ipv6_loop ip ell s = Some (ip', ell', r) \<Longrightarrow> list_all (\<lambda>b. b < 256) ip \<Longrightarrow> length ip \<le> 16 \<Longrightarrow> even (length ip) \<Longrightarrow>
     list_all (\<lambda>b. b < 256) ip' \<and> length ip' \<le> 16"
proof (induction ip ell s rule: ipv6_loop.induct)
  case (1 ip ell s)
  have len: "length ip + 2 \<le> 16" if "\<not> 16 \<le> length ip" using that "1.prems"(4) by presburger
  have four: "list_all (\<lambda>b. b < 256) (drop 12 (parseIPv4 s)) \<and> length (drop 12 (parseIPv4 s)) \<le> 4"
    using parseIPv4_type [of s] by (auto simp: is_ip_def list_all_iff dest: in_set_dropD)
  show ?case
  proof (cases "16 \<le> length ip")
    case True
    with 1 show ?thesis by (simp add: ipv6_loop.simps)
  next
    case False
    then obtain n t where x: "xtoi s = Some (n, t)" "n < 65536"
      using "1.prems"(1) by (simp add: ipv6_loop.simps [of ip] split: option.splits prod.splits if_splits)
    have ip2: "list_all (\<lambda>b. b < 256) (ip @ [n div 256, n mod 256])" "length (ip @ [n div 256, n mod 256]) \<le> 16"
      "even (length (ip @ [n div 256, n mod 256]))"
      using "1.prems"(2,4) x(2) len [OF False] by simp_all
    have "length (ip @ drop 12 (parseIPv4 s)) \<le> 16" if "\<not> 16 < length ip + 4" using that four by simp
    with "1.prems"(1,2) False x four ip2 "1.IH" [OF False x(1) refl] show ?thesis
      unfolding ipv6_loop.simps [of ip] by (auto simp: Let_def split: if_splits)
  qed
qed

lemma ipv6_expand_type:
  "list_all (\<lambda>b. b < 256) ip \<Longrightarrow> length ip \<le> 16 \<Longrightarrow> ipv6_expand ip ell = [] \<or> is_ip (ipv6_expand ip ell)"
  by (auto simp: ipv6_expand_def is_ip_def list_all_iff dest: in_set_takeD in_set_dropD split: option.split)

lemma parseIPv6_type: "parseIPv6 s = [] \<or> is_ip (parseIPv6 s)"
proof -
  have zero: "is_ip (replicate 16 0)" by (simp add: is_ip_def list_all_iff)
  define body where "body e t = (case ipv6_loop [] e t of None \<Rightarrow> []
      | Some (ip, ell, rest) \<Rightarrow> if rest \<noteq> [] then [] else ipv6_expand ip ell)" for e t
  have "body e t = [] \<or> is_ip (body e t)" for e t
    using ipv6_loop_bytes [of "[]" e t] ipv6_expand_type by (auto simp: body_def split: option.split)
  then show ?thesis
    unfolding parseIPv6_def Let_def body_def [symmetric] by (simp add: zero)
qed

text \<open>What \<open>ParseIP\<close> returns is nil or has 16 bytes.\<close>

lemma ParseIP_type: "ParseIP s = [] \<or> is_ip (ParseIP s)"
  using parseIPv4_type parseIPv6_type by (auto simp: ParseIP_def split: option.split)

section \<open>Dotted addresses\<close>

lemma dtoi_loop_show: "n < 0xFFFFFF \<Longrightarrow> dtoi_loop 0 (show_nat n @ r) = dtoi_loop n r"
proof (induction n arbitrary: r rule: show_nat.induct)
  case (1 n)
  show ?case
  proof (cases "n < 10")
    case False
    with "1" have "dtoi_loop 0 (show_nat (n div 10) @ t) = dtoi_loop (n div 10) t" for t by simp
    with False "1.prems" show ?thesis by (simp add: show_nat.simps [of n] Let_def)
  qed (use 1 in \<open>simp add: show_nat.simps [of n] Let_def\<close>)
qed

lemma hd_show_nat: "is_digit (hd (show_nat n))"
  by (rule show_nat_digits [of _ n]) simp

lemma dtoi_show:
  assumes "n < 0xFFFFFF" "r = [] \<or> \<not> is_digit (hd r)"
  shows "dtoi (show_nat n @ r) = Some (n, r)"
  using assms hd_show_nat [of n] dtoi_loop_show [of n r] by (cases r) (auto simp: dtoi_def)

lemma show_nat_zero: "n \<noteq> 0 \<Longrightarrow> hd (show_nat n) \<noteq> CHR ''0''"
proof (induction n rule: show_nat.induct)
  case (1 n)
  show ?case
  proof (cases "n < 10")
    case True
    then have "digit_val (digit_char n) \<noteq> digit_val (CHR ''0'')" using "1.prems" by (simp add: digit_val_def [of "CHR ''0''"])
    with True show ?thesis by (metis show_nat.simps list.sel(1))
  next
    case False
    with 1 show ?thesis by (simp add: show_nat.simps [of n])
  qed
qed

lemma octet_step:
  assumes "n < 256" "r = [] \<or> \<not> is_digit (hd r)"
  shows "ipv4_loop (Suc k) ((if p = [] then [] else ''.'') @ show_nat n @ r) p = ipv4_loop k r (p @ [n])"
proof -
  have "\<not> (1 < length (show_nat n) \<and> hd (show_nat n) = CHR ''0'')"
    using show_nat_zero [of n] by (cases "n = 0") (simp_all add: show_nat.simps)
  then show ?thesis using dtoi_show [of n r] assms by (auto simp: Let_def)
qed

lemma not_digit_dot [simp]: "\<not> is_digit (CHR ''.'')"
  by (simp add: is_digit_def)

lemma first_sep_digits: "list_all is_digit s \<Longrightarrow> first_sep (s @ CHR ''.'' # t) = Some (CHR ''.'')"
  by (induction s) (auto simp: is_digit_def)

definition dotted :: "nat list \<Rightarrow> string" where
  "dotted p = Join (map show_nat p) ''.''"

lemma ParseIP_dotted:
  assumes "length p = 4" "list_all (\<lambda>b. b < 256) p"
  shows "ParseIP (dotted p) = IPv4 p"
proof -
  obtain a b c d where p: "p = [a, b, c, d]"
    using assms(1) by (auto simp: length_Suc_conv eval_nat_numeral)
  then have s: "dotted p = show_nat a @ ''.'' @ show_nat b @ ''.'' @ show_nat c @ ''.'' @ show_nat d"
    by (simp add: dotted_def)
  have "ipv4_loop (Suc (Suc (Suc (Suc 0)))) (dotted p) [] = Some p"
    unfolding s using assms(2) octet_step [of a "''.'' @ show_nat b @ ''.'' @ show_nat c @ ''.'' @ show_nat d" _ "[]"]
      octet_step [of b "''.'' @ show_nat c @ ''.'' @ show_nat d" _ "[a]"]
      octet_step [of c "''.'' @ show_nat d" _ "[a, b]"] octet_step [of d "[]" _ "[a, b, c]"]
    by (simp add: p del: ipv4_loop.simps(2))
  then have "parseIPv4 (dotted p) = IPv4 p" by (simp add: parseIPv4_def eval_nat_numeral)
  moreover have "first_sep (dotted p) = Some (CHR ''.'')"
    using first_sep_digits [of "show_nat a"] show_nat_digits by (auto simp: s list_all_iff)
  ultimately show ?thesis by (simp add: ParseIP_def)
qed

lemma ip_String_dotted: "length p = 4 \<Longrightarrow> ip_String (IPv4 p) = dotted p"
  by (auto simp: ip_String_def IPv4_def To4_def dotted_def)

end
