(* ===== verification/Utils_Net.thy ===== *)
theory Utils_Net
  imports Utils_JsonFiles Go_Net
begin

text \<open>
  The rest of \<open>pkg/utils/util.go\<close>: results of a call, commands with a time limit, the runtime of a pod, pings, the
  check of a quota path, and the addresses of nodes with their cache. The cache \<open>NodeAddrMap\<close> is a
  package variable: it extends the state of a run.
\<close>

section \<open>Results\<close>

record Result =
  res_Status :: string
  res_Message :: string
  res_Device :: string

text \<open>The argument is the text that \<open>fmt.Sprint\<close> makes of the operands.\<close>

definition Succeed :: "string \<Rightarrow> Result" where
  "Succeed a = \<lparr>res_Status = ''Success'', res_Message = a, res_Device = []\<rparr>"

definition NotSupport :: "string \<Rightarrow> Result" where
  "NotSupport a = \<lparr>res_Status = ''Not supported'', res_Message = a, res_Device = []\<rparr>"

definition Fail :: "string \<Rightarrow> Result" where
  "Fail a = \<lparr>res_Status = ''Failure'', res_Message = a, res_Device = []\<rparr>"

section \<open>Commands with a time limit\<close>

text \<open>
  The limit is a number of seconds, a 64-bit integer; the duration is the product in 64 bits.
\<close>

definition RunTimeout :: "'w host \<Rightarrow> string \<Rightarrow> 64 word \<Rightarrow> ('w, 'z, goerror option) prog" where
  "RunTimeout h cmd timeout = do {
     err \<leftarrow> RunContext h ''sh'' [''-c'', cmd] (if 0 < sint timeout then Some (timeout * 1000000000) else None);
     case err of Some e \<Rightarrow> State_Monad.return (Some e) | None \<Rightarrow> State_Monad.return None
   }"

section \<open>The runtime of a pod\<close>

definition RuncRunTimeTag :: string where "RuncRunTimeTag = ''runc''"
definition RunvRunTimeTag :: string where "RunvRunTimeTag = ''runv''"

definition annotation :: "Pod \<Rightarrow> string \<Rightarrow> string option" where
  "annotation pod k = (case pod_Annotations pod of None \<Rightarrow> None | Some m \<Rightarrow> m k)"

definition pod_runtime :: "Pod \<Rightarrow> string" where
  "pod_runtime podInfo =
     (let runTimeValue = RuncRunTimeTag;
          runTimeValue = (case pod_RuntimeClassName podInfo of
              None \<Rightarrow> runTimeValue
            | Some c \<Rightarrow> if c = [] then runTimeValue
                        else if TrimSpace c = RunvRunTimeTag then RunvRunTimeTag else runTimeValue);
          runTimeValue = (if annotation podInfo ''io.kubernetes.runtime'' = Some ''kata-runtime''
            then RunvRunTimeTag else runTimeValue);
          runTimeValue = (case annotation podInfo ''io.kubernetes.cri.untrusted-workload'' of
              Some v \<Rightarrow> if TrimSpace v = ''true'' then RunvRunTimeTag else runTimeValue
            | None \<Rightarrow> runTimeValue)
      in runTimeValue)"

definition GetPodRunTime :: "'w host \<Rightarrow> NodePublishVolumeRequest \<Rightarrow> ('w, 'z, goerror + string) prog" where
  "GetPodRunTime h req =
     (let podName = ctx_get (pub_VolumeContext req) ''csi.storage.k8s.io/pod.name'';
          nameSpace = ctx_get (pub_VolumeContext req) ''csi.storage.k8s.io/pod.namespace''
      in if podName = [] \<or> nameSpace = []
         then State_Monad.return (Inl (ErrorString ''GetPodRunTime: Rreceive Request with Empty name or namespace''))
         else do {
           r \<leftarrow> GetPod h nameSpace podName;
           State_Monad.return (case r of
               Inl err \<Rightarrow> Inl (ErrorString (''GetPodRunTime: Get PodInfo('' @ podName @ '', '' @ nameSpace @
                 '') with error: '' @ Error (quote h) err))
             | Inr podInfo \<Rightarrow> Inr (pod_runtime podInfo))
         })"

section \<open>Pings and quota paths\<close>

text \<open>The error of \<open>pinger.Run\<close> is ignored.\<close>

definition Ping :: "'w host \<Rightarrow> string \<Rightarrow> ('w, 'z, goerror + PingStatistics) prog" where
  "Ping h ipAddress = do {
     err \<leftarrow> NewPinger h ipAddress;
     case err of
       Some e \<Rightarrow> State_Monad.return (Inl e)
     | None \<Rightarrow> do {
         (_, stats) \<leftarrow> PingRun h \<lparr>ping_Addr = ipAddress, ping_Privileged = True, ping_Count = 1, ping_Timeout = 2000000000\<rparr>;
         State_Monad.return (Inr stats)
       }
   }"

definition CheckQuotaPathValidate :: "'w host \<Rightarrow> string \<Rightarrow> ('w, 'z, goerror option) prog" where
  "CheckQuotaPathValidate h path = do {
     r \<leftarrow> GetPV h (Base path);
     State_Monad.return (case r of Inl err \<Rightarrow> Some err | Inr _ \<Rightarrow> None)
   }"

section \<open>Addresses of nodes\<close>

record 'w addr_sys = "'w sys" +
  NodeAddrMap :: "string \<rightharpoonup> string"

type_synonym ('w, 'z, 'a) aprog = "(('w, 'z) addr_sys_scheme, 'a) state"

definition SetNodeAddrMap :: "string \<Rightarrow> string \<Rightarrow> ('w, 'z, unit) aprog" where
  "SetNodeAddrMap key val = State (\<lambda>s. ((), s\<lparr>NodeAddrMap := (NodeAddrMap s)(key \<mapsto> val)\<rparr>))"

definition LookupNodeAddr :: "string \<Rightarrow> ('w, 'z, string option) aprog" where
  "LookupNodeAddr key = State (\<lambda>s. (NodeAddrMap s key, s))"

text \<open>The loop that groups the addresses by their type.\<close>

fun group_addresses :: "NodeAddress list \<Rightarrow> (string \<rightharpoonup> NodeAddress list) \<Rightarrow> string \<rightharpoonup> NodeAddress list" where
  "group_addresses [] m = m"
| "group_addresses (a # as) m =
     group_addresses as (m(addr_Type a \<mapsto> (case m (addr_Type a) of None \<Rightarrow> [] | Some l \<Rightarrow> l) @ [a]))"

text \<open>\<open>%v\<close> of a list of addresses.\<close>

definition show_addresses :: "NodeAddress list \<Rightarrow> string" where
  "show_addresses as = ''['' @ Join (map (\<lambda>a. ''{'' @ addr_Type a @ '' '' @ addr_Address a @ ''}'') as) '' '' @ '']''"

definition use_address :: "string \<Rightarrow> NodeAddress list \<Rightarrow> ('w, 'z, (goerror + nat list) outcome) aprog" where
  "use_address nodeID addresses = (case addresses of
     [] \<Rightarrow> State_Monad.return (Panic ''index out of range'')
   | a # _ \<Rightarrow> do {
       SetNodeAddrMap nodeID (addr_Address a);
       State_Monad.return (Done (Inr (ParseIP (addr_Address a))))
     })"

definition GetNodeIP :: "'w host \<Rightarrow> string \<Rightarrow> ('w, 'z, (goerror + nat list) outcome) aprog" where
  "GetNodeIP h nodeID = do {
     cached \<leftarrow> LookupNodeAddr nodeID;
     case (case cached of None \<Rightarrow> [] | Some v \<Rightarrow> v) of
       c # cs \<Rightarrow> State_Monad.return (Done (Inr (ParseIP (c # cs))))
     | [] \<Rightarrow> do {
         node \<leftarrow> GetNode h nodeID;
         case node of
           Inl err \<Rightarrow> State_Monad.return (Done (Inl err))
         | Inr addresses \<Rightarrow>
             (let addressMap = group_addresses addresses Map.empty
              in (case addressMap ''InternalIP'' of
                    Some as \<Rightarrow> use_address nodeID as
                  | None \<Rightarrow> (case addressMap ''ExternalIP'' of
                        Some as \<Rightarrow> use_address nodeID as
                      | None \<Rightarrow> State_Monad.return (Done (Inl (ErrorString
                          (''Node IP unknown; known addresses: '' @ show_addresses addresses)))))))
       }
   }"

definition GetNodeAddr :: "'w host \<Rightarrow> string \<Rightarrow> string \<Rightarrow> ('w, 'z, (goerror + string) outcome) aprog" where
  "GetNodeAddr h node port = do {
     ip \<leftarrow> GetNodeIP h node;
     State_Monad.return (case ip of
         Panic m \<Rightarrow> Panic m
       | Done (Inl err) \<Rightarrow> Done (Inl err)
       | Done (Inr a) \<Rightarrow> Done (Inr (ip_String a @ '':'' @ port)))
   }"

section \<open>Reference\<close>

text \<open>
  What the code means: the first internal address of the node, else its first external one.
\<close>

definition preferred_address :: "NodeAddress list \<Rightarrow> NodeAddress option" where
  "preferred_address as = (case find (\<lambda>a. addr_Type a = ''InternalIP'') as of
     Some a \<Rightarrow> Some a
   | None \<Rightarrow> find (\<lambda>a. addr_Type a = ''ExternalIP'') as)"

definition node_lookup :: "'w host \<Rightarrow> string \<Rightarrow> ('w, 'z, goerror + nat list) aprog" where
  "node_lookup h nodeID = do {
     cached \<leftarrow> LookupNodeAddr nodeID;
     if cached \<noteq> None \<and> cached \<noteq> Some [] then State_Monad.return (Inr (ParseIP (the cached)))
     else do {
       node \<leftarrow> GetNode h nodeID;
       case node of
         Inl err \<Rightarrow> State_Monad.return (Inl err)
       | Inr as \<Rightarrow>
           (case preferred_address as of
              Some a \<Rightarrow> do {
                SetNodeAddrMap nodeID (addr_Address a);
                State_Monad.return (Inr (ParseIP (addr_Address a)))
              }
            | None \<Rightarrow> State_Monad.return (Inl (ErrorString (''Node IP unknown; known addresses: '' @ show_addresses as))))
     }
   }"

lemma group_addresses_filter:
  "group_addresses as m t =
     (let l = (case m t of None \<Rightarrow> [] | Some l \<Rightarrow> l) @ filter (\<lambda>a. addr_Type a = t) as
      in if m t = None \<and> l = [] then None else Some l)"
  by (induction as arbitrary: m) (auto simp: Let_def split: option.split)

lemma group_addresses_find:
  "group_addresses as Map.empty t = None \<longleftrightarrow> find (\<lambda>a. addr_Type a = t) as = None"
  "group_addresses as Map.empty t = Some l \<Longrightarrow> \<exists>a r. l = a # r \<and> find (\<lambda>a. addr_Type a = t) as = Some a"
proof -
  have f: "find P as = (case filter P as of [] \<Rightarrow> None | a # _ \<Rightarrow> Some a)" for P
    by (induction as) auto
  show "group_addresses as Map.empty t = None \<longleftrightarrow> find (\<lambda>a. addr_Type a = t) as = None"
    by (simp add: group_addresses_filter Let_def f split: list.split)
  show "\<exists>a r. l = a # r \<and> find (\<lambda>a. addr_Type a = t) as = Some a" if "group_addresses as Map.empty t = Some l"
    using that by (auto simp: group_addresses_filter Let_def f split: list.splits if_splits)
qed

lemmas addr_defs = LookupNodeAddr_def SetNodeAddrMap_def use_address_def host_call_defs

lemma run_chosen:
  "run_state (case group_addresses as Map.empty ''InternalIP'' of
       Some l \<Rightarrow> use_address n l
     | None \<Rightarrow> (case group_addresses as Map.empty ''ExternalIP'' of
         Some l \<Rightarrow> use_address n l
       | None \<Rightarrow> State_Monad.return (Done (Inl err)))) s =
   (case preferred_address as of
      Some a \<Rightarrow> (Done (Inr (ParseIP (addr_Address a))), s\<lparr>NodeAddrMap := (NodeAddrMap s)(n \<mapsto> addr_Address a)\<rparr>)
    | None \<Rightarrow> (Done (Inl err), s))"
proof (cases "group_addresses as Map.empty ''InternalIP''")
  case (Some l)
  with group_addresses_find(2) obtain a r where "l = a # r" "find (\<lambda>a. addr_Type a = ''InternalIP'') as = Some a" by blast
  with Some show ?thesis by (simp add: preferred_address_def addr_defs)
next
  case None
  then have i: "find (\<lambda>a. addr_Type a = ''InternalIP'') as = None" by (simp add: group_addresses_find(1))
  show ?thesis
  proof (cases "group_addresses as Map.empty ''ExternalIP''")
    case (Some l)
    with group_addresses_find(2) obtain a r where "l = a # r" "find (\<lambda>a. addr_Type a = ''ExternalIP'') as = Some a" by blast
    with Some None i show ?thesis by (simp add: preferred_address_def addr_defs)
  next
    case e: None
    then have "find (\<lambda>a. addr_Type a = ''ExternalIP'') as = None" by (simp add: group_addresses_find(1))
    with e None i show ?thesis by (simp add: preferred_address_def)
  qed
qed

lemma run_GetNodeIP:
  "run_state (GetNodeIP h n) s = (case run_state (node_lookup h n) s of (r, s') \<Rightarrow> (Done r, s'))"
proof (cases "NodeAddrMap s n = None \<or> NodeAddrMap s n = Some []")
  case True
  then have c: "(case NodeAddrMap s n of None \<Rightarrow> [] | Some v \<Rightarrow> v) = []" by auto
  obtain r w where r: "get_node h n (world s) = (r, w)" by fastforce
  show ?thesis
    using True c r
    by (cases r; cases "preferred_address (projr r)")
       (auto simp: GetNodeIP_def node_lookup_def LookupNodeAddr_def SetNodeAddrMap_def host_call_defs Let_def run_chosen)
next
  case False
  then obtain c cs where "NodeAddrMap s n = Some (c # cs)" by (cases "NodeAddrMap s n") (auto simp: neq_Nil_conv)
  then show ?thesis by (simp add: GetNodeIP_def node_lookup_def LookupNodeAddr_def)
qed

lemma node_lookup_cases:
  assumes "run_state (node_lookup h n) s = (Inr ip, s1)"
  obtains v where "NodeAddrMap s1 n = Some v" "ip = ParseIP v"
  using assms
  by (auto simp: node_lookup_def LookupNodeAddr_def SetNodeAddrMap_def host_call_defs
      split: if_splits prod.splits sum.splits option.splits)

lemma run_GetNodeIP_Inr:
  "run_state (GetNodeIP h n) s = (Done (Inr ip), s1) \<Longrightarrow> run_state (node_lookup h n) s = (Inr ip, s1)"
  by (simp add: run_GetNodeIP split: prod.splits)

section \<open>Theorems\<close>

text \<open>
  C39: \<open>GetNodeIP\<close> is the lookup that it means: with a cached address it makes no call; otherwise it takes the first internal
  address that the API server reports, else the first external one, and caches it. The index into the grouped
  addresses is never out of range.
\<close>

theorem node_ip_preferred:
  "run_state (GetNodeIP h n) s = (case run_state (node_lookup h n) s of (r, s') \<Rightarrow> (Done r, s'))"
  by (rule run_GetNodeIP)

definition node_host :: "string \<Rightarrow> 'w host" where
  "node_host a = quiet_host\<lparr>get_node := (\<lambda>n w. (Inr [\<lparr>addr_Type = ''Hostname'', addr_Address = n\<rparr>,
     \<lparr>addr_Type = ''InternalIP'', addr_Address = a\<rparr>], w))\<rparr>"

definition no_cache :: "unit addr_sys" where
  "no_cache = \<lparr>world = (), events = [], NodeAddrMap = Map.empty\<rparr>"

lemmas node_sample_defs = run_GetNodeIP node_lookup_def LookupNodeAddr_def SetNodeAddrMap_def host_call_defs node_host_def
  no_cache_def quiet_host_def preferred_address_def

text \<open>Lookups one after another, each with the API server as it is at that time.\<close>

fun node_lookups :: "('w host \<times> string) list \<Rightarrow> ('w, 'z, unit) aprog" where
  "node_lookups [] = State_Monad.return ()"
| "node_lookups ((h, n) # ks) = do { GetNodeIP h n; node_lookups ks }"

lemma node_lookup_keeps:
  assumes "NodeAddrMap s n = Some v" and "v \<noteq> []"
  shows "NodeAddrMap (snd (run_state (GetNodeIP h m) s)) n = Some v"
  using assms
  by (auto simp: run_GetNodeIP node_lookup_def LookupNodeAddr_def SetNodeAddrMap_def host_call_defs
      split: prod.split sum.split option.split)

lemma node_lookups_keep:
  "NodeAddrMap s n = Some v \<Longrightarrow> v \<noteq> [] \<Longrightarrow> NodeAddrMap (snd (run_state (node_lookups ks) s)) n = Some v"
proof (induction ks arbitrary: s)
  case (Cons k ks)
  obtain h m where k: "k = (h, m)" by fastforce
  obtain a t where t: "run_state (GetNodeIP h m) s = (a, t)" by fastforce
  with node_lookup_keeps [OF Cons.prems, of h m] Cons.IH [of t] Cons.prems(2) k show ?case by simp
qed simp

text \<open>
  C40: Once \<open>GetNodeIP\<close> has returned an address for a node (other than nil), it returns the same address for that node from then on, without a call of the
  API server: after any further lookups of any nodes, and whatever the API server would say then. An address that has changed is never noticed.
\<close>

theorem node_ip_stable:
  assumes "run_state (GetNodeIP h n) s = (Done (Inr ip), s1)" and "ip \<noteq> []" and "run_state (node_lookups ks) s1 = ((), s2)"
  shows "run_state (GetNodeIP h' n) s2 = (Done (Inr ip), s2)"
proof -
  obtain v where v: "NodeAddrMap s1 n = Some v" "ip = ParseIP v"
    using run_GetNodeIP_Inr [OF assms(1)] by (rule node_lookup_cases)
  then have "v \<noteq> []" using assms(2) by (auto simp: ParseIP_def)
  with v node_lookups_keep [of s1 n v ks] assms(3) have "NodeAddrMap s2 n = Some v" by simp
  with v(2) \<open>v \<noteq> []\<close> show ?thesis by (simp add: run_GetNodeIP node_lookup_def LookupNodeAddr_def)
qed

theorem node_ip_stable_witness:
  "let s1 = snd (run_state (GetNodeIP (node_host (dotted [10, 0, 0, 7])) ''n'') no_cache);
     s2 = snd (run_state (node_lookups [(node_host (dotted [1, 2, 3, 4]), ''m''), (node_host (dotted [5, 6, 7, 8]), ''n'')]) s1) in
   run_state (GetNodeIP quiet_host ''n'') s2 = (Done (Inr (IPv4 [10, 0, 0, 7])), s2)"
proof -
  obtain s1 where s1: "run_state (GetNodeIP (node_host (dotted [10, 0, 0, 7])) ''n'') no_cache = (Done (Inr (IPv4 [10, 0, 0, 7])), s1)"
    by (simp add: node_sample_defs ParseIP_dotted)
  have ip: "IPv4 [10, 0, 0, 7] \<noteq> []" by (simp add: IPv4_def)
  have run: "run_state (node_lookups ks) s1 = ((), snd (run_state (node_lookups ks) s1))" for ks
    by (simp add: prod_eq_iff)
  show ?thesis
    unfolding Let_def s1 snd_conv by (rule node_ip_stable [OF s1 ip run])
qed

text \<open>
  For a node whose preferred address is an IPv4 address in dotted form, \<open>GetNodeAddr\<close> returns that address and the port. An
  address that does not parse, such as a host name, is no error: the result is the text "<nil>" and the port.
\<close>

theorem node_addr_text:
  assumes "NodeAddrMap s n = None" and "get_node h n (world s) = (Inr as, w)" and "preferred_address as = Some a"
  shows "(addr_Address a = dotted p \<and> length p = 4 \<and> list_all (\<lambda>b. b < 256) p \<longrightarrow>
      result (GetNodeAddr h n port) s = Done (Inr (addr_Address a @ '':'' @ port))) \<and>
    (ParseIP (addr_Address a) = [] \<longrightarrow> result (GetNodeAddr h n port) s = Done (Inr (''<nil>:'' @ port)))"
proof -
  have "result (GetNodeAddr h n port) s = Done (Inr (ip_String (ParseIP (addr_Address a)) @ '':'' @ port))"
    using assms
    by (simp add: result_def GetNodeAddr_def run_GetNodeIP node_lookup_def LookupNodeAddr_def SetNodeAddrMap_def host_call_defs)
  then show ?thesis by (auto simp: ParseIP_dotted ip_String_dotted) (simp add: ip_String_def)
qed

theorem node_addr_text_witness:
  "result (GetNodeAddr (node_host ''worker-1'') ''n'' ''23000'') no_cache = Done (Inr ''<nil>:23000'')"
  using node_addr_text [of no_cache "''n''" "node_host ''worker-1''"
      "[\<lparr>addr_Type = ''Hostname'', addr_Address = ''n''\<rparr>, \<lparr>addr_Type = ''InternalIP'', addr_Address = ''worker-1''\<rparr>]" "()"
      "\<lparr>addr_Type = ''InternalIP'', addr_Address = ''worker-1''\<rparr>" "[]" "''23000''"]
  by (simp add: node_sample_defs ParseIP_def)

text \<open>
  \<open>GetPodRunTime\<close> answers \<open>runv\<close> exactly for a pod whose runtime class is, up to white space, \<open>runv\<close>, or that has one of the two
  annotations, and \<open>runc\<close> for every other pod.
\<close>

theorem pod_runtime_decided:
  assumes "get_pod h ns pn (world s) = (Inr pod, w)" and "pn \<noteq> []" and "ns \<noteq> []"
    and "pub_VolumeContext req ''csi.storage.k8s.io/pod.name'' = Some pn"
    and "pub_VolumeContext req ''csi.storage.k8s.io/pod.namespace'' = Some ns"
  shows "result (GetPodRunTime h req) s = Inr
    (if (\<exists>c. pod_RuntimeClassName pod = Some c \<and> TrimSpace c = ''runv'') \<or>
        annotation pod ''io.kubernetes.runtime'' = Some ''kata-runtime'' \<or>
        (\<exists>v. annotation pod ''io.kubernetes.cri.untrusted-workload'' = Some v \<and> TrimSpace v = ''true'')
     then ''runv'' else ''runc'')"
proof -
  have "TrimSpace [] \<noteq> ''runv''" by (simp add: TrimSpace_def TrimLeftSpace.simps TrimRightSpace.simps)
  then have "pod_runtime pod = (if (\<exists>c. pod_RuntimeClassName pod = Some c \<and> TrimSpace c = ''runv'') \<or>
        annotation pod ''io.kubernetes.runtime'' = Some ''kata-runtime'' \<or>
        (\<exists>v. annotation pod ''io.kubernetes.cri.untrusted-workload'' = Some v \<and> TrimSpace v = ''true'')
     then ''runv'' else ''runc'')"
    by (auto simp: pod_runtime_def Let_def RuncRunTimeTag_def RunvRunTimeTag_def split: option.splits)
  then show ?thesis using assms by (simp add: result_def GetPodRunTime_def ctx_get_def host_call_defs)
qed

theorem pod_runtime_decided_witness:
  "result (GetPodRunTime quiet_host (some_publish\<lparr>pub_VolumeContext :=
     [''csi.storage.k8s.io/pod.name'' \<mapsto> ''p'', ''csi.storage.k8s.io/pod.namespace'' \<mapsto> ''d'']\<rparr>)) start = Inr ''runc''"
  using pod_runtime_decided [of quiet_host "''d''" "''p''" start "\<lparr>pod_RuntimeClassName = None, pod_Annotations = None\<rparr>" "()"
      "some_publish\<lparr>pub_VolumeContext := [''csi.storage.k8s.io/pod.name'' \<mapsto> ''p'', ''csi.storage.k8s.io/pod.namespace'' \<mapsto> ''d'']\<rparr>"]
  by (simp add: sample_defs annotation_def)

text \<open>
  \<open>RunTimeout\<close> runs the command once. A limit that is not positive is none; up to 9223372036 seconds the deadline is exactly the
  limit, and one second more wraps around to a deadline in the past.
\<close>

theorem run_timeout_deadline:
  "\<exists>t err. new_events (RunTimeout h cmd timeout) s = [ExecTimeoutEv ''sh'' [''-c'', cmd] t err] \<and>
    (sint timeout \<le> 0 \<longrightarrow> t = None) \<and>
    (0 < sint timeout \<and> sint timeout \<le> 9223372036 \<longrightarrow> (\<exists>d. t = Some d \<and> sint d = sint timeout * 1000000000)) \<and>
    (sint timeout = 9223372037 \<longrightarrow> (\<exists>d. t = Some d \<and> sint d < 0))"
proof -
  have ex: "\<exists>err. new_events (RunTimeout h cmd timeout) s =
      [ExecTimeoutEv ''sh'' [''-c'', cmd] (if 0 < sint timeout then Some (timeout * 1000000000) else None) err]"
    by (simp add: new_events_def RunTimeout_def host_call_defs split: prod.split option.split)
  have m: "sint (timeout * 1000000000) = signed_take_bit 63 (sint timeout * 1000000000)"
    by (simp add: sint_word_ariths)
  have "sint (timeout * 1000000000) = sint timeout * 1000000000" if "0 < sint timeout" "sint timeout \<le> 9223372036"
    unfolding m using that by (intro signed_take_bit_int_eq_self) simp_all
  moreover have "sint (timeout * 1000000000) < 0" if "sint timeout = 9223372037"
    unfolding m that by simp
  ultimately show ?thesis using ex by auto
qed

theorem run_timeout_deadline_witness:
  "\<exists>d err. new_events (RunTimeout quiet_host ''true'' 30) start = [ExecTimeoutEv ''sh'' [''-c'', ''true''] (Some d) err] \<and>
     sint d = 30000000000"
  using run_timeout_deadline [of quiet_host "''true''" 30 start] by auto

end
