(* ===== verification/Metrics.thy ===== *)
theory Metrics
  imports Go_Strings "HOL-Library.Word"
begin

text \<open>
  \<open>pkg/metrics\<close>: the metrics scope of the driver and its gauges, and the order in which Go initialises the package. A
  scope of the vendored package \<open>tally\<close> is its prefix, separator and tags, which decide the names
  under which gauges are published; the registration of collectors goes to the registry of the Prometheus client. The
  state of the package holds the package variables and what has been registered.
\<close>

section \<open>Scopes of the metrics library\<close>

record tally_scope =
  sc_prefix :: string
  sc_separator :: string
  sc_tags :: "(string \<times> string) list"

record gauge =
  g_name :: string
  g_tags :: "(string \<times> string) list"

definition fullyQualifiedName :: "tally_scope \<Rightarrow> string \<Rightarrow> string" where
  "fullyQualifiedName s name = (if sc_prefix s = [] then name else sc_prefix s @ sc_separator s @ name)"

text \<open>Tags on the right win; the order of the list does not matter.\<close>

definition mergeRightTags :: "(string \<times> string) list \<Rightarrow> (string \<times> string) list \<Rightarrow> (string \<times> string) list" where
  "mergeRightTags l r = r @ filter (\<lambda>kv. fst kv \<notin> set (map fst r)) l"

definition Tagged :: "tally_scope \<Rightarrow> (string \<times> string) list \<Rightarrow> tally_scope" where
  "Tagged s tags = s\<lparr>sc_tags := mergeRightTags (sc_tags s) tags\<rparr>"

definition SubScope :: "tally_scope \<Rightarrow> string \<Rightarrow> tally_scope" where
  "SubScope s pre = s\<lparr>sc_prefix := fullyQualifiedName s pre\<rparr>"

definition Gauge :: "tally_scope \<Rightarrow> string \<Rightarrow> gauge" where
  "Gauge s name = \<lparr>g_name = fullyQualifiedName s name, g_tags = sc_tags s\<rparr>"

section \<open>The package\<close>

record TallyScope =
  ts_Scope :: tally_scope
  ts_interval :: "64 word"
  ts_closed :: bool

text \<open>The package variables, and the collectors that the registry holds.\<close>

record metrics_state =
  onceEnable :: bool
  DefaultTallyScope :: "TallyScope option"
  registered :: "string list"
  published :: "gauge list"

definition metrics_start :: metrics_state where
  "metrics_start = \<lparr>onceEnable = False, DefaultTallyScope = None, registered = [], published = []\<rparr>"

definition Register :: "string \<Rightarrow> metrics_state \<Rightarrow> metrics_state" where
  "Register c st = st\<lparr>registered := registered st @ [c]\<rparr>"

text \<open>\<open>onceEnable.Do\<close>.\<close>

definition enable_collectors :: "metrics_state \<Rightarrow> metrics_state" where
  "enable_collectors st =
     (if onceEnable st then st
      else (Register ''go'' (Register ''process'' st))\<lparr>onceEnable := True\<rparr>)"

definition NewTallyScope :: "string \<Rightarrow> (string \<times> string) list \<Rightarrow> 64 word \<Rightarrow> metrics_state \<Rightarrow> TallyScope \<times> metrics_state" where
  "NewTallyScope pre tags interval st =
     (\<lparr>ts_Scope = \<lparr>sc_prefix = pre, sc_separator = ''_'', sc_tags = tags\<rparr>, ts_interval = interval * 1000000000,
       ts_closed = False\<rparr>, enable_collectors st)"

text \<open>Closing a scope again has no effect; the error of the closer of the reporter is the argument.\<close>

definition Destroy :: "'e option \<Rightarrow> TallyScope \<Rightarrow> 'e option \<times> TallyScope" where
  "Destroy close_err t = (if ts_closed t then (None, t) else (close_err, t\<lparr>ts_closed := True\<rparr>))"

definition ProvisionerName :: string where
  "ProvisionerName = ''local.csi.kubeservice.cn''"

text \<open>\<open>strings.NewReplacer(".", "_", "-", "_")\<close>.\<close>

definition metric_name :: "string \<Rightarrow> string" where
  "metric_name s = map (\<lambda>c. if c = CHR ''.'' \<or> c = CHR ''-'' then CHR ''_'' else c) s"

definition metrics_init :: "metrics_state \<Rightarrow> metrics_state" where
  "metrics_init st = (case NewTallyScope (metric_name ProvisionerName) [] 5 st of
     (t, st') \<Rightarrow> st'\<lparr>DefaultTallyScope := Some t\<rparr>)"

section \<open>The gauges\<close>

definition Subsystem :: string where "Subsystem = ''local''"

text \<open>The package variables with their tags, in the order of the file.\<close>

definition custom_gauges :: "(string list \<times> string) list" where
  "custom_gauges =
     [([''nodename'', ''vgname''], ''volume_group_total''),
      ([''nodename'', ''vgname''], ''volume_group_used''),
      ([''nodename'', ''name'', ''type''], ''mount_point_total''),
      ([''nodename'', ''name'', ''type''], ''mount_point_available''),
      ([''nodename'', ''name''], ''mount_point_bind''),
      ([''nodename'', ''name'', ''type''], ''device_total''),
      ([''nodename'', ''name'', ''type''], ''device_available''),
      ([''nodename'', ''name''], ''device_bind''),
      ([''nodename''], ''allocated_num''),
      ([''nodename'', ''pv_name'', ''pv_type'', ''pvc_name'', ''pvc_ns'', ''status'', ''storage_name''], ''local_pv''),
      ([''nodename'', ''pod_namespace'', ''pod_name'', ''vgname'', ''volume_name''], ''inline_volume'')]"

text \<open>The initialiser of one variable: it dereferences \<open>DefaultTallyScope\<close>.\<close>

definition declare_gauge :: "string list \<times> string \<Rightarrow> metrics_state \<Rightarrow> metrics_state outcome" where
  "declare_gauge g st = (case DefaultTallyScope st of
     None \<Rightarrow> Panic ''invalid memory address or nil pointer dereference''
   | Some t \<Rightarrow> Done (st\<lparr>published := published st @
       [Gauge (SubScope (Tagged (ts_Scope t) (map (\<lambda>k. (k, [])) (fst g))) Subsystem) (snd g)]\<rparr>))"

fun declare_gauges :: "(string list \<times> string) list \<Rightarrow> metrics_state \<Rightarrow> metrics_state outcome" where
  "declare_gauges [] st = Done st"
| "declare_gauges (g # gs) st = (case declare_gauge g st of
     Panic m \<Rightarrow> Panic m
   | Done st' \<Rightarrow> declare_gauges gs st')"

text \<open>
  The initialisation of the package: first the package variables of all files (the initialisers refer to
  no function that assigns \<open>DefaultTallyScope\<close>, so its zero value is what they see), then the
  functions \<open>init\<close>.
\<close>

definition package_init :: "metrics_state outcome" where
  "package_init = (case declare_gauges custom_gauges metrics_start of
     Panic m \<Rightarrow> Panic m
   | Done st \<Rightarrow> Done (metrics_init st))"

section \<open>Theorems\<close>

text \<open>The characters of a Prometheus metric name.\<close>

definition prometheus_name :: "string \<Rightarrow> bool" where
  "prometheus_name s \<longleftrightarrow> s \<noteq> [] \<and> \<not> (0x30 \<le> (of_char (hd s) :: nat) \<and> (of_char (hd s) :: nat) \<le> 0x39) \<and>
     list_all (\<lambda>c. is_alnum c \<or> c = CHR ''_'' \<or> c = CHR '':'') s"

lemma declare_gauges_Some:
  "DefaultTallyScope st = Some t \<Longrightarrow> declare_gauges gs st = Done (st\<lparr>published := published st @
     map (\<lambda>g. Gauge (SubScope (Tagged (ts_Scope t) (map (\<lambda>k. (k, [])) (fst g))) Subsystem) (snd g)) gs\<rparr>)"
  by (induction gs arbitrary: st) (simp_all add: declare_gauge_def)

text \<open>
  With the scope that \<open>init\<close> creates the gauges are well-formed: eleven different names, all valid
  metric names under one prefix, each gauge with the tags of its declaration.
\<close>

lemma gauges_after_init:
  "\<exists>st. declare_gauges custom_gauges (metrics_init metrics_start) = Done st \<and>
    list_all (\<lambda>g. prometheus_name (g_name g)) (published st) \<and> distinct (map g_name (published st)) \<and>
    map g_name (published st) = map (\<lambda>g. ''local_csi_kubeservice_cn_local_'' @ snd g) custom_gauges \<and>
    map (\<lambda>g. map fst (g_tags g)) (published st) = map fst custom_gauges"
proof -
  obtain t where t: "DefaultTallyScope (metrics_init metrics_start) = Some t"
      "ts_Scope t = \<lparr>sc_prefix = ''local_csi_kubeservice_cn'', sc_separator = ''_'', sc_tags = []\<rparr>"
    by (simp add: metrics_init_def NewTallyScope_def metric_name_def ProvisionerName_def)
  have p: "published (metrics_init metrics_start) = []"
    by (simp add: metrics_init_def NewTallyScope_def enable_collectors_def Register_def metrics_start_def)
  have g: "Gauge (SubScope (Tagged (ts_Scope t) tags) Subsystem) name =
      \<lparr>g_name = ''local_csi_kubeservice_cn_local_'' @ name, g_tags = tags\<rparr>" for tags name
    by (simp add: t(2) Gauge_def SubScope_def Tagged_def fullyQualifiedName_def mergeRightTags_def Subsystem_def)
  show ?thesis
    unfolding declare_gauges_Some [OF t(1)] p g by (simp add: custom_gauges_def prometheus_name_def is_alnum_def)
qed

text \<open>
  However often scopes are created, the two collectors are registered once.
\<close>

theorem collectors_once:
  "registered (fold (\<lambda>(p, tags, i) st. snd (NewTallyScope p tags i st)) calls metrics_start) =
     (if calls = [] then [] else [''process'', ''go''])"
proof -
  have "fold (\<lambda>(p, tags, i) st. snd (NewTallyScope p tags i st)) cs st = st" if "onceEnable st" for cs st
    using that by (induction cs) (auto simp: NewTallyScope_def enable_collectors_def)
  then show ?thesis
    by (cases calls) (auto simp: NewTallyScope_def enable_collectors_def Register_def metrics_start_def)
qed

text \<open>
  The initialisation of the package panics: the gauges are package variables whose initialisers run before \<open>init\<close> sets
  the scope that they dereference (no package of the driver imports it). After \<open>init\<close> the same declarations would give
  eleven gauges with different, valid metric names under the prefix of the driver and the tags of their declarations.
\<close>

theorem metrics_initialisation:
  "panics package_init \<and>
   (\<exists>st. declare_gauges custom_gauges (metrics_init metrics_start) = Done st \<and>
    list_all (\<lambda>g. prometheus_name (g_name g)) (published st) \<and> distinct (map g_name (published st)) \<and>
    map g_name (published st) = map (\<lambda>g. ''local_csi_kubeservice_cn_local_'' @ snd g) custom_gauges \<and>
    map (\<lambda>g. map fst (g_tags g)) (published st) = map fst custom_gauges)"
  using gauges_after_init
  by (simp add: package_init_def custom_gauges_def declare_gauge_def metrics_start_def)

end
