(* ===== verification/Om.thy ===== *)
theory Om
  imports Utils_Mounter
begin

text \<open>
  \<open>pkg/om\<close>: the maintenance loop of the node plugin, which reads the end of the system log and repairs two
  problems that the kubelet reports there: block devices still referenced by links, and volume
  directories of deleted pods. The package variables are fields of the state. The environment is an
  argument \<open>env\<close> (the empty string for a variable that is not set); \<open>root\<close> is the package variable
  \<open>KubeletRootDir\<close> of \<open>pkg/utils/global.go\<close>.
\<close>

section \<open>State and configuration\<close>

record 'w omState = "'w sys" +
  IssueMessageFile :: bool
  MessageFileTailLines :: int
  IssueBlockReference :: bool
  IssueOrphanedPod :: bool
  FixedPodList :: "string \<rightharpoonup> string"

type_synonym ('w, 'z, 'a) omprog = "(('w, 'z) omState_scheme, 'a) state"

text \<open>\<open>init\<close> of \<open>pkg/utils/global.go\<close>.\<close>

definition KubeletRootDir :: "(string \<Rightarrow> string) \<Rightarrow> string" where
  "KubeletRootDir env = (let rootDir = env ''KUBELET_ROOT_DIR'' in if rootDir \<noteq> [] then rootDir else ''/var/lib/kubelet'')"

definition MountPathWithTLS :: "(string \<Rightarrow> string) \<Rightarrow> string" where
  "MountPathWithTLS env = (let tlsDir = env ''TLS_MOUNT_DIR'' in if tlsDir \<noteq> [] then tlsDir else ''/tls'')"

definition SysLog :: string where "SysLog = ''/var/log/messages''"

definition tail_lines :: "string \<Rightarrow> int" where
  "tail_lines messageFileLine =
     (if messageFileLine \<noteq> [] then (case Atoi messageFileLine of Inl err \<Rightarrow> 20 | Inr lineNum \<Rightarrow> lineNum) else 20)"

text \<open>The names of the environment variables; three share their names with fields of the configuration.\<close>

abbreviation IssueMessageFile_tag :: string where "IssueMessageFile_tag \<equiv> ''ISSUE_MESSAGE_FILE''"
abbreviation IssueBlockReference_tag :: string where "IssueBlockReference_tag \<equiv> ''ISSUE_BLOCK_REFERENCE''"
abbreviation IssueOrphanedPod_tag :: string where "IssueOrphanedPod_tag \<equiv> ''ISSUE_ORPHANED_POD''"
abbreviation MessageFileLines :: string where "MessageFileLines \<equiv> ''MESSAGE_FILE_LINES''"

definition GlobalConfigSet :: "(string \<Rightarrow> string) \<Rightarrow> ('w, 'z, unit) omprog" where
  "GlobalConfigSet env = State (\<lambda>s. ((), s\<lparr>
     IssueMessageFile := (env IssueMessageFile_tag = ''true''),
     MessageFileTailLines := tail_lines (env MessageFileLines),
     IssueBlockReference := (env IssueBlockReference_tag = ''true''),
     IssueOrphanedPod := (env IssueOrphanedPod_tag = ''true'')\<rparr>))"

section \<open>Reading the log\<close>

text \<open>\<open>Run\<close> and \<open>IsFileExisting\<close> of the package have the same bodies as those of \<open>pkg/utils\<close>.\<close>

definition om_Run :: "'w host \<Rightarrow> string \<Rightarrow> ('w, 'z, goerror + string) prog" where
  "om_Run h cmd = do {
     (out, err) \<leftarrow> CombinedOutput h ''sh'' [''-c'', cmd];
     case err of
       Some e \<Rightarrow> State_Monad.return (Inl (ErrorString (sprintf0 h
         (''Failed to run cmd: '' @ cmd @ '', with out: '' @ out @ '', with error: '' @ Error (quote h) e))))
     | None \<Rightarrow> State_Monad.return (Inr out)
   }"

definition om_IsFileExisting :: "'w host \<Rightarrow> string \<Rightarrow> ('w, 'z, bool) prog" where
  "om_IsFileExisting h filename = do {
     r \<leftarrow> Stat h filename;
     State_Monad.return (case r of Inr _ \<Rightarrow> True | Inl err \<Rightarrow> if IsNotExist err then False else True)
   }"

definition ReadFileLinesFromHost :: "'w host \<Rightarrow> string \<Rightarrow> ('w, 'z, string list) omprog" where
  "ReadFileLinesFromHost h fname = do {
     s \<leftarrow> State_Monad.get;
     r \<leftarrow> om_Run h (''tail -n '' @ show_int (MessageFileTailLines s) @ '' '' @ fname);
     State_Monad.return (case r of Inl err \<Rightarrow> [] | Inr out \<Rightarrow> Split out [CHR 0x0A])
   }"

section \<open>Referenced block devices\<close>

definition parseReferenceMount :: "string \<Rightarrow> string list" where
  "parseReferenceMount line =
     (let strSplit1 = Split line ''is still referenced from other Pods''
      in if length strSplit1 < 2 then []
         else if strSplit1 ! 1 = [] then []
         else if \<not> Contains (strSplit1 ! 1) ''['' \<or> \<not> Contains (strSplit1 ! 1) '']'' then []
         else (let leftSplit = Split (strSplit1 ! 1) ''[''
               in if length leftSplit \<noteq> 2 then []
                  else (let rightSplit = Split (leftSplit ! 1) '']''
                        in if length rightSplit \<noteq> 2 then []
                           else Split (rightSplit ! 0) '' '')))"

definition isFileBlockLink :: "string \<Rightarrow> string \<Rightarrow> bool" where
  "isFileBlockLink root file =
     (if \<not> HasPrefix file (path_Join [root, ''/plugins/kubernetes.io/csi/volumeDevices/'']) then False
      else if \<not> Contains file ''/dev/'' then False
      else True)"

definition isFileRemovable :: "'w host \<Rightarrow> string \<Rightarrow> ('w, 'z, bool \<times> string) prog" where
  "isFileRemovable h file = do {
     (out, err) \<leftarrow> CombinedOutput h ''grep'' [Base file, ''/proc/mounts''];
     State_Monad.return (case err of
         None \<Rightarrow> (let outStr = TrimSpace out in if outStr \<noteq> [] then (False, outStr) else (True, []))
       | Some _ \<Rightarrow> (True, []))
   }"

definition fix_reference :: "'w host \<Rightarrow> string \<Rightarrow> string \<Rightarrow> ('w, 'z, unit) prog" where
  "fix_reference h root file = do {
     ex \<leftarrow> om_IsFileExisting h file;
     if ex then
       (if \<not> isFileBlockLink root file then State_Monad.return ()
        else do {
          (removable, podInfo) \<leftarrow> isFileRemovable h file;
          if \<not> removable then State_Monad.return ()
          else do { err \<leftarrow> Remove h file; State_Monad.return () }
        })
     else State_Monad.return ()
   }"

fun reference_loop :: "'w host \<Rightarrow> string \<Rightarrow> string list \<Rightarrow> ('w, 'z, unit) prog" where
  "reference_loop h root [] = State_Monad.return ()"
| "reference_loop h root (file # files) = do { fix_reference h root file; reference_loop h root files }"

definition FixReferenceMountIssue :: "'w host \<Rightarrow> string \<Rightarrow> string \<Rightarrow> ('w, 'z, bool) prog" where
  "FixReferenceMountIssue h root line =
     (let linkFiles = parseReferenceMount line
      in if linkFiles = [] then State_Monad.return False
         else do { reference_loop h root linkFiles; State_Monad.return True })"

section \<open>Orphaned pods\<close>

definition orphan_uid :: "string \<Rightarrow> string option" where
  "orphan_uid line =
     (let splitStr = Split line ''rphaned pod''
      in if length splitStr < 2 then None
         else (let partStr = Split (splitStr ! 1) [CHR 0x22]
               in if length partStr < 2 then None
                  else if length (Split (partStr ! 1) ''-'') \<noteq> 5 then None
                  else Some (partStr ! 1)))"

text \<open>Unmounting and removing the mount directory, if it exists; false when that fails.\<close>

definition cleanup_mount :: "'w host \<Rightarrow> string \<Rightarrow> ('w, 'z, bool) prog" where
  "cleanup_mount h volumeMountPath = do {
     ex \<leftarrow> IsFileExisting h volumeMountPath;
     if ex then do { err \<leftarrow> CleanupMount h volumeMountPath False; State_Monad.return (err = None) }
     else State_Monad.return True
   }"

definition fix_volume :: "'w host \<Rightarrow> string \<Rightarrow> string \<Rightarrow> ('w, 'z, unit) prog" where
  "fix_volume h csiPodPath name = do {
     let volumePath = path_Join [csiPodPath, name];
     let volumeMountPath = path_Join [volumePath, ''mount''];
     let volumeJSONPath = path_Join [volumePath, ''vol_data.json''];
     cleaned \<leftarrow> cleanup_mount h volumeMountPath;
     if \<not> cleaned then State_Monad.return ()
     else do {
       js \<leftarrow> om_IsFileExisting h volumeJSONPath;
       (if js then do { err \<leftarrow> Remove h volumeJSONPath; State_Monad.return () } else State_Monad.return ());
       (empty, _) \<leftarrow> IsDirEmpty h volumePath;
       (if empty then do { err \<leftarrow> Remove h volumePath; State_Monad.return () } else State_Monad.return ())
     }
   }"

fun volume_loop :: "'w host \<Rightarrow> string \<Rightarrow> string list \<Rightarrow> ('w, 'z, unit) prog" where
  "volume_loop h csiPodPath [] = State_Monad.return ()"
| "volume_loop h csiPodPath (v # vs) = do { fix_volume h csiPodPath v; volume_loop h csiPodPath vs }"

definition csi_pod_path :: "string \<Rightarrow> string \<Rightarrow> string" where
  "csi_pod_path root orphanUID = path_Join [root, ''/pods'', orphanUID, ''volumes/kubernetes.io~csi'']"

definition FixOrphanedPodIssue :: "'w host \<Rightarrow> string \<Rightarrow> string \<Rightarrow> ('w, 'z, bool) omprog" where
  "FixOrphanedPodIssue h root line =
     (case orphan_uid line of
        None \<Rightarrow> State_Monad.return False
      | Some orphanUID \<Rightarrow> do {
          s \<leftarrow> State_Monad.get;
          if FixedPodList s orphanUID = Some ''fixed'' then State_Monad.return True
          else do {
            let csiPodPath = csi_pod_path root orphanUID;
            r \<leftarrow> ReadDir h csiPodPath;
            case r of
              Inl err \<Rightarrow> State_Monad.return False
            | Inr volumes \<Rightarrow> do {
                (if volumes = [] then State (\<lambda>s. ((), s\<lparr>FixedPodList := (FixedPodList s)(orphanUID \<mapsto> ''fixed'')\<rparr>))
                 else State_Monad.return ());
                volume_loop h csiPodPath volumes;
                State_Monad.return True
              }
          }
        })"

section \<open>The loop\<close>

fun issue_loop :: "'w host \<Rightarrow> string \<Rightarrow> string list \<Rightarrow> ('w, 'z, unit) omprog" where
  "issue_loop h root [] = State_Monad.return ()"
| "issue_loop h root (line # lines) = do {
     s \<leftarrow> State_Monad.get;
     (if IssueBlockReference s \<and> Contains line ''is still referenced from other Pods'' then
        do { FixReferenceMountIssue h root line; State_Monad.return () }
      else if IssueOrphanedPod s \<and> Contains line ''rphaned pod'' \<and>
          Contains line ''found, but volume paths are still present on disk'' then
        do { FixOrphanedPodIssue h root line; State_Monad.return () }
      else State_Monad.return ());
     issue_loop h root lines
   }"

definition CheckMessageFileIssue :: "'w host \<Rightarrow> string \<Rightarrow> ('w, 'z, unit) omprog" where
  "CheckMessageFileIssue h root = do {
     lines \<leftarrow> ReadFileLinesFromHost h SysLog;
     issue_loop h root lines
   }"

text \<open>\<open>StorageOM\<close> never returns; \<open>StorageOM n\<close> is its first \<open>n\<close> rounds.\<close>

fun om_rounds :: "'w host \<Rightarrow> string \<Rightarrow> nat \<Rightarrow> ('w, 'z, unit) omprog" where
  "om_rounds h root 0 = State_Monad.return ()"
| "om_rounds h root (Suc n) = do {
     s \<leftarrow> State_Monad.get;
     (if IssueBlockReference s then CheckMessageFileIssue h root else State_Monad.return ());
     om_rounds h root n
   }"

definition StorageOM :: "'w host \<Rightarrow> (string \<Rightarrow> string) \<Rightarrow> nat \<Rightarrow> ('w, 'z, unit) omprog" where
  "StorageOM h env n = do {
     GlobalConfigSet env;
     om_rounds h (KubeletRootDir env) n
   }"

section \<open>Removing links\<close>

text \<open>The answer after which a link is removed: the search of the mount table for its base name has printed nothing, or has failed, whatever it printed.\<close>

fun unshown_ev :: "string \<Rightarrow> event \<Rightarrow> bool" where
  "unshown_ev f (ExecEv p args out err) \<longleftrightarrow> p = ''grep'' \<and> args = [Base f, ''/proc/mounts''] \<and>
     (err \<noteq> None \<or> TrimSpace out = [])"
| "unshown_ev f _ = False"

text \<open>\<open>directly bad ok p es\<close>: every bad event directly follows one that is ok; \<open>p\<close> says whether such a one comes directly before all of \<open>es\<close>.\<close>

fun directly :: "(event \<Rightarrow> bool) \<Rightarrow> (event \<Rightarrow> bool) \<Rightarrow> bool \<Rightarrow> event list \<Rightarrow> bool" where
  "directly bad ok p [] = True"
| "directly bad ok p (e # es) = ((bad e \<longrightarrow> p) \<and> directly bad ok (ok e) es)"

lemma directly_mono: "directly bad ok False es \<Longrightarrow> directly bad ok p es"
  by (cases es) auto

lemma directly_append: "directly bad ok p xs \<Longrightarrow> directly bad ok False ys \<Longrightarrow> directly bad ok p (xs @ ys)"
  by (induction xs arbitrary: p) (auto intro: directly_mono)

definition removes :: "string \<Rightarrow> event \<Rightarrow> bool" where
  "removes f e \<longleftrightarrow> (\<exists>r. e = RemoveEv f r)"

lemma removes_simps [simp]:
  "removes f (RemoveEv g r) \<longleftrightarrow> f = g" "\<not> removes f (ExecEv c a out err)" "\<not> removes f (StatEv p x)"
  "\<not> removes f (ReadDirEv p l)" "\<not> removes f (OpenEv p err)" "\<not> removes f (CloseEv p err)"
  "\<not> removes f (ReaddirEv p err)" "\<not> removes f (CleanupMountPointEv p err)"
  by (auto simp: removes_def)

lemma only_om_IsFileExisting [trace_rules]: "(\<And>r. P (StatEv p r)) \<Longrightarrow> only P (om_IsFileExisting h p)"
  unfolding om_IsFileExisting_def by (intro trace_rules) auto

lemma guards_om_IsFileExisting [trace_rules]: "(\<And>r. \<not> bad (StatEv p r)) \<Longrightarrow> guards bad ok (om_IsFileExisting h p)"
  by (rule guards_of_only) (rule only_om_IsFileExisting)

lemma fix_reference_directly:
  "produces (fix_reference h root g) (\<lambda>_ es. directly (removes f) (unshown_ev f) False es)"
proof -
  have ex: "produces (om_IsFileExisting h g) (\<lambda>r es. \<exists>x. es = [StatEv g x])" for h :: "'a host"
    unfolding om_IsFileExisting_def host_call_defs by (intro produce_rules) auto
  have rm: "produces (isFileRemovable h g) (\<lambda>r es. \<exists>e. es = [e] \<and> \<not> removes f e \<and> (fst r \<longrightarrow> unshown_ev g e))" for h :: "'a host"
    unfolding isFileRemovable_def host_call_defs Let_def by (intro produce_rules) (auto split: option.splits)
  show ?thesis
    unfolding fix_reference_def
    by (rule produces_bind [OF ex], intro produce_rules)
       (auto simp: host_call_defs intro!: produces_bind [OF rm] produce_rules)
qed

lemma reference_loop_directly:
  "produces (reference_loop h root files) (\<lambda>_ es. directly (removes f) (unshown_ev f) False es)"
proof (induction files)
  case (Cons g files)
  show ?case
    unfolding reference_loop.simps
    by (rule produces_bind [OF fix_reference_directly], rule produces_weaken [OF Cons.IH]) (rule directly_append)
qed (auto intro!: produce_rules)

text \<open>The calls that repair the links \<open>files\<close>: looking for one of them, searching the mount table for it, and removing it if it is a block link.\<close>

fun link_call :: "string \<Rightarrow> string list \<Rightarrow> event \<Rightarrow> bool" where
  "link_call root files (StatEv f r) = (f \<in> set files)"
| "link_call root files (ExecEv p args out err) = (\<exists>f \<in> set files. p = ''grep'' \<and> args = [Base f, ''/proc/mounts''])"
| "link_call root files (RemoveEv f r) = (f \<in> set files \<and> isFileBlockLink root f)"
| "link_call root files _ = False"

lemma fix_reference_calls: "g \<in> set files \<Longrightarrow> only (link_call root files) (fix_reference h root g)"
  unfolding fix_reference_def isFileRemovable_def by (intro trace_rules) auto

lemma reference_loop_calls: "set gs \<subseteq> set files \<Longrightarrow> only (link_call root files) (reference_loop h root gs)"
  by (induction gs) (auto intro!: trace_rules fix_reference_calls)

section \<open>Cleaning the volumes of a pod\<close>

text \<open>The mount directory of a volume is gone, or has been unmounted and removed.\<close>

fun cleaned_ev :: "string \<Rightarrow> event \<Rightarrow> bool" where
  "cleaned_ev p (StatEv q (Inl err)) \<longleftrightarrow> p = q \<and> IsNotExist err"
| "cleaned_ev p (CleanupMountPointEv q None) \<longleftrightarrow> p = q"
| "cleaned_ev p _ = False"

text \<open>
  The calls that clean the volume directory \<open>v\<close> of the CSI directory \<open>csi\<close>: unmounting and removing its mount directory, removing its
  \<open>vol_data.json\<close> and itself, and queries.
\<close>

fun volume_call :: "string \<Rightarrow> string \<Rightarrow> event \<Rightarrow> bool" where
  "volume_call csi v (CleanupMountPointEv f r) = (f = path_Join [path_Join [csi, v], ''mount''])"
| "volume_call csi v (RemoveEv f r) = (f = path_Join [path_Join [csi, v], ''vol_data.json''] \<or> f = path_Join [csi, v])"
| "volume_call csi v (StatEv f r) = True"
| "volume_call csi v (OpenEv f r) = True"
| "volume_call csi v (ReaddirEv f r) = True"
| "volume_call csi v (CloseEv f r) = True"
| "volume_call csi v _ = False"

lemma fix_volume_calls: "only (volume_call csi v) (fix_volume h csi v)"
  unfolding fix_volume_def cleanup_mount_def IsFileExisting_def IsDirEmpty_def Let_def by (intro trace_rules) auto

lemma volume_loop_calls:
  "set vs \<subseteq> set us \<Longrightarrow> only (\<lambda>e. \<exists>v \<in> set us. volume_call csi v e) (volume_loop h csi vs)"
  by (induction vs) (auto intro!: trace_rules intro: only_mono [OF fix_volume_calls])

lemma produces_IsFileExisting_bind [produce_rules]:
  assumes "\<And>r. (case r of Inr _ \<Rightarrow> True | Inl err \<Rightarrow> \<not> IsNotExist err) \<Longrightarrow> produces (f True) (\<lambda>b es. Q b (StatEv p r # es))"
    and "\<And>err. IsNotExist err \<Longrightarrow> produces (f False) (\<lambda>b es. Q b (StatEv p (Inl err) # es))"
  shows "produces (State_Monad.bind (IsFileExisting h p) f) Q"
proof (rule produces_bind)
  show "produces (IsFileExisting h p) (\<lambda>b es.
      (\<exists>r. es = [StatEv p r] \<and> b = True \<and> (case r of Inr _ \<Rightarrow> True | Inl err \<Rightarrow> \<not> IsNotExist err)) \<or>
      (\<exists>err. es = [StatEv p (Inl err)] \<and> b = False \<and> IsNotExist err))"
    unfolding IsFileExisting_def host_call_defs by (intro produce_rules) (auto split: sum.split)
qed (use assms in auto)

lemma cleanup_mount_shows:
  "produces (cleanup_mount h p) (\<lambda>r es. list_all (\<lambda>e. \<not> is_remove e) es \<and> (r \<longrightarrow> list_ex (cleaned_ev p) es))"
  unfolding cleanup_mount_def host_call_defs by (intro produce_rules) auto

lemma cleanup_mount_only: "only (\<lambda>e. \<not> is_remove e) (cleanup_mount h p)"
  unfolding only_def by (rule produces_weaken [OF cleanup_mount_shows]) simp

lemma fix_volume_unmounted:
  "guards is_remove (cleaned_ev (path_Join [path_Join [csi, v], ''mount''])) (fix_volume h csi v)"
  unfolding fix_volume_def Let_def
  by (rule guards_test [OF cleanup_mount_shows]; intro trace_rules) (auto simp: IsDirEmpty_def intro!: trace_rules)

lemma fix_volume_empty:
  fixes csi v :: string
  defines "vp \<equiv> path_Join [csi, v]"
  shows "guards (\<lambda>e. removes vp e \<and> vp \<noteq> path_Join [vp, ''vol_data.json'']) (empty_dir_ev vp) (fix_volume h csi v)"
proof -
  have dir: "produces (IsDirEmpty h vp) (\<lambda>r es. list_all (\<lambda>e. \<not> (removes vp e \<and> vp \<noteq> path_Join [vp, ''vol_data.json''])) es \<and>
     (fst r \<longrightarrow> list_ex (empty_dir_ev vp) es))" for h :: "'a host"
    unfolding IsDirEmpty_def host_call_defs by (intro produce_rules) auto
  have test: "guards (\<lambda>e. removes vp e \<and> vp \<noteq> path_Join [vp, ''vol_data.json'']) (empty_dir_ev vp) (do {
      (empty, _) \<leftarrow> IsDirEmpty h vp;
      (if empty then do { err \<leftarrow> Remove h vp; State_Monad.return () } else State_Monad.return ()) })" for h :: "'a host"
    by (rule guards_test [OF dir]; intro trace_rules) auto
  have clean: "guards (\<lambda>e. removes vp e \<and> vp \<noteq> path_Join [vp, ''vol_data.json'']) ok (cleanup_mount h p)" for ok p and h :: "'a host"
    by (rule guards_of_only, rule only_mono [OF cleanup_mount_only]) (auto simp: removes_def)
  show ?thesis
    unfolding fix_volume_def Let_def vp_def [symmetric]
    by (intro trace_rules test clean) (auto simp: removes_def)
qed

lemma in_set_Join: "c \<in> set (Join xs sep) \<Longrightarrow> c \<in> set sep \<or> (\<exists>x \<in> set xs. c \<in> set x)"
  by (induction xs sep rule: Join.induct) auto

definition mark_fixed :: "string \<Rightarrow> ('w, 'z, unit) omprog" where
  "mark_fixed uid = State (\<lambda>s. ((), s\<lparr>FixedPodList := (FixedPodList s)(uid \<mapsto> ''fixed'')\<rparr>))"

lemma mark_fixed_only [trace_rules]: "only P (mark_fixed uid)"
  unfolding only_def by (rule producesI) (auto simp: mark_fixed_def)

text \<open>A run of the repair of orphaned pods: nothing, or a listing of the CSI directory and then calls for the volumes listed.\<close>

definition pod_run :: "string \<Rightarrow> event list \<Rightarrow> bool" where
  "pod_run csi es \<longleftrightarrow> es = [] \<or> (\<exists>r rest. es = ReadDirEv csi r # rest \<and>
     (case r of Inl _ \<Rightarrow> rest = [] | Inr vs \<Rightarrow> list_all (\<lambda>e. \<exists>v \<in> set vs. volume_call csi v e) rest))"

lemma orphan_fix_run:
  assumes "orphan_uid line = Some uid"
  shows "produces (FixOrphanedPodIssue h root line) (\<lambda>r es. pod_run (csi_pod_path root uid) es)"
proof -
  have clean: "only (\<lambda>e. \<exists>v \<in> set vs. volume_call csi v e)
      (do { (if vs = [] then mark_fixed uid else State_Monad.return ()); volume_loop h csi vs; State_Monad.return True })"
    for vs csi and h :: "'a host"
    by (intro trace_rules volume_loop_calls) simp_all
  show ?thesis
    unfolding FixOrphanedPodIssue_def assms option.case mark_fixed_def [symmetric] Let_def host_call_defs
    by (intro produces_get produce_rules produces_weaken [OF produces_of_only [OF clean]]) (auto simp: pod_run_def)
qed

section \<open>Theorems\<close>

text \<open>
  C21: \<open>FixReferenceMountIssue\<close> makes no calls but to look for the files that the log line lists, to search the mount table for their base names and to
  remove them. It removes only files that pass \<open>isFileBlockLink\<close>, and each of
  them directly after a search of the mount table for its base name that printed nothing or failed: a failed search counts as an unused link
  (see \<open>reference_fix_failed_check\<close>), a search that printed a line keeps it.
\<close>

theorem reference_fix_safe:
  "list_all (link_call root (parseReferenceMount line)) (new_events (FixReferenceMountIssue h root line) s) \<and>
   directly (removes f) (unshown_ev f) False (new_events (FixReferenceMountIssue h root line) s)"
proof -
  have "only (link_call root (parseReferenceMount line)) (FixReferenceMountIssue h root line)"
    unfolding FixReferenceMountIssue_def Let_def by (intro trace_rules reference_loop_calls) simp
  moreover have "produces (FixReferenceMountIssue h root line) (\<lambda>_ es. directly (removes f) (unshown_ev f) False es)"
    unfolding FixReferenceMountIssue_def Let_def
    by (intro produce_rules) (auto intro!: produces_bind [OF reference_loop_directly] produce_rules)
  ultimately show ?thesis using only_new produces_new by blast
qed

text \<open>A failing search removes the link: when \<open>grep\<close> cannot be run, say, or the mount table cannot be read, a link in use is removed.\<close>

theorem reference_fix_failed_check:
  assumes "os_stat h f (world s) = (Inr fi, w1)" and "isFileBlockLink root f"
    and "exec_combined h ''grep'' [Base f, ''/proc/mounts''] w1 = ((out, Some e), w2)"
  shows "\<exists>r. new_events (fix_reference h root f) s = [StatEv f (Inr fi), ExecEv ''grep'' [Base f, ''/proc/mounts''] out (Some e), RemoveEv f r]"
  using assms by (simp add: new_events_def fix_reference_def om_IsFileExisting_def isFileRemovable_def host_call_defs split: prod.split)

text \<open>
  The test for block links does not stop a path from leaving the directory: a name with dot-dot elements passes
  it and denotes a file elsewhere, which the fix would remove if the log names it.
\<close>

theorem block_link_escapes:
  "isFileBlockLink ''/var/lib/kubelet'' ''/var/lib/kubelet/plugins/kubernetes.io/csi/volumeDevices/../../dev/x'' \<and>
   Clean ''/var/lib/kubelet/plugins/kubernetes.io/csi/volumeDevices/../../dev/x'' =
     ''/var/lib/kubelet/plugins/kubernetes.io/dev/x''"
  by (simp add: isFileBlockLink_def path_eval HasPrefix_def)

text \<open>
  A log line that lists files in brackets after "is still referenced from other Pods" is parsed to exactly these
  files, for file names without blanks and brackets and other text without brackets and without a second
  occurrence of the phrase.
\<close>

theorem reference_line_parsed:
  assumes "Split line ''is still referenced from other Pods'' = [a, b @ ''['' @ Join files '' '' @ '']'' @ c]"
    and "files \<noteq> []" and "\<forall>f \<in> set files. set f \<inter> {CHR '' '', CHR ''['', CHR '']''} = {}"
    and "set b \<inter> {CHR ''['', CHR '']''} = {}" and "set c \<inter> {CHR ''['', CHR '']''} = {}"
  shows "parseReferenceMount line = files"
proof -
  have j: "set (Join files '' '') \<inter> {CHR ''['', CHR '']''} = {}"
    using assms(3) by (auto dest!: in_set_Join)
  have "Split (b @ ''['' @ Join files '' '' @ '']'' @ c) ''['' = [b, Join files '' '' @ '']'' @ c]"
    using assms(4,5) j by (simp add: Split_char_append Split_char_none)
  moreover have "Split (Join files '' '' @ '']'' @ c) '']'' = [Join files '' '', c]"
    using assms(5) j by (simp add: Split_char_append Split_char_none)
  moreover have "Split (Join files '' '') '' '' = files"
    using assms(2,3) by (intro Split_Join_char) auto
  ultimately show ?thesis
    using assms(1) by (simp add: parseReferenceMount_def Contains_single)
qed

theorem reference_line_parsed_witness:
  "parseReferenceMount ''dev is still referenced from other Pods [/a /b]'' = [''/a'', ''/b'']"
proof -
  have "Split ''dev is still referenced from other Pods [/a /b]'' ''is still referenced from other Pods'' =
      [''dev '', '' '' @ ''['' @ Join [''/a'', ''/b''] '' '' @ '']'' @ []]"
    by (simp add: Split.simps)
  then show ?thesis by (rule reference_line_parsed) simp_all
qed

text \<open>
  C27: Cleaning a volume of an orphaned pod deletes nothing unless the volume's mount directory is gone or has just
  been unmounted and removed, and deletes the volume directory only after a read has shown it empty.
\<close>

theorem orphan_volume_safe:
  "guarded is_remove (cleaned_ev (path_Join [path_Join [csi, v], ''mount''])) (new_events (fix_volume h csi v) s) \<and>
   guarded (\<lambda>e. removes (path_Join [csi, v]) e \<and> path_Join [csi, v] \<noteq> path_Join [path_Join [csi, v], ''vol_data.json''])
     (empty_dir_ev (path_Join [csi, v])) (new_events (fix_volume h csi v) s)"
  using guards_new [OF fix_volume_unmounted] guards_new [OF fix_volume_empty] by blast

text \<open>
  C28: \<open>FixOrphanedPodIssue\<close> does nothing for a line without a pod id of five parts. Otherwise it makes no calls at all (the pod is recorded as fixed), or it lists
  the CSI directory computed from that id, and all it does after that is, for names that the listing has returned: unmount and remove the directory
  \<open>mount\<close> of that volume, remove its \<open>vol_data.json\<close> and its directory, and ask whether these exist or are empty. When the listing fails it does nothing more.
  (The id comes from the log line and may hold dot-dot elements, see \<open>orphan_path_escapes\<close>.)
\<close>

theorem orphan_fix_scope:
  "case orphan_uid line of
     None \<Rightarrow> run_state (FixOrphanedPodIssue h root line) s = (False, s)
   | Some uid \<Rightarrow> pod_run (csi_pod_path root uid) (new_events (FixOrphanedPodIssue h root line) s)"
proof (cases "orphan_uid line")
  case None
  then show ?thesis by (simp add: FixOrphanedPodIssue_def)
next
  case (Some uid)
  then show ?thesis using produces_new [OF orphan_fix_run [OF Some]] by simp
qed

text \<open>The id is only tested for its five parts: one with dot-dot elements leads out of the directory of the pods.\<close>

theorem orphan_path_escapes:
  "orphan_uid (''orphaned pod '' @ [CHR 0x22] @ ''../../x/a-b-c-d-e'' @ [CHR 0x22] @ '' found'') = Some ''../../x/a-b-c-d-e'' \<and>
   csi_pod_path ''/var/lib/kubelet'' ''../../x/a-b-c-d-e'' = ''/var/lib/x/a-b-c-d-e/volumes/kubernetes.io~csi''"
  by (simp add: orphan_uid_def csi_pod_path_def path_eval Split.simps)

definition om_start :: "unit omState" where
  "om_start = \<lparr>world = (), events = [], IssueMessageFile = False, MessageFileTailLines = 0,
     IssueBlockReference = False, IssueOrphanedPod = False, FixedPodList = Map.empty\<rparr>"

definition orphan_host :: "unit host" where
  "orphan_host = quiet_host\<lparr>read_dir := (\<lambda>p w. (Inr [''v''], w)), os_readdir1 := (\<lambda>p w. (Some (SysError EEOF ''EOF''), w))\<rparr>"

definition orphan_line :: string where
  "orphan_line = ''orphaned pod '' @ [CHR 0x22] @ ''a-b-c-d-e'' @ [CHR 0x22] @ '' found''"

lemma orphan_line_uid: "orphan_uid orphan_line = Some ''a-b-c-d-e''"
  by (simp add: orphan_uid_def orphan_line_def Split.simps)

theorem orphan_fix_scope_witness:
  "list_ex (removes ''/k/pods/a-b-c-d-e/volumes/kubernetes.io~csi/v'') (new_events (FixOrphanedPodIssue orphan_host ''/k'' orphan_line) om_start) \<and>
   pod_run (csi_pod_path ''/k'' ''a-b-c-d-e'') (new_events (FixOrphanedPodIssue orphan_host ''/k'' orphan_line) om_start)"
proof -
  have "csi_pod_path ''/k'' ''a-b-c-d-e'' = ''/k/pods/a-b-c-d-e/volumes/kubernetes.io~csi''"
    "path_Join [''/k/pods/a-b-c-d-e/volumes/kubernetes.io~csi'', ''v''] = ''/k/pods/a-b-c-d-e/volumes/kubernetes.io~csi/v''"
    by (simp_all add: csi_pod_path_def path_eval)
  then have r: "list_ex (removes ''/k/pods/a-b-c-d-e/volumes/kubernetes.io~csi/v'') (new_events (FixOrphanedPodIssue orphan_host ''/k'' orphan_line) om_start)"
    by (simp add: new_events_def FixOrphanedPodIssue_def orphan_line_uid om_start_def State_Monad.get_def fix_volume_def
        cleanup_mount_def IsFileExisting_def om_IsFileExisting_def IsDirEmpty_def host_call_defs orphan_host_def sample_defs is_EOF_def Let_def)
  then show ?thesis
    using orphan_fix_scope [of orphan_host "''/k''" orphan_line om_start] unfolding orphan_line_uid option.case by blast
qed

text \<open>
  The maintenance loop does nothing at all, for any number of rounds, unless the variable for block references is
  set to true: also the repair of orphaned pods, which has a variable of its own, then never runs.
\<close>

theorem om_needs_block_reference:
  assumes "env ''ISSUE_BLOCK_REFERENCE'' \<noteq> ''true''"
  shows "new_events (StorageOM h env n) s = []"
proof -
  have idle: "\<not> IssueBlockReference s \<Longrightarrow> run_state (om_rounds h root n) s = ((), s)" for s :: "('a, 'b) omState_scheme" and root
    by (induction n) (simp_all add: State_Monad.get_def)
  show ?thesis
    using assms by (simp add: new_events_def StorageOM_def GlobalConfigSet_def idle)
qed

theorem om_needs_block_reference_witness:
  "new_events (StorageOM orphan_host (\<lambda>v. if v = ''ISSUE_ORPHANED_POD'' then ''true'' else []) 7) om_start = []"
  by (rule om_needs_block_reference) simp

end
