(* ===== verification/Driver_Flags.thy ===== *)
theory Driver_Flags
  imports Go_Strings
begin

text \<open>
  The command line of the driver: the flags that \<open>cmd/driver/main.go\<close> and \<open>pkg/utils/options.go\<close> define, with their default
  values, and \<open>flag.Parse\<close> of the Go library. Flags of other linked packages are the argument \<open>other\<close>: for a name, whether
  the flag is boolean and which values it accepts; their values do not matter here.
\<close>

section \<open>Flags\<close>

record Flags =
  f_endpoint :: string
  f_nodeID :: string
  f_driver :: string
  f_rootDir :: string
  f_Kubeconfig :: string
  f_MasterURL :: string

definition TypePluginLocal :: string where "TypePluginLocal = ''local.csi.kubeservice.cn''"

definition default_flags :: Flags where
  "default_flags = \<lparr>f_endpoint = ''unix://tmp/csi.sock'', f_nodeID = [], f_driver = TypePluginLocal,
     f_rootDir = ''/var/lib/kubelet/csi-plugins'', f_Kubeconfig = [], f_MasterURL = []\<rparr>"

definition set_flag :: "string \<Rightarrow> string \<Rightarrow> Flags \<Rightarrow> Flags option" where
  "set_flag name v f =
     (if name = ''endpoint'' then Some (f\<lparr>f_endpoint := v\<rparr>)
      else if name = ''nodeid'' then Some (f\<lparr>f_nodeID := v\<rparr>)
      else if name = ''driver'' then Some (f\<lparr>f_driver := v\<rparr>)
      else if name = ''rootdir'' then Some (f\<lparr>f_rootDir := v\<rparr>)
      else if name = ''kubeconfig'' then Some (f\<lparr>f_Kubeconfig := v\<rparr>)
      else if name = ''master-url'' then Some (f\<lparr>f_MasterURL := v\<rparr>)
      else None)"

section \<open>Parsing\<close>

text \<open>The values of the flags and the other arguments, a request for help, or a faulty command line (exit status 2).\<close>

datatype flag_result = FlagsOk Flags "string list" | FlagHelp | FlagBad

record other_flag =
  is_bool :: bool
  accepts :: "string \<Rightarrow> bool"

text \<open>The name and the value behind an equals sign, which is not the first character.\<close>

definition split_flag :: "string \<Rightarrow> string \<times> string option" where
  "split_flag s = (case s of [] \<Rightarrow> ([], None) | c # t \<Rightarrow>
     (case Cut t ''='' of None \<Rightarrow> (s, None) | Some (a, b) \<Rightarrow> (c # a, Some b)))"

fun parse_flags :: "(string \<Rightarrow> other_flag option) \<Rightarrow> Flags \<Rightarrow> string list \<Rightarrow> flag_result" where
  "parse_flags other f [] = FlagsOk f []"
| "parse_flags other f (s # args) =
     (if length s < 2 \<or> hd s \<noteq> CHR ''-'' then FlagsOk f (s # args)
      else if s = ''--'' then FlagsOk f args
      else (let body = (if s ! 1 = CHR ''-'' then drop 2 s else drop 1 s)
            in if body = [] \<or> hd body = CHR ''-'' \<or> hd body = CHR ''='' then FlagBad
               else (let name = fst (split_flag body); val = snd (split_flag body)
                     in (case set_flag name [] f of
                           Some _ \<Rightarrow>
                             (case val of
                                Some v \<Rightarrow> parse_flags other (the (set_flag name v f)) args
                              | None \<Rightarrow>
                                  (case args of
                                     [] \<Rightarrow> FlagBad
                                   | v # args' \<Rightarrow> parse_flags other (the (set_flag name v f)) args'))
                         | None \<Rightarrow>
                             (case other name of
                                None \<Rightarrow>
                                  if name = ''help'' \<or> name = ''h'' then FlagHelp
                                  else FlagBad
                              | Some o_flag \<Rightarrow>
                                  if is_bool o_flag then
                                    (if accepts o_flag (case val of None \<Rightarrow> ''true'' | Some v \<Rightarrow> v) then parse_flags other f args
                                     else FlagBad)
                                  else
                                    (case val of
                                       Some v \<Rightarrow>
                                         if accepts o_flag v then parse_flags other f args
                                         else FlagBad
                                     | None \<Rightarrow>
                                         (case args of
                                            [] \<Rightarrow> FlagBad
                                          | v # args' \<Rightarrow>
                                              if accepts o_flag v then parse_flags other f args'
                                              else FlagBad)))))))"

declare parse_flags.simps(2) [simp del]

section \<open>Command lines\<close>

text \<open>The ways to write a flag with its value: one or two minus signs, joined by an equals sign or as two arguments.\<close>

datatype flag_style = Joined bool | Separate bool

definition own_flags :: "string list" where
  "own_flags = [''endpoint'', ''nodeid'', ''driver'', ''rootdir'', ''kubeconfig'', ''master-url'']"

fun write_flag :: "flag_style \<times> string \<times> string \<Rightarrow> string list" where
  "write_flag (Joined two, n, v) = [(if two then ''--'' else ''-'') @ n @ ''='' @ v]"
| "write_flag (Separate two, n, v) = [(if two then ''--'' else ''-'') @ n, v]"

lemma own_set: "n \<in> set own_flags \<Longrightarrow> \<exists>f'. set_flag n v f = Some f'"
  by (auto simp: own_flags_def set_flag_def)

lemma own_name:
  assumes "n \<in> set own_flags"
  shows "n \<noteq> []" "hd n \<noteq> CHR ''-''" "hd n \<noteq> CHR ''=''" "split_flag n = (n, None)" "split_flag (n @ ''='' @ v) = (n, Some v)"
  using assms by (auto simp: own_flags_def split_flag_def)

lemma parse_own:
  assumes "n \<in> set own_flags"
  shows "parse_flags other f (write_flag (st, n, v) @ args) = parse_flags other (the (set_flag n v f)) args"
proof -
  obtain g where g: "set_flag n [] f = Some g" using own_set [OF assms] by blast
  note sp = own_name(4,5) [OF assms]
  obtain c t where n: "n = c # t" "c \<noteq> CHR ''-''" "c \<noteq> CHR ''=''" using own_name(1-3) [OF assms] by (cases n) auto
  show ?thesis
  proof (cases st)
    case (Joined two)
    with g sp n show ?thesis
      by (cases two) (simp_all add: parse_flags.simps(2) Let_def)
  next
    case (Separate two)
    with g sp n show ?thesis by (cases two) (simp_all add: parse_flags.simps(2) Let_def)
  qed
qed

text \<open>
  A command line that sets flags of the driver, in any of the accepted ways of writing them and in any order, gives each
  flag the value set last, and the others their defaults.
\<close>

theorem flags_last_wins:
  assumes "list_all (\<lambda>(st, n, v). n \<in> set own_flags) fs"
  shows "parse_flags other f (concat (map write_flag fs)) = FlagsOk (fold (\<lambda>(st, n, v) f. the (set_flag n v f)) fs f) []"
  using assms by (induction fs arbitrary: f) (auto simp: parse_own)

theorem flags_last_wins_witness:
  "parse_flags (\<lambda>_. None) default_flags [''--nodeid=a'', ''-nodeid'', ''b''] = FlagsOk (default_flags\<lparr>f_nodeID := ''b''\<rparr>) []"
  using flags_last_wins [of "[(Joined True, ''nodeid'', ''a''), (Separate False, ''nodeid'', ''b'')]" "\<lambda>_. None" default_flags]
  by (simp add: own_flags_def set_flag_def default_flags_def)

end
