(* ===== verification/Driver_Main.thy ===== *)
theory Driver_Main
  imports Om Lvm_Driver Driver_Flags
begin

text \<open>
  \<open>cmd/driver/main.go\<close>: the start of the process up to the point where the servers run. The environment is the
  argument \<open>env\<close>; the size of the open log file and the time stamp are arguments as well. The
  goroutines (one driver per name, the maintenance loop) and the HTTP server are what the result of
  \<open>main_start\<close> lists; their code is modelled in the other theories.
\<close>

definition LogfilePrefix :: string where "LogfilePrefix = ''/var/log/ecloud/''"
definition MBSIZE :: int where "MBSIZE = 1024 * 1024"
definition TypePluginSuffix :: string where "TypePluginSuffix = ''plugin.csi.kubeservice.cn''"
definition PluginServicePort :: string where "PluginServicePort = ''12260''"
definition ProvisionerServicePort :: string where "ProvisionerServicePort = ''12270''"
definition PluginService :: string where "PluginService = ''local''"
definition ProvisionerService :: string where "ProvisionerService = ''provisioner''"

text \<open>How the start ends: with a fatal message, with an exit code, or with running servers.\<close>

record servers =
  srv_endpoints :: "string list"
  srv_port :: string

datatype startup = Fatal string | Exit int | Running servers

abbreviation ServiceType :: string where "ServiceType \<equiv> ''SERVICE_TYPE''"

definition service_type :: "(string \<Rightarrow> string) \<Rightarrow> string" where
  "service_type env = (let serviceType = env ServiceType in if serviceType = [] then PluginService else serviceType)"

definition log_attribute :: "string \<Rightarrow> string" where
  "log_attribute serviceType =
     (if serviceType = ProvisionerService then ReplaceAll TypePluginSuffix PluginService ProvisionerService
      else if serviceType = PluginService then TypePluginSuffix
      else [])"

definition service_port :: "(string \<Rightarrow> string) \<Rightarrow> string \<Rightarrow> string" where
  "service_port env serviceType =
     (let servicePort = env ''SERVICE_PORT''
      in if servicePort = [] then
           (if serviceType = PluginService then PluginServicePort
            else if serviceType = ProvisionerService then ProvisionerServicePort
            else servicePort)
         else servicePort)"

text \<open>
  \<open>strings.ToLower\<close>, on ASCII letters: other characters never turn into a letter of \<open>stdout\<close> or \<open>host\<close>.
\<close>

definition log_type :: "string \<Rightarrow> string" where
  "log_type t = (let logType = map to_lower t
     in if logType \<noteq> ''stdout'' \<and> logType \<noteq> ''host'' then ''both'' else logType)"

text \<open>\<open>setLogAttribute\<close>; true stands for \<open>os.Exit(1)\<close>. \<open>fsize\<close> is \<open>f.Stat()\<close> with \<open>Size()\<close>.\<close>

definition setLogAttribute ::
  "'w host \<Rightarrow> (string \<Rightarrow> string) \<Rightarrow> (goerror + int) \<Rightarrow> string \<Rightarrow> string \<Rightarrow> ('w, 'z, bool) prog" where
  "setLogAttribute h env fsize timeStr driver =
     (let logType = log_type (env ''LOG_TYPE'')
      in if logType = ''stdout'' then State_Monad.return False
         else do {
           MkdirAll h LogfilePrefix 493;
           let logFile = LogfilePrefix @ driver @ ''.log'';
           o1 \<leftarrow> OpenFile h logFile ''O_RDWR|O_CREATE|O_APPEND'' 438;
           case o1 of
             Some err \<Rightarrow> State_Monad.return True
           | None \<Rightarrow>
               if (case fsize of Inl _ \<Rightarrow> False | Inr sz \<Rightarrow> sz > 2 * MBSIZE) then do {
                 Close h logFile;
                 let timedLogfile = LogfilePrefix @ driver @ timeStr @ ''.log'';
                 Rename h logFile timedLogfile;
                 o2 \<leftarrow> OpenFile h logFile ''O_RDWR|O_CREATE|O_APPEND'' 438;
                 State_Monad.return (o2 \<noteq> None)
               }
               else State_Monad.return False
         })"

definition createPersistentStorage :: "'w host \<Rightarrow> string \<Rightarrow> ('w, 'z, goerror option) prog" where
  "createPersistentStorage h persistentStoragePath = MkdirAll h persistentStoragePath 493"

text \<open>The loop over the driver names; the result lists the endpoints of the drivers it starts.\<close>

fun driver_loop :: "'w host \<Rightarrow> string \<Rightarrow> string \<Rightarrow> string list \<Rightarrow> string list \<Rightarrow> ('w, 'z, int + string list) prog" where
  "driver_loop h root endPoint [] started = State_Monad.return (Inr started)"
| "driver_loop h root endPoint (name # names) started = do {
     e1 \<leftarrow> createPersistentStorage h (path_Join [root, ''/csi-plugins'', name, ''controller'']);
     case e1 of
       Some err \<Rightarrow> State_Monad.return (Inl 1)
     | None \<Rightarrow> do {
         e2 \<leftarrow> createPersistentStorage h (path_Join [root, ''/csi-plugins'', name, ''node'']);
         case e2 of
           Some err \<Rightarrow> State_Monad.return (Inl 1)
         | None \<Rightarrow> driver_loop h root endPoint names (started @ [endPoint])
       }
   }"

definition main_start ::
  "'w host \<Rightarrow> (string \<Rightarrow> string) \<Rightarrow> (goerror + int) \<Rightarrow> string \<Rightarrow> string \<Rightarrow> string \<Rightarrow> ('w, 'z, startup) prog" where
  "main_start h env fsize timeStr driver endpoint =
     (let serviceType = service_type env
      in if serviceType \<noteq> PluginService \<and> serviceType \<noteq> ProvisionerService then
           State_Monad.return (Fatal (''Service type is unknown:'' @ serviceType))
         else do {
           ex \<leftarrow> setLogAttribute h env fsize timeStr (log_attribute serviceType);
           if ex then State_Monad.return (Exit 1)
           else do {
             r \<leftarrow> driver_loop h (KubeletRootDir env) endpoint (Split driver '','') [];
             case r of
               Inl code \<Rightarrow> State_Monad.return (Exit code)
             | Inr started \<Rightarrow> State_Monad.return (Running \<lparr>srv_endpoints = started, srv_port = service_port env serviceType\<rparr>)
           }
         })"

text \<open>
  The whole of \<open>main\<close>: the command line, then the start. \<open>flag.Parse\<close> ends the process with status 0 for help and with
  status 2 for a faulty command line.
\<close>

definition main_prog ::
  "'w host \<Rightarrow> (string \<Rightarrow> other_flag option) \<Rightarrow> string list \<Rightarrow> (string \<Rightarrow> string) \<Rightarrow> (goerror + int) \<Rightarrow> string \<Rightarrow> ('w, 'z, startup) prog" where
  "main_prog h other args env fsize timeStr = (case parse_flags other default_flags args of
     FlagHelp \<Rightarrow> State_Monad.return (Exit 0)
   | FlagBad \<Rightarrow> State_Monad.return (Exit 2)
   | FlagsOk f _ \<Rightarrow> main_start h env fsize timeStr (f_driver f) (f_endpoint f))"

text \<open>The answer of \<open>/healthz\<close>: the status and the body; \<open>now\<close> is the text of the time.\<close>

definition healthHandler :: "string \<Rightarrow> nat \<times> string" where
  "healthHandler now = (200, ''Liveness probe is OK, time:'' @ now)"

section \<open>Behaviour\<close>

lemma driver_loop_endpoints:
  fixes h :: "'w host"
  shows "produces (driver_loop h root ep names started :: ('w, 'z, int + string list) prog) (\<lambda>r es. (\<forall>l. r = Inr l \<longrightarrow> l = started @ replicate (length names) ep) \<and>
     (\<forall>c. r = Inl c \<longrightarrow> c = 1))"
proof (induction names arbitrary: started)
  case Nil
  show ?case by (auto intro: produce_rules)
next
  case (Cons n names)
  have "produces (driver_loop h root ep names (started @ [ep]) :: ('w, 'z, int + string list) prog) (\<lambda>r es. (\<forall>l. r = Inr l \<longrightarrow> l = started @ replicate (length (n # names)) ep) \<and>
     (\<forall>c. r = Inl c \<longrightarrow> c = 1))"
    by (rule produces_weaken [OF Cons.IH]) simp
  then show ?case
    unfolding driver_loop.simps createPersistentStorage_def host_call_defs
    by (intro produce_rules) auto
qed

section \<open>Theorems\<close>

text \<open>
  The process starts its servers only for the service types \<open>local\<close> (also the default) and \<open>provisioner\<close>; then
  every name of the driver list gets a driver, all on the same endpoint, and the health server listens on
  \<open>SERVICE_PORT\<close> or on the default port of the service type. Any other type ends the process before it
  has made any call.
\<close>

theorem main_starts_known_services:
  "case result (main_start h env fsize timeStr driver endpoint) s of
     Running srv \<Rightarrow> service_type env \<in> {PluginService, ProvisionerService} \<and>
       srv_endpoints srv = replicate (length (Split driver '','')) endpoint \<and>
       srv_port srv = (if env ''SERVICE_PORT'' \<noteq> [] then env ''SERVICE_PORT''
         else if service_type env = PluginService then ''12260'' else ''12270'')
   | Exit c \<Rightarrow> c = 1
   | Fatal m \<Rightarrow> service_type env \<notin> {PluginService, ProvisionerService} \<and>
       new_events (main_start h env fsize timeStr driver endpoint) s = []"
proof -
  have log: "only (\<lambda>_. True) (setLogAttribute h env fsize timeStr d)" for d and h :: "'a host"
    unfolding setLogAttribute_def Let_def by (intro trace_rules TrueI)
  have "produces (main_start h env fsize timeStr driver endpoint) (\<lambda>r es. case r of
     Running srv \<Rightarrow> service_type env \<in> {PluginService, ProvisionerService} \<and>
       srv_endpoints srv = replicate (length (Split driver '','')) endpoint \<and>
       srv_port srv = service_port env (service_type env)
   | Exit c \<Rightarrow> c = 1
   | Fatal m \<Rightarrow> service_type env \<notin> {PluginService, ProvisionerService} \<and> es = [])"
    unfolding main_start_def Let_def
    by (intro produces_if produces_bind [OF produces_of_only [OF log]] produces_bind [OF driver_loop_endpoints])
       (auto intro!: produces_returnI split: sum.split)
  from produces_new [OF this, of s] show ?thesis
    by (auto simp: service_port_def PluginServicePort_def ProvisionerServicePort_def PluginService_def ProvisionerService_def
        Let_def split: startup.splits)
qed

text \<open>
  Both service types log to the same file: the name of the log of the provisioner is meant to replace \<open>local\<close> in the
  plugin suffix, but the suffix does not contain it.
\<close>

theorem log_attribute_shared:
  "log_attribute ProvisionerService = log_attribute PluginService"
  by (simp add: log_attribute_def ProvisionerService_def PluginService_def TypePluginSuffix_def ReplaceAll_def Split.simps)

end
