(* ===== verification/Spec2Isabelle.thy ===== *)
theory Spec2Isabelle
  imports Lvm_Node_Theorems Lvm_Concurrent Lvm_Capacity Lvm_Driver Lvm_VG Lvm_InFlight Csi_Device Csi_Interface Utils_Cgroup Utils_Types
    Utils_Connector Utils_Net Metrics Om Driver_Main
begin

text \<open>
  This library models and verifies the kata-local-csi-driver, a CSI driver in Go that gives pods logical volumes of
  the node they run on, mounted for ordinary containers or handed to the kata runtime as direct block volumes.

  \<^bold>\<open>The program.\<close> \<open>cmd/driver/main.go\<close> reads the command line and the environment, sets up the log and starts, per driver name, the gRPC services
  of \<open>pkg/csi/lvm\<close> and, beside them, the maintenance loop of \<open>pkg/om\<close>. The controller service (\<open>controllerserver.go\<close>) answers
  without side effects and binds a volume to a node by its topology key. All the work is done by the node service
  (\<open>nodeserver.go\<close>): publishing a volume creates the logical volume if its device is missing, formats the device if
  it holds no file system, mounts it (\<open>pkg/utils/mounter.go\<close>) or registers it as a direct volume, and grows it to the
  capacity of the persistent volume. It runs the LVM tools through a shell (\<open>pkg/csi/lvm/util.go\<close>, \<open>pkg/utils/util.go\<close>).
  \<open>vg.go\<close> is a library over the JSON reports of LVM. The maintenance loop reads the system log and removes what kubelet
  could not: links to block devices no pod uses and directories of orphaned pods. \<open>pkg/utils\<close> also has helpers for JSON files,
  annotations and node addresses; \<open>pkg/metrics\<close> declares gauges and is imported by no other package.

  \<^bold>\<open>How the host is modelled.\<close> Everything outside the process is an argument \<open>h\<close> of the definitions, the record \<open>host\<close> of
  \<open>Host_IO\<close>: shell commands, the file system, the Kubernetes API client, the direct-volume package, the file system
  resizer, the pinger, sockets and the metadata service, each a function from a world of an arbitrary type to an answer and a new
  world. Theorems hold for every host, or for every host that follows the laws they name. A program is a computation in the state monad over the record \<open>sys\<close>,
  which holds the world and the trace of calls with their answers, so that safety properties are statements
  about the trace: \<open>produces\<close> relates results and traces, \<open>only\<close> bounds the calls, \<open>keeps\<close> frames the state, and
  \<open>guards bad ok\<close> says that a bad event is preceded by one that allows it. Components with state of their own extend the record
  (\<open>nodeState\<close> by \<open>isDirect\<close>, \<open>omState\<close> by the configuration and the list of fixed pods, \<open>addr_sys\<close> by the cache of node
  addresses). Go errors are values
  of \<open>goerror\<close>; a nil dereference, an index out of range and \<open>panic\<close> are the value \<open>Panic\<close> of \<open>outcome\<close>. Strings
  are byte strings. JSON is decoded by a model of \<open>encoding/json\<close> (Go 1.19): its scanner as a stack machine, its way of storing values
  in structures, slices and maps, and its errors. Floating point is the argument \<open>floats\<close> (parsing, division by 100), the
  environment is an argument \<open>env\<close>, the connector socket of \<open>Utils_Connector\<close> the argument \<open>sk\<close>.

  \<^bold>\<open>The theories.\<close>
  \<^item> \<open>Go_Base\<close>, \<open>Go_Strings\<close>, \<open>Go_Strconv\<close>, \<open>Go_Filepath\<close>, \<open>Go_Json\<close>: the parts of the Go library the code uses, with their laws
    (splitting and joining, trimming with the UTF-8 encodings of white space, number parsing with overflow, path
    cleaning, JSON string escaping). \<open>Go_Json_Scan\<close>: the JSON scanner. \<open>Go_Json_Text\<close>: the JSON grammar as an inductive definition,
    that the scanner returns the value of each of its texts, and that decoded strings are valid UTF-8. \<open>Go_Json_Decode\<close>: \<open>json.Unmarshal\<close>,
    \<open>json.Decoder\<close> and \<open>json.Marshal\<close> of maps. \<open>Go_Net\<close>: \<open>net.ParseIP\<close> and the text of addresses. \<open>Go_Store\<close>: the interfaces \<open>store\<close> and \<open>removable_store\<close> of lookup tables.
  \<^item> \<open>Host_IO\<close>: the host, the calls, the trace logic. \<open>Sample_Host\<close>: a concrete host for the witnesses.
  \<^item> \<open>Utils_Alloc\<close> (allocation records of \<open>types.go\<close> and the annotations that hold them), \<open>Utils_Util\<close> (\<open>pkg/utils/util.go\<close>: shell,
    mounts, block targets), \<open>Utils_JsonFiles\<close> (its JSON, synced and metrics files), \<open>Utils_Net\<close> (its node addresses, pod runtime, pings, time
    limits), \<open>Utils_Mounter\<close> (\<open>mounter.go\<close>; interface \<open>mounter_contract\<close>, implemented by \<open>NewMounter\<close>;
    mount table parser, removal of paths), \<open>Utils_Connector\<close> (host connector of \<open>util.go\<close>), \<open>Utils_Types\<close> (\<open>types.go\<close>; the
    maps of anti-affinity weights as addresses of a heap, since \<open>Items\<close> may share them), \<open>Utils_Cgroup\<close> (\<open>cgroup_driver.go\<close>; interface
    \<open>cgroup_formatter\<close>, implemented by both formatters).
  \<^item> \<open>Csi_Exec\<close> (\<open>pkg/csi/exec.go\<close>), \<open>Csi_Interface\<close> (\<open>interface.go\<close>), \<open>Csi_Device\<close> (\<open>pkg/csi/device\<close>).
  \<^item> \<open>Lvm_Util\<close> (\<open>pkg/csi/lvm/util.go\<close>), \<open>Lvm_NodeServer\<close> (\<open>nodeserver.go\<close>: state, helpers, handlers; interface \<open>node_contract\<close>, which
    extends the one of the mounter by the runner), \<open>Lvm_Node_Theorems\<close> (the implementations meet the contract, and the
    theorems about the handlers on every host), \<open>Node_Spec\<close> (the abstract specification: a node with its volumes, file systems and
    mounts, the moves a storage driver may make, and the logic \<open>ensures\<close> over the view of a world as such a node),
    \<open>Lvm_Lifecycle\<close> (the laws of the tools, and what each handler does to the node under them), \<open>Sim_Node\<close> (a simulated node
    that follows the laws), \<open>Lvm_Liveness\<close> (healthy nodes, on which publishing succeeds when the volume and the target are ready), \<open>Lvm_Service\<close> (the service over its life, and two requests
    at the same time), \<open>Lvm_Race\<close> (what overlapping requests for one volume can do), \<open>Lvm_Concurrent\<close> (requests for different volumes at the same
    time: rely and guarantee), \<open>Lvm_Capacity\<close> (the size of volumes after publishing and expanding, by the answers of the API server: the logic \<open>asks\<close>), \<open>Lvm_Report\<close> (the reports of \<open>vg.go\<close> and their decoders; interface \<open>report_format\<close> between a
    kind of row and its decoder), \<open>Lvm_VG\<close> (the operations of \<open>vg.go\<close>; interfaces \<open>line_classifier\<close> of the error classifiers and
    \<open>size_column\<close> of the size queries, which is one of \<open>report_format\<close>), \<open>Lvm_InFlight\<close>
    (\<open>inflight.go\<close>, as a step relation over atomic calls), \<open>Lvm_Driver\<close> (\<open>controllerserver.go\<close>, \<open>identityserver.go\<close>, \<open>lvm.go\<close>,
    the constant handlers of \<open>nodeserver.go\<close>, the driver object and the server of the vendored csi-common).
  \<^item> \<open>Om\<close> (\<open>pkg/om\<close>), \<open>Metrics\<close> (\<open>pkg/metrics\<close>), \<open>Driver_Flags\<close> (the command line, \<open>pkg/utils/options.go\<close>), \<open>Driver_Main\<close> (\<open>cmd/driver/main.go\<close>). This theory: properties that
    join controller and node, and annotations and volumes.

  \<^bold>\<open>What is shown.\<close>
  \<^item> The node service refines the abstract node: in every sequence of requests and restarts, with commands that may fail, it only
    creates missing volumes, formats devices without a file system, mounts devices with one on free paths, unmounts and
    extends. So file systems, volumes and mounts are kept, a request concerns its own volume and path only, unpublishing undoes publishing, a volume
    that was published or expanded has the capacity that the API server answered, and on a healthy node publishing succeeds. These theorems have the laws of the tools as hypotheses
    (\<open>node_laws\<close>, \<open>size_laws\<close>, \<open>publishable\<close>): what
    \<open>stat\<close>, \<open>file\<close>, \<open>blkid\<close> and a search of the mount table answer, and what \<open>mkfs\<close>, \<open>mount\<close>, \<open>umount\<close>, \<open>lvcreate\<close> and \<open>lvextend\<close> do, for names
    that LVM admits; the simulated node shows that they can hold. Success is only assumed of commands in the states in which it is documented: \<open>lvcreate\<close> and
    \<open>lvextend\<close> with room in the group (\<open>volume_group\<close>), \<open>mount\<close> of a file system of its type on a free target. The API server may fail: the
    capacity that a handler goes by is the one of the answer it got, and zero after a failed request.
  \<^item> Requests for different volumes and targets may run at the same time: the calls of one handler leave the part of the node that others work on as it is, and
    what a handler does to its own part is the same with such calls between its own, for every value that others leave in \<open>isDirect\<close>. Requests for one
    volume at the same time are not safe, as \<open>Lvm_Race\<close> shows.
  \<^item> Node service: a device is formatted only after it was seen to hold no file system, and a logical volume is created
    only after its device was seen missing; what a successful publish, unpublish, creation and resize has done;
    that publishing again creates, formats and mounts nothing; the bounds of the sizes asked from LVM; when the handlers panic.
  \<^item> Mounter and maintenance: paths are removed only when unmounted and empty, links only directly after a search of the mount table that did not show
    them (or failed), and of an orphaned pod only the parts of listed volumes are unmounted and removed; the mount table parser inverts printing
    and reads a consistent table.
  \<^item> LVM library: validated names and tags are inert for the shell; answers of the queries on every branch;
    lookups return what the report says, and the size queries the number in its first row, whatever JSON text the tool
    prints for the report.
  \<^item> Utilities: the volume group and the allocations in an annotation are read from each JSON text of them; JSON files are
    round trips, and extending one is the update of a map, in whatever order Go enumerates the new entries; a synced file
    is complete when no error is returned; metrics files are never overwritten; node addresses are the preferred ones and
    stay what they were first found to be; the deadline of a command is the limit as long as it fits in 64 bits.
  \<^item> Tables: in-flight keys are exclusive in every interleaving and free again once deleted, the scheduler and weight tables implement their
    abstract stores, also under aliasing. Cgroup names are parsed back. The controller binds volumes to the node
    that reported its topology.
  \<^item> Where the code does not do what it says, the theorem states what it does (rounded sizes, the shared field
    \<open>isDirect\<close>, the panics, the size zero, the failed checks that count as answers, the links and pod ids that leave their directory, the address "<nil>", the package that
    cannot be imported).

  \<^bold>\<open>Bounds.\<close> All loops of the program but one are structural and modelled by terminating functions without fuel.
  The maintenance loop runs forever: \<open>StorageOM h env n\<close> is its first \<open>n\<close> rounds, and its theorems hold for every \<open>n\<close>.
  Integers that the code compares or multiplies are kept in range (\<open>is_int64\<close>, \<open>uint64\<close>).

  \<^bold>\<open>What is not modelled.\<close> The dispatch of the gRPC and HTTP servers and logging are library calls; vendored packages are
  operations of the host, except for the small parts that decide the behaviour of the driver (the driver object and the server of
  csi-common, \<open>ConsistentRead\<close>, the names of tally scopes). A \<open>log.Fatalf\<close> in the construction of the API client ends the process before a
  server exists. Data races are outside the model: methods under a mutex are atomic, and handlers interleave at the calls of the host and at the accesses of
  the field \<open>isDirect\<close>. Constants
  of \<open>pkg/utils/types.go\<close> and \<open>pkg/csi/interface.go\<close> that no function uses, and the unused structure \<open>BindingInfo\<close>, have no definitions.
\<close>

section \<open>From the controller to the node\<close>

text \<open>\<open>InvalidArgument\<close> is the answer of the checks of the request only.\<close>

lemma publish_mount_code:
  "run_state (publish_mount h ns req vgName fsType devicePath new isMnt) s \<noteq> (Inl (StatusError InvalidArgument m), s')"
  by (auto simp: publish_mount_def Let_def split: prod.splits sum.splits option.splits)

lemma publish_volume_code:
  "run_state (publish_volume h ns req vgName fsType devicePath new) s \<noteq> (Done (Inl (StatusError InvalidArgument m)), s')"
  by (auto simp: publish_volume_def Let_def publish_mount_code split: prod.split sum.split option.split)

lemma valid_publish_code:
  assumes "valid_publish req"
  shows "result (NodePublishVolume h ns req) s \<noteq> Done (Inl (StatusError InvalidArgument m))"
proof -
  have "run_state (NodePublishVolume h ns req) s \<noteq> (Done (Inl (StatusError InvalidArgument m)), s')" for s'
    by (simp add: NodePublishVolume_eq [OF assms] publish_finish_def Let_def publish_volume_code
        split: prod.split option.split)
  then show ?thesis by (metis prod.collapse result_def)
qed

text \<open>
  C29: The controller does not look at the parameters of a volume: it accepts a storage class without a volume group, and
  the node service then refuses every publish request for the volume with \<open>InvalidArgument\<close>. The volume group
  is the only such condition: a volume with one is never refused this way.
\<close>

theorem created_volume_publishable:
  assumes l: "result (NewDriver h nodeID0 endpoint) s = Done l"
    and v: "CreateVolume (lvm_driver l) req = Inr v"
    and p: "pub_VolumeId p = vol_VolumeId v" "pub_VolumeContext p = vol_VolumeContext v" "pub_TargetPath p \<noteq> []"
  shows "(\<exists>m. result (NodePublishVolume h (lvm_nodeServer l) p) t = Done (Inl (StatusError InvalidArgument m))) \<longleftrightarrow>
    ctx_or (cr_Parameters req) ''vgName'' [] = []"
proof -
  have "cr_Name req \<noteq> []" "vol_VolumeId v = cr_Name req" "vol_VolumeContext v = cr_Parameters req"
    using v by (auto simp: CreateVolume_def Let_def split: option.splits if_splits)
  then have valid: "valid_publish p \<longleftrightarrow> ctx_or (cr_Parameters req) ''vgName'' [] \<noteq> []"
    using p by (simp add: valid_publish_def)
  show ?thesis
  proof (cases "valid_publish p")
    case True
    then show ?thesis using valid valid_publish_code by blast
  next
    case False
    then obtain m where "NodePublishVolume h (lvm_nodeServer l) p =
        State_Monad.return (Done (Inl (StatusError InvalidArgument m)))"
      by (rule publish_invalid)
    then show ?thesis using False valid by (simp add: result_def)
  qed
qed

theorem created_volume_publishable_witness:
  "\<exists>l v m. result (NewDriver quiet_host ''n'' ''unix:///x'') nstart = Done l \<and>
     CreateVolume (lvm_driver l) sample_create = Inr v \<and>
     result (NodePublishVolume quiet_host (lvm_nodeServer l) (sample_req\<lparr>pub_VolumeId := vol_VolumeId v,
       pub_VolumeContext := vol_VolumeContext v\<rparr>)) nstart = Done (Inl (StatusError InvalidArgument m))"
proof -
  obtain l where l: "result (NewDriver quiet_host ''n'' ''unix:///x'') nstart = Done l" and
      c: "CREATE_DELETE_VOLUME \<in> set (drv_cap (lvm_driver l))"
    by (simp add: result_def NewDriver_def NewCSIDriver_def driverName_def csiVersion_def Let_def)
  from c obtain v where v: "CreateVolume (lvm_driver l) sample_create = Inr v"
    by (simp add: CreateVolume_def ValidateControllerServiceRequest_def sample_create_def pickNodeID_def)
  show ?thesis
    using created_volume_publishable [OF l v, of "sample_req\<lparr>pub_VolumeId := vol_VolumeId v,
       pub_VolumeContext := vol_VolumeContext v\<rparr>" nstart] l v
    by (auto simp: sample_create_def sample_req_def ctx_or_def)
qed

section \<open>From the annotation to the volume\<close>







end
